(* ===== verification/Prelude.thy ===== *)
theory Prelude
  imports Complex_Main "HOL-Library.Word" "HOL-Library.AList" "HOL-Library.Multiset" "HOL-Library.Sublist"
begin

text \<open>
  Shared vocabulary of the development: the machine types of the Rust sources, the result type of
  fallible operations, the standard-library pieces the sources use (saturating arithmetic,
  \<open>HashMap\<close>, the sending half of an \<open>mpsc\<close> channel, ASCII string helpers) and the interface of
  the third-party \<open>rust_decimal::Decimal\<close> type, which is a parameter of the model.

  Conventions.
  \<^item> \<open>u64\<close> and \<open>u32\<close> are words; \<open>+\<close> wraps, as in a release build (no profile of the workspace
    turns overflow checks on outside debug builds).  \<open>usize\<close> counts (lengths) are \<open>nat\<close>.
  \<^item> \<open>f64\<close> values that are only carried around are their 64-bit pattern.
  \<^item> \<open>Instant\<close> and \<open>Duration\<close> are natural numbers of nanoseconds; a function that reads the clock
    takes the reading as an argument.
  \<^item> A \<open>HashMap\<close> is an association list with distinct keys; its order stands for the unspecified
    iteration order, so a theorem for every list covers every order.
  \<^item> Strings are lists of 8-bit characters; case conversion and trimming act on ASCII, which is
    what the venues' symbols consist of.
  \<^item> Log statements (\<open>tracing\<close>) have no counterpart.
\<close>

section \<open>Collections of rewrite rules\<close>

named_theorems u64_simps \<open>saturating arithmetic on machine words\<close>
named_theorems hm_simps \<open>look-up after an update of a hash map\<close>
named_theorems str_simps \<open>string helpers\<close>

section \<open>Machine types and results\<close>

type_synonym u64 = "64 word"
type_synonym u32 = "32 word"
type_synonym i64 = int
type_synonym usize = nat
type_synonym f64 = "64 word"
type_synonym duration = nat
type_synonym instant = nat

datatype ('a, 'e) result = Ok 'a | Err 'e

fun is_ok :: "('a, 'e) result \<Rightarrow> bool" where
  "is_ok (Ok _) = True"
| "is_ok (Err _) = False"

fun map_err :: "('e \<Rightarrow> 'f) \<Rightarrow> ('a, 'e) result \<Rightarrow> ('a, 'f) result" where
  "map_err f (Ok a) = Ok a"
| "map_err f (Err e) = Err (f e)"

fun result_bind :: "('a, 'e) result \<Rightarrow> ('a \<Rightarrow> ('b, 'e) result) \<Rightarrow> ('b, 'e) result" where
  "result_bind (Ok a) f = f a"
| "result_bind (Err e) f = Err e"

definition ok_or :: "'a option \<Rightarrow> 'e \<Rightarrow> ('a, 'e) result" where
  "ok_or x e = (case x of None \<Rightarrow> Err e | Some a \<Rightarrow> Ok a)"

lemma ok_or_simps [simp]: "ok_or None e = Err e" "ok_or (Some a) e = Ok a"
  by (simp_all add: ok_or_def)

lemma is_ok_iff: "is_ok r \<longleftrightarrow> (\<exists>a. r = Ok a)"
  by (cases r) auto

definition unwrap_or :: "'a option \<Rightarrow> 'a \<Rightarrow> 'a" where
  "unwrap_or x d = (case x of None \<Rightarrow> d | Some a \<Rightarrow> a)"

lemma unwrap_or_simps [simp]: "unwrap_or None d = d" "unwrap_or (Some a) d = a"
  by (simp_all add: unwrap_or_def)

definition or_else :: "'a option \<Rightarrow> 'a option \<Rightarrow> 'a option" where
  "or_else x y = (case x of None \<Rightarrow> y | Some a \<Rightarrow> Some a)"

lemma or_else_simps [simp]: "or_else None y = y" "or_else (Some a) y = Some a"
  by (simp_all add: or_else_def)

section \<open>Saturating arithmetic\<close>

definition saturating_add :: "u64 \<Rightarrow> u64 \<Rightarrow> u64" where
  "saturating_add a b = (if unat a + unat b < 2 ^ 64 then a + b else - 1)"

definition saturating_sub :: "u64 \<Rightarrow> u64 \<Rightarrow> u64" where
  "saturating_sub a b = (if b \<le> a then a - b else 0)"

definition saturating_mul :: "u64 \<Rightarrow> u64 \<Rightarrow> u64" where
  "saturating_mul a b = (if unat a * unat b < 2 ^ 64 then a * b else - 1)"

lemma unat_minus_one_64 [simp]: "unat (- 1 :: u64) = 2 ^ 64 - 1"
  by (simp add: unsigned_minus_1_eq_mask mask_eq_exp_minus_1)

lemma unat_saturating_add [u64_simps]: "unat (saturating_add a b) = min (unat a + unat b) (2 ^ 64 - 1)"
  by (auto simp: saturating_add_def unat_word_ariths min_def)

lemma unat_saturating_sub [u64_simps]: "unat (saturating_sub a b) = unat a - unat b"
  by (auto simp: saturating_sub_def unat_sub word_le_nat_alt)

lemma unat_saturating_mul [u64_simps]: "unat (saturating_mul a b) = min (unat a * unat b) (2 ^ 64 - 1)"
  by (auto simp: saturating_mul_def unat_word_ariths min_def)

section \<open>Hash maps\<close>

type_synonym ('k, 'v) hash_map = "('k \<times> 'v) list"

abbreviation hm_get :: "('k, 'v) hash_map \<Rightarrow> 'k \<Rightarrow> 'v option" where
  "hm_get \<equiv> map_of"

abbreviation hm_insert :: "'k \<Rightarrow> 'v \<Rightarrow> ('k, 'v) hash_map \<Rightarrow> ('k, 'v) hash_map" where
  "hm_insert \<equiv> AList.update"

abbreviation hm_remove :: "'k \<Rightarrow> ('k, 'v) hash_map \<Rightarrow> ('k, 'v) hash_map" where
  "hm_remove \<equiv> AList.delete"

definition hm_map_values :: "('v \<Rightarrow> 'w) \<Rightarrow> ('k, 'v) hash_map \<Rightarrow> ('k, 'w) hash_map" where
  "hm_map_values f m = map (\<lambda>(k, v). (k, f v)) m"

definition hm_wf :: "('k, 'v) hash_map \<Rightarrow> bool" where
  "hm_wf m \<longleftrightarrow> distinct (map fst m)"

lemma hm_get_insert [hm_simps]: "hm_get (hm_insert k v m) k' = (if k' = k then Some v else hm_get m k')"
  by (simp add: update_conv')

lemma hm_get_remove [hm_simps]: "hm_get (hm_remove k m) k' = (if k' = k then None else hm_get m k')"
  by (simp add: delete_conv')

lemma hm_get_map_values [hm_simps]: "hm_get (hm_map_values f m) k = map_option f (hm_get m k)"
  by (induction m) (auto simp: hm_map_values_def)

lemma keys_map_values [simp]: "map fst (hm_map_values f m) = map fst m"
  by (induction m) (auto simp: hm_map_values_def)

lemma hm_wf_empty [simp]: "hm_wf []"
  by (simp add: hm_wf_def)

lemma hm_wf_insert [simp]: "hm_wf m \<Longrightarrow> hm_wf (hm_insert k v m)"
  by (simp add: hm_wf_def distinct_update)

lemma hm_wf_remove [simp]: "hm_wf m \<Longrightarrow> hm_wf (hm_remove k m)"
  by (simp add: hm_wf_def distinct_delete)

lemma hm_wf_map_values [simp]: "hm_wf (hm_map_values f m) = hm_wf m"
  by (simp add: hm_wf_def)

lemma hm_insert_keys_present: "k \<in> fst ` set m \<Longrightarrow> map fst (hm_insert k v m) = map fst m"
  by (induction m) auto

lemma hm_insert_set: "x \<in> set (hm_insert k v m) \<Longrightarrow> x = (k, v) \<or> x \<in> set m"
  by (induction m) (auto split: if_splits)

section \<open>The sending half of a channel\<close>

text \<open>
  An \<open>mpsc::Sender\<close>: the messages sent so far, and the point at which the receiver goes away
  (\<open>None\<close>: never).  A send after that point fails, as \<open>send(..).await\<close> does.
\<close>

record 'm sender =
  sent :: "'m list"
  closes_after :: "nat option"

definition send :: "'m \<Rightarrow> 'm sender \<Rightarrow> 'm sender option" where
  "send m ch =
     (case closes_after ch of
        None \<Rightarrow> Some (ch\<lparr>sent := sent ch @ [m]\<rparr>)
      | Some n \<Rightarrow> if n \<le> length (sent ch) then None else Some (ch\<lparr>sent := sent ch @ [m]\<rparr>))"

lemma send_Some: "send m ch = Some ch' \<Longrightarrow> sent ch' = sent ch @ [m] \<and> closes_after ch' = closes_after ch"
  by (auto simp: send_def split: option.splits if_splits)

section \<open>Strings\<close>

definition char_upper :: "char \<Rightarrow> char" where
  "char_upper c = (let n = of_char c :: nat in if 97 \<le> n \<and> n \<le> 122 then char_of (n - 32) else c)"

definition char_lower :: "char \<Rightarrow> char" where
  "char_lower c = (let n = of_char c :: nat in if 65 \<le> n \<and> n \<le> 90 then char_of (n + 32) else c)"

definition to_uppercase :: "string \<Rightarrow> string" where
  "to_uppercase = map char_upper"

definition to_lowercase :: "string \<Rightarrow> string" where
  "to_lowercase = map char_lower"

definition is_space :: "char \<Rightarrow> bool" where
  "is_space c = (let n = of_char c :: nat in n = 32 \<or> (9 \<le> n \<and> n \<le> 13))"

definition is_ascii_alphanumeric :: "char \<Rightarrow> bool" where
  "is_ascii_alphanumeric c = (let n = of_char c :: nat in
     (48 \<le> n \<and> n \<le> 57) \<or> (65 \<le> n \<and> n \<le> 90) \<or> (97 \<le> n \<and> n \<le> 122))"

definition trim :: "string \<Rightarrow> string" where
  "trim s = rev (dropWhile is_space (rev (dropWhile is_space s)))"

text \<open>\<open>split_once\<close> splits at the first occurrence of the separator.\<close>

fun split_once :: "char \<Rightarrow> string \<Rightarrow> (string \<times> string) option" where
  "split_once c [] = None"
| "split_once c (x # xs) =
     (if x = c then Some ([], xs)
      else map_option (\<lambda>(a, b). (x # a, b)) (split_once c xs))"

definition strip_suffix :: "string \<Rightarrow> string \<Rightarrow> string option" where
  "strip_suffix s q =
     (if length q \<le> length s \<and> drop (length s - length q) s = q
      then Some (take (length s - length q) s) else None)"

lemma split_once_append [str_simps]: "c \<notin> set a \<Longrightarrow> split_once c (a @ c # b) = Some (a, b)"
  by (induction a) auto

lemma split_once_None [str_simps]: "split_once c s = None \<longleftrightarrow> c \<notin> set s"
  by (induction s) auto

lemma split_once_Some: "split_once c s = Some (a, b) \<Longrightarrow> s = a @ c # b \<and> c \<notin> set a"
  by (induction s arbitrary: a b) (auto split: if_splits)

lemma strip_suffix_append [str_simps]: "strip_suffix (b @ q) q = Some b"
  by (simp add: strip_suffix_def)

lemma strip_suffix_Some: "strip_suffix s q = Some b \<longleftrightarrow> s = b @ q"
  by (auto simp: strip_suffix_def) (metis append_take_drop_id)

lemma dropWhile_no_space: "\<forall>c \<in> set s. \<not> is_space c \<Longrightarrow> dropWhile is_space s = s"
  by (cases s) auto

lemma trim_no_space [str_simps]: "\<forall>c \<in> set s. \<not> is_space c \<Longrightarrow> trim s = s"
  by (simp add: trim_def dropWhile_no_space)

lemma char_upper_upper [simp]: "char_upper (char_upper c) = char_upper c"
  by (auto simp: char_upper_def Let_def)

lemma char_lower_lower [simp]: "char_lower (char_lower c) = char_lower c"
  by (auto simp: char_lower_def Let_def)

lemma to_uppercase_idem [simp]: "to_uppercase (to_uppercase s) = to_uppercase s"
  by (simp add: to_uppercase_def)

lemma to_lowercase_idem [simp]: "to_lowercase (to_lowercase s) = to_lowercase s"
  by (simp add: to_lowercase_def)

lemma to_uppercase_append [simp]: "to_uppercase (a @ b) = to_uppercase a @ to_uppercase b"
  by (simp add: to_uppercase_def)

lemma to_lowercase_append [simp]: "to_lowercase (a @ b) = to_lowercase a @ to_lowercase b"
  by (simp add: to_lowercase_def)

lemma to_uppercase_Nil [simp]: "to_uppercase s = [] \<longleftrightarrow> s = []"
  by (simp add: to_uppercase_def)

section \<open>Decimals\<close>

text \<open>
  The operations of \<open>rust_decimal::Decimal\<close> that the sources call, as a parameter of the model.
  A decimal denotes a rational number (\<open>dec_val\<close>); comparison, equality and hashing of decimals
  are those of the denoted number, so \<open>1.0\<close> and \<open>1.00\<close> are equal although they print differently.
\<close>

record 'd decimal_ops =
  dec_val :: "'d \<Rightarrow> rat"
  dec_zero :: 'd
  dec_two :: 'd
  dec_from_int :: "int \<Rightarrow> 'd"
  dec_from_str :: "string \<Rightarrow> ('d, string) result"
  dec_from_str_exact :: "string \<Rightarrow> 'd option"
  dec_to_string :: "'d \<Rightarrow> string"
  dec_normalize :: "'d \<Rightarrow> 'd"
  dec_add :: "'d \<Rightarrow> 'd \<Rightarrow> 'd"
  dec_sub :: "'d \<Rightarrow> 'd \<Rightarrow> 'd"
  dec_mul :: "'d \<Rightarrow> 'd \<Rightarrow> 'd"
  dec_div :: "'d \<Rightarrow> 'd \<Rightarrow> 'd"
  dec_abs :: "'d \<Rightarrow> 'd"
  dec_round_dp :: "nat \<Rightarrow> 'd \<Rightarrow> 'd"
  dec_to_f64 :: "'d \<Rightarrow> f64 option"
  dec_from_f64 :: "f64 \<Rightarrow> 'd option"

abbreviation dec_le :: "'d decimal_ops \<Rightarrow> 'd \<Rightarrow> 'd \<Rightarrow> bool" where
  "dec_le D a b \<equiv> dec_val D a \<le> dec_val D b"

abbreviation dec_less :: "'d decimal_ops \<Rightarrow> 'd \<Rightarrow> 'd \<Rightarrow> bool" where
  "dec_less D a b \<equiv> dec_val D a < dec_val D b"

abbreviation dec_eq :: "'d decimal_ops \<Rightarrow> 'd \<Rightarrow> 'd \<Rightarrow> bool" where
  "dec_eq D a b \<equiv> dec_val D a = dec_val D b"

text \<open>
  Named hypotheses on the parameter, each stating documented behaviour of the crate: zero denotes
  zero, addition and subtraction are exact (as they are while the result fits the 96-bit
  mantissa), and a printed decimal parses back to an equal one.
\<close>

definition dec_zero_law :: "'d decimal_ops \<Rightarrow> bool" where
  "dec_zero_law D \<longleftrightarrow> dec_val D (dec_zero D) = 0"

definition dec_exact_add :: "'d decimal_ops \<Rightarrow> bool" where
  "dec_exact_add D \<longleftrightarrow> (\<forall>a b. dec_val D (dec_add D a b) = dec_val D a + dec_val D b)"

definition dec_exact_sub :: "'d decimal_ops \<Rightarrow> bool" where
  "dec_exact_sub D \<longleftrightarrow> (\<forall>a b. dec_val D (dec_sub D a b) = dec_val D a - dec_val D b)"

definition dec_print_parse :: "'d decimal_ops \<Rightarrow> bool" where
  "dec_print_parse D \<longleftrightarrow>
     (\<forall>a. \<exists>b. dec_from_str D (dec_to_string D a) = Ok b \<and> dec_val D b = dec_val D a)"


section \<open>Machines that can fail\<close>

text \<open>
  The contract of a stateful component whose operation consumes an input and either succeeds or
  reports an error, and which leaves a state behind either way.  A run feeds a list of inputs and
  goes on after an error, as the callers in the sources do.
\<close>

locale fallible_machine =
  fixes step :: "'s \<Rightarrow> 'i \<Rightarrow> ('o, 'e) result \<times> 's"
    and inv :: "'s \<Rightarrow> bool"
  assumes inv_step: "inv s \<Longrightarrow> inv (snd (step s i))"
begin

definition run :: "'i list \<Rightarrow> 's \<Rightarrow> 's" where
  "run is s = fold (\<lambda>i s. snd (step s i)) is s"

lemma run_Nil: "run [] s = s"
  by (simp add: run_def)

lemma run_snoc: "run (is @ [i]) s = snd (step (run is s) i)"
  by (simp add: run_def)

lemma run_inv: "inv s \<Longrightarrow> inv (run is s)"
  by (induction "is" rule: rev_induct) (auto simp: run_def inv_step)

end

text \<open>
  A machine whose success and failure are visible in the state: after a success the state is
  good, after a failure it is flagged.
\<close>

locale flagged_machine = fallible_machine +
  fixes good :: "'a \<Rightarrow> bool" and flagged :: "'a \<Rightarrow> bool"
  assumes ok_good: "inv s \<Longrightarrow> step s i = (Ok out, s') \<Longrightarrow> good s'"
    and err_flagged: "inv s \<Longrightarrow> step s i = (Err e, s') \<Longrightarrow> flagged s'"
begin

lemma run_good_or_flagged:
  assumes "inv s"
  shows "good (run (is @ [i]) s) \<or> flagged (run (is @ [i]) s)"
proof -
  obtain r s' where st: "step (run is s) i = (r, s')" by fastforce
  from run_inv [OF assms] st show ?thesis
    by (cases r) (auto simp: run_snoc dest: ok_good err_flagged)
qed

end

section \<open>Step relations with an invariant\<close>

text \<open>
  The contract of a component that is a step relation: its invariant is kept by every step.  Then it
  holds along every run, however the steps are interleaved.
\<close>

locale step_invariant =
  fixes step_rel :: "'s \<Rightarrow> 's \<Rightarrow> bool"
    and state_inv :: "'s \<Rightarrow> bool"
  assumes step_keeps: "step_rel s s' \<Longrightarrow> state_inv s \<Longrightarrow> state_inv s'"
begin

lemma reach_keeps: "step_rel\<^sup>*\<^sup>* s s' \<Longrightarrow> state_inv s \<Longrightarrow> state_inv s'"
  by (induction rule: rtranclp_induct) (auto intro: step_keeps)

end

end
