(* ===== verification/Trading_Pair.thy ===== *)
theory Trading_Pair
  imports Prelude
begin

text \<open>
  Trading pairs and their spellings: \<open>TradingPair\<close> with its parsers and printers
  (\<open>aetelier-types/src/trading_pair.rs\<close>), the venue enumeration (\<open>exchanges.rs\<close>) and the wire
  symbol codec of the connect framework (\<open>framework/symbol.rs\<close>).
\<close>

section \<open>Venues\<close>

datatype exchange =
    Bybit | Coinbase | Kraken | Binance | Okx | Gateio | Upbit | Poloniex | Htx | Kucoin | Bitget
  | Bitso | Hyperliquid

fun exchange_display :: "exchange \<Rightarrow> string" where
  "exchange_display Bybit = ''bybit''"
| "exchange_display Coinbase = ''coinbase''"
| "exchange_display Kraken = ''kraken''"
| "exchange_display Binance = ''binance''"
| "exchange_display Okx = ''okx''"
| "exchange_display Gateio = ''gateio''"
| "exchange_display Upbit = ''upbit''"
| "exchange_display Poloniex = ''poloniex''"
| "exchange_display Htx = ''htx''"
| "exchange_display Kucoin = ''kucoin''"
| "exchange_display Bitget = ''bitget''"
| "exchange_display Bitso = ''bitso''"
| "exchange_display Hyperliquid = ''hyperliquid''"

definition exchange_all :: "exchange list" where
  "exchange_all = [Bybit, Coinbase, Kraken, Binance, Okx, Gateio, Upbit, Poloniex, Htx, Kucoin,
     Bitget, Bitso, Hyperliquid]"

definition exchange_from_str_loose :: "string \<Rightarrow> exchange option" where
  "exchange_from_str_loose s = (let l = to_lowercase s in
     if l = ''bybit'' then Some Bybit
     else if l = ''coinbase'' then Some Coinbase
     else if l = ''kraken'' then Some Kraken
     else if l = ''binance'' then Some Binance
     else if l = ''okx'' \<or> l = ''okex'' then Some Okx
     else if l = ''gateio'' \<or> l = ''gate'' \<or> l = ''gate.io'' then Some Gateio
     else if l = ''upbit'' then Some Upbit
     else if l = ''poloniex'' then Some Poloniex
     else if l = ''htx'' \<or> l = ''huobi'' then Some Htx
     else if l = ''kucoin'' then Some Kucoin
     else if l = ''bitget'' then Some Bitget
     else if l = ''bitso'' then Some Bitso
     else if l = ''hyperliquid'' then Some Hyperliquid
     else None)"

section \<open>The pair\<close>

record trading_pair =
  tp_base :: string
  tp_quote :: string

definition KNOWN_QUOTES :: "string list" where
  "KNOWN_QUOTES = [''USDT'', ''USDC'', ''BUSD'', ''TUSD'', ''FDUSD'', ''USDD'',
     ''USD'', ''BTC'', ''ETH'', ''EUR'', ''GBP'', ''DAI'', ''BNB'']"

definition normalize_asset :: "string \<Rightarrow> string" where
  "normalize_asset asset =
     (case split_once CHR '':'' asset of
        Some (dex, ticker) \<Rightarrow>
          if dex \<noteq> [] \<and> ticker \<noteq> [] then to_lowercase dex @ CHR '':'' # to_uppercase ticker
          else to_uppercase asset
      | None \<Rightarrow> to_uppercase asset)"

definition tp_new :: "string \<Rightarrow> string \<Rightarrow> trading_pair" where
  "tp_new base quot = \<lparr>tp_base = normalize_asset (trim base), tp_quote = normalize_asset (trim quot)\<rparr>"

definition from_canonical :: "string \<Rightarrow> trading_pair option" where
  "from_canonical s =
     (case split_once CHR ''/'' s of
        None \<Rightarrow> None
      | Some (b, q) \<Rightarrow>
          let base = trim b; quot = trim q in
          if base = [] \<or> quot = [] then None
          else Some \<lparr>tp_base = normalize_asset base, tp_quote = normalize_asset quot\<rparr>)"

definition from_bare_coin :: "string \<Rightarrow> trading_pair option" where
  "from_bare_coin raw =
     (let coin = trim raw in
      if coin = [] \<or> (\<exists>c \<in> set coin. c \<in> set '':@/-_'') then None
      else Some \<lparr>tp_base = to_uppercase coin, tp_quote = ''USDC''\<rparr>)"

definition from_quote_first_hyphen :: "string \<Rightarrow> trading_pair option" where
  "from_quote_first_hyphen raw =
     (case split_once CHR ''-'' raw of
        None \<Rightarrow> None
      | Some (q, b) \<Rightarrow>
          let base = trim b; quot = trim q in
          if base = [] \<or> quot = [] then None
          else Some \<lparr>tp_base = to_uppercase base, tp_quote = to_uppercase quot\<rparr>)"

definition from_hyphenated :: "string \<Rightarrow> trading_pair option" where
  "from_hyphenated raw =
     (case split_once CHR ''-'' raw of
        None \<Rightarrow> None
      | Some (b, q) \<Rightarrow>
          let base = trim b; quot = trim q in
          if base = [] \<or> quot = [] then None
          else Some \<lparr>tp_base = to_uppercase base, tp_quote = to_uppercase quot\<rparr>)"

definition from_underscore :: "string \<Rightarrow> trading_pair option" where
  "from_underscore raw =
     (case split_once CHR ''_'' raw of
        None \<Rightarrow> None
      | Some (b, q) \<Rightarrow>
          let base = trim b; quot = trim q in
          if base = [] \<or> quot = [] then None
          else Some \<lparr>tp_base = to_uppercase base, tp_quote = to_uppercase quot\<rparr>)"

text \<open>The loop over the quote table, in its order.\<close>

fun match_quote :: "string list \<Rightarrow> string \<Rightarrow> trading_pair option" where
  "match_quote [] upper = None"
| "match_quote (q # qs) upper =
     (case strip_suffix upper q of
        Some base \<Rightarrow> if base \<noteq> [] then Some \<lparr>tp_base = base, tp_quote = q\<rparr> else match_quote qs upper
      | None \<Rightarrow> match_quote qs upper)"

definition from_concatenated :: "string \<Rightarrow> trading_pair option" where
  "from_concatenated raw = match_quote KNOWN_QUOTES (to_uppercase raw)"

definition from_exchange_symbol :: "string \<Rightarrow> exchange \<Rightarrow> trading_pair option" where
  "from_exchange_symbol raw ex =
     (let raw = trim raw in
      if raw = [] then None
      else case ex of
          Coinbase \<Rightarrow> from_hyphenated raw
        | Okx \<Rightarrow> from_hyphenated raw
        | Kucoin \<Rightarrow> from_hyphenated raw
        | Kraken \<Rightarrow> from_canonical raw
        | Gateio \<Rightarrow> from_underscore raw
        | Poloniex \<Rightarrow> from_underscore raw
        | Bitso \<Rightarrow> from_underscore raw
        | Bybit \<Rightarrow> from_concatenated raw
        | Binance \<Rightarrow> from_concatenated raw
        | Htx \<Rightarrow> from_concatenated raw
        | Bitget \<Rightarrow> from_concatenated raw
        | Upbit \<Rightarrow> from_quote_first_hyphen raw
        | Hyperliquid \<Rightarrow> from_bare_coin raw)"

definition to_canonical :: "trading_pair \<Rightarrow> string" where
  "to_canonical p = tp_base p @ CHR ''/'' # tp_quote p"

definition to_exchange_symbol :: "trading_pair \<Rightarrow> exchange \<Rightarrow> string" where
  "to_exchange_symbol p ex =
     (let b = tp_base p; q = tp_quote p in
      case ex of
          Bybit \<Rightarrow> b @ q
        | Binance \<Rightarrow> to_lowercase (b @ q)
        | Coinbase \<Rightarrow> b @ CHR ''-'' # q
        | Kraken \<Rightarrow> b @ CHR ''/'' # q
        | Okx \<Rightarrow> b @ CHR ''-'' # q
        | Gateio \<Rightarrow> b @ CHR ''_'' # q
        | Kucoin \<Rightarrow> b @ CHR ''-'' # q
        | Poloniex \<Rightarrow> b @ CHR ''_'' # q
        | Bitso \<Rightarrow> to_lowercase (b @ CHR ''_'' # q)
        | Htx \<Rightarrow> to_lowercase (b @ q)
        | Bitget \<Rightarrow> b @ q
        | Upbit \<Rightarrow> q @ CHR ''-'' # b
        | Hyperliquid \<Rightarrow> b)"

definition to_normalized :: "trading_pair \<Rightarrow> string" where
  "to_normalized p = to_lowercase (tp_base p @ tp_quote p)"

text \<open>\<open>FromStr\<close>: canonical, then hyphenated, then concatenated.\<close>

definition pair_from_str :: "string \<Rightarrow> (trading_pair, string) result" where
  "pair_from_str s =
     ok_or (or_else (or_else (from_canonical s) (from_hyphenated s)) (from_concatenated s))
       (''cannot parse trading pair: '' @ s)"

section \<open>The wire symbol codec\<close>

datatype symbol_codec =
    Concat bool
  | Hyphen
  | Slash
  | Underscore bool
  | QuoteFirst char
  | BareCoin string

definition codec_case :: "string \<Rightarrow> bool \<Rightarrow> string" where
  "codec_case s upper = (if upper then to_uppercase s else to_lowercase s)"

fun codec_encode :: "symbol_codec \<Rightarrow> trading_pair \<Rightarrow> string" where
  "codec_encode (Concat upper) p = codec_case (tp_base p @ tp_quote p) upper"
| "codec_encode Hyphen p = tp_base p @ CHR ''-'' # tp_quote p"
| "codec_encode Slash p = tp_base p @ CHR ''/'' # tp_quote p"
| "codec_encode (Underscore upper) p = codec_case (tp_base p @ CHR ''_'' # tp_quote p) upper"
| "codec_encode (QuoteFirst sep) p = tp_quote p @ sep # tp_base p"
| "codec_encode (BareCoin _) p = tp_base p"

fun codec_decode :: "symbol_codec \<Rightarrow> string \<Rightarrow> trading_pair option" where
  "codec_decode Hyphen raw =
     map_option (\<lambda>(b, q). tp_new b q) (split_once CHR ''-'' (to_uppercase raw))"
| "codec_decode Slash raw =
     map_option (\<lambda>(b, q). tp_new b q) (split_once CHR ''/'' (to_uppercase raw))"
| "codec_decode (Underscore _) raw =
     map_option (\<lambda>(b, q). tp_new b q) (split_once CHR ''_'' (to_uppercase raw))"
| "codec_decode (QuoteFirst sep) raw =
     map_option (\<lambda>(q, b). tp_new b q) (split_once sep (to_uppercase raw))"
| "codec_decode (Concat _) raw = from_concatenated (to_uppercase raw)"
| "codec_decode (BareCoin quot) raw =
     (let up = to_uppercase raw; bare = trim raw in
      case split_once CHR '':'' bare of
        Some (dex, ticker) \<Rightarrow>
          if dex = [] \<or> ticker = [] \<or> \<not> list_all is_ascii_alphanumeric dex
            \<or> \<not> list_all is_ascii_alphanumeric ticker
          then None
          else Some (tp_new bare quot)
      | None \<Rightarrow>
          if up = [] \<or> (\<exists>c \<in> set up. c \<in> set ''@/-_'') then None
          else Some (tp_new up quot))"

section \<open>Well-formed assets\<close>

text \<open>
  An asset name as the constructors store it: non-empty, free of white space and separators, and
  a fixed point of \<open>normalize_asset\<close> (upper case, or a lower-case dex prefix and an upper-case
  ticker).
\<close>

definition asset_wf :: "string \<Rightarrow> bool" where
  "asset_wf s \<longleftrightarrow> s \<noteq> [] \<and> (\<forall>c \<in> set s. \<not> is_space c \<and> c \<notin> set ''/-_'') \<and> normalize_asset s = s"

definition plain_asset :: "string \<Rightarrow> bool" where
  "plain_asset s \<longleftrightarrow> s \<noteq> [] \<and> (\<forall>c \<in> set s. \<not> is_space c \<and> c \<notin> set ''/-_:'') \<and> to_uppercase s = s"

definition pair_wf :: "trading_pair \<Rightarrow> bool" where
  "pair_wf p \<longleftrightarrow> asset_wf (tp_base p) \<and> asset_wf (tp_quote p)"

definition pair_plain :: "trading_pair \<Rightarrow> bool" where
  "pair_plain p \<longleftrightarrow> plain_asset (tp_base p) \<and> plain_asset (tp_quote p)"

lemma normalize_no_colon [str_simps]: "CHR '':'' \<notin> set s \<Longrightarrow> normalize_asset s = to_uppercase s"
  by (simp add: normalize_asset_def split_once_None [THEN iffD2])

lemma plain_asset_no_colon: "plain_asset s \<Longrightarrow> CHR '':'' \<notin> set s"
  by (auto simp: plain_asset_def)

lemma plain_asset_wf: "plain_asset s \<Longrightarrow> asset_wf s"
proof -
  assume s: "plain_asset s"
  then have "normalize_asset s = s"
    by (simp add: normalize_no_colon plain_asset_no_colon) (simp add: plain_asset_def)
  with s show ?thesis
    by (simp add: plain_asset_def asset_wf_def)
qed

lemma pair_plain_wf: "pair_plain p \<Longrightarrow> pair_wf p"
  by (simp add: pair_plain_def pair_wf_def plain_asset_wf)

lemma asset_wf_trim [str_simps]: "asset_wf s \<Longrightarrow> trim s = s"
  by (simp add: asset_wf_def trim_no_space)

lemma asset_wf_not_sep: "asset_wf s \<Longrightarrow> c \<in> set ''/-_'' \<Longrightarrow> c \<notin> set s"
  by (auto simp: asset_wf_def)

lemma from_canonical_to_canonical: "pair_wf p \<Longrightarrow> from_canonical (to_canonical p) = Some p"
proof -
  assume p: "pair_wf p"
  then have b: "asset_wf (tp_base p)" and q: "asset_wf (tp_quote p)"
    by (simp_all add: pair_wf_def)
  from b have "split_once CHR ''/'' (to_canonical p) = Some (tp_base p, tp_quote p)"
    by (simp add: to_canonical_def split_once_append asset_wf_not_sep)
  with b q show ?thesis
    by (simp add: from_canonical_def asset_wf_trim) (simp add: asset_wf_def)
qed

section \<open>Case folding\<close>

lemma char_upper_lower [simp]: "char_upper (char_lower c) = char_upper c"
  by (auto simp: char_upper_def char_lower_def Let_def)

lemma to_uppercase_lowercase [simp]: "to_uppercase (to_lowercase s) = to_uppercase s"
  by (simp add: to_uppercase_def to_lowercase_def)

lemma codec_case_upper [simp]: "to_uppercase (codec_case s upper) = to_uppercase s"
  by (simp add: codec_case_def)

lemma plain_asset_upper [str_simps]: "plain_asset s \<Longrightarrow> to_uppercase s = s"
  by (simp add: plain_asset_def)

lemma plain_asset_not_sep: "plain_asset s \<Longrightarrow> c \<in> set ''/-_'' \<Longrightarrow> c \<notin> set s"
  by (simp add: plain_asset_wf asset_wf_not_sep)

lemma tp_new_wf: "asset_wf b \<Longrightarrow> asset_wf q \<Longrightarrow> tp_new b q = \<lparr>tp_base = b, tp_quote = q\<rparr>"
  by (simp add: tp_new_def asset_wf_trim) (simp add: asset_wf_def)

lemma to_uppercase_Cons: "to_uppercase (c # s) = char_upper c # to_uppercase s"
  by (simp add: to_uppercase_def)

lemma char_upper_sep [simp]:
  "char_upper CHR ''-'' = CHR ''-''" "char_upper CHR ''/'' = CHR ''/''" "char_upper CHR ''_'' = CHR ''_''"
  by (simp_all add: char_upper_def)

text \<open>Splitting an upper-cased symbol at its separator recovers the two assets.\<close>

lemma split_upper_symbol:
  assumes "plain_asset a" and "plain_asset b" and "c \<in> set ''/-_''"
  shows "split_once c (to_uppercase (a @ c # b)) = Some (a, b)"
proof -
  from assms(3) have "char_upper c = c" by auto
  with assms show ?thesis
    by (simp add: to_uppercase_Cons plain_asset_upper split_once_append plain_asset_not_sep)
qed

section \<open>Suffix matching against the quote table\<close>

text \<open>No quote of the table is hidden behind an earlier, shorter one that is its suffix.\<close>

fun no_shadow :: "string list \<Rightarrow> bool" where
  "no_shadow [] = True"
| "no_shadow (q # qs) = (list_all (\<lambda>r. \<not> (length q < length r \<and> suffix q r)) qs \<and> no_shadow qs)"

lemma KNOWN_QUOTES_no_shadow: "no_shadow KNOWN_QUOTES"
  by (simp add: KNOWN_QUOTES_def suffix_def)

lemma strip_suffix_suffix: "strip_suffix s q = Some b \<Longrightarrow> suffix q s"
  unfolding strip_suffix_Some suffix_def by blast

lemma match_quote_Some:
  "match_quote qs s = Some p \<Longrightarrow> tp_quote p \<in> set qs \<and> s = tp_base p @ tp_quote p \<and> tp_base p \<noteq> []"
  by (induction qs) (auto simp: strip_suffix_Some split: option.splits if_splits)

lemma match_quote_None:
  "match_quote qs s = None \<longleftrightarrow> (\<forall>q \<in> set qs. \<forall>b. b \<noteq> [] \<longrightarrow> s \<noteq> b @ q)"
  by (induction qs) (auto simp: strip_suffix_Some strip_suffix_append split: option.splits if_splits)

lemma match_quote_longest:
  "no_shadow qs \<Longrightarrow> match_quote qs s = Some p \<Longrightarrow> q \<in> set qs \<Longrightarrow> b \<noteq> [] \<Longrightarrow> s = b @ q \<Longrightarrow> length q \<le> length (tp_quote p)"
proof (induction qs)
  case (Cons r qs)
  have rec: "length q \<le> length (tp_quote p)" if "match_quote qs s = Some p" "q \<noteq> r"
    using Cons.IH Cons.prems that by simp
  have strip_q: "strip_suffix s q = Some b"
    using Cons.prems(5) by (simp add: strip_suffix_Some)
  show ?case
  proof (cases "strip_suffix s r")
    case None
    with Cons.prems(2) strip_q show ?thesis by (intro rec) auto
  next
    case (Some c)
    show ?thesis
    proof (cases "c = []")
      case True
      with Some Cons.prems(2,4) strip_q show ?thesis by (intro rec) auto
    next
      case False
      with Some Cons.prems(2) have r: "tp_quote p = r" by auto
      show ?thesis
      proof (rule ccontr)
        assume "\<not> ?thesis"
        then have len: "length r < length q" using r by simp
        have "suffix r s" "suffix q s"
          using Some strip_q by (blast intro: strip_suffix_suffix)+
        with len have "suffix r q" by (meson less_imp_le suffix_length_suffix)
        moreover have "q \<in> set qs" using len Cons.prems(3) by auto
        ultimately show False
          using len Cons.prems(1) by (simp add: list_all_iff)
      qed
    qed
  qed
qed simp

lemma match_quote_unique:
  assumes "no_shadow qs" and "q \<in> set qs" and "b \<noteq> []"
    and "\<forall>r \<in> set qs. \<forall>c. c \<noteq> [] \<and> b @ q = c @ r \<longrightarrow> length r \<le> length q"
  shows "match_quote qs (b @ q) = Some \<lparr>tp_base = b, tp_quote = q\<rparr>"
proof -
  obtain p where p: "match_quote qs (b @ q) = Some p"
    using assms(2,3) match_quote_None [of qs "b @ q"] by (cases "match_quote qs (b @ q)") auto
  note m = match_quote_Some [OF p]
  from match_quote_longest [OF assms(1) p assms(2,3) refl] m assms(4)
  have "length (tp_quote p) = length q" by (meson le_antisym)
  with m have "tp_quote p = q" "tp_base p = b" by (metis append_eq_append_conv)+
  with p show ?thesis by (cases p) simp
qed

section \<open>Properties\<close>

text \<open>A stored pair survives the trip through its canonical string, by the strict parser and by \<open>FromStr\<close>.\<close>

lemma canonical_roundtrip:
  assumes "pair_wf p"
  shows "from_canonical (to_canonical p) = Some p \<and> pair_from_str (to_canonical p) = Ok p"
  using from_canonical_to_canonical [OF assms] by (simp add: pair_from_str_def)

text \<open>
  An unseparated symbol is split at the longest known quote that leaves a non-empty base, and
  is rejected exactly when no known quote does, although the table lists the five-letter
  \<open>FDUSD\<close> after shorter quotes.
\<close>

lemma from_concatenated_longest_suffix:
  "(case from_concatenated raw of
      None \<Rightarrow> \<forall>q \<in> set KNOWN_QUOTES. \<forall>b. b \<noteq> [] \<longrightarrow> to_uppercase raw \<noteq> b @ q
    | Some p \<Rightarrow> tp_quote p \<in> set KNOWN_QUOTES \<and> tp_base p \<noteq> []
        \<and> to_uppercase raw = tp_base p @ tp_quote p
        \<and> (\<forall>q \<in> set KNOWN_QUOTES. \<forall>b. b \<noteq> [] \<and> to_uppercase raw = b @ q \<longrightarrow> length q \<le> length (tp_quote p)))"
proof (cases "from_concatenated raw")
  case None
  then have "match_quote KNOWN_QUOTES (to_uppercase raw) = None"
    by (simp add: from_concatenated_def)
  with None show ?thesis by (simp add: match_quote_None)
next
  case (Some p)
  then have m: "match_quote KNOWN_QUOTES (to_uppercase raw) = Some p"
    by (simp add: from_concatenated_def)
  with match_quote_Some [OF m] match_quote_longest [OF KNOWN_QUOTES_no_shadow m] Some
  show ?thesis by auto
qed

text \<open>
  The pairs a venue's spelling can carry: an unseparated spelling needs a quote from the table
  that no longer known quote shadows, a bare coin needs the codec's fixed quote.
\<close>

definition concat_unambiguous :: "trading_pair \<Rightarrow> bool" where
  "concat_unambiguous p \<longleftrightarrow> tp_quote p \<in> set KNOWN_QUOTES \<and>
     (\<forall>r \<in> set KNOWN_QUOTES. length r \<le> length (tp_quote p) \<or>
        (case strip_suffix (tp_base p @ tp_quote p) r of None \<Rightarrow> True | Some c \<Rightarrow> c = []))"

fun codec_supports :: "symbol_codec \<Rightarrow> trading_pair \<Rightarrow> bool" where
  "codec_supports (Concat _) p = concat_unambiguous p"
| "codec_supports (QuoteFirst sep) p = (sep \<in> set ''/-_'')"
| "codec_supports (BareCoin quot) p = (tp_quote p = quot \<and> CHR ''@'' \<notin> set (tp_base p))"
| "codec_supports _ p = True"

lemma concat_decode:
  assumes "pair_plain p" and "concat_unambiguous p"
  shows "from_concatenated (codec_case (tp_base p @ tp_quote p) u) = Some p"
proof -
  from assms(1) have up: "to_uppercase (tp_base p @ tp_quote p) = tp_base p @ tp_quote p"
    by (simp add: pair_plain_def plain_asset_upper)
  have mem: "tp_quote p \<in> set KNOWN_QUOTES" and nz: "tp_base p \<noteq> []"
    using assms by (simp_all add: concat_unambiguous_def pair_plain_def plain_asset_def)
  have "length r \<le> length (tp_quote p)"
    if "r \<in> set KNOWN_QUOTES" "c \<noteq> []" "tp_base p @ tp_quote p = c @ r" for r c
  proof -
    from that(3) have "strip_suffix (tp_base p @ tp_quote p) r = Some c"
      by (simp only: strip_suffix_Some)
    with that(1,2) assms(2) show ?thesis
      by (fastforce simp: concat_unambiguous_def)
  qed
  with mem nz have "match_quote KNOWN_QUOTES (tp_base p @ tp_quote p) = Some \<lparr>tp_base = tp_base p, tp_quote = tp_quote p\<rparr>"
    by (intro match_quote_unique KNOWN_QUOTES_no_shadow) blast+
  then show ?thesis
    by (simp add: from_concatenated_def up del: to_uppercase_append)
qed

lemma concat_decode_upper:
  assumes "pair_plain p" and "concat_unambiguous p"
  shows "from_concatenated (to_uppercase (tp_base p) @ to_uppercase (tp_quote p)) = Some p"
  using concat_decode [OF assms, of True] by (simp add: codec_case_def)

lemma bare_decode:
  assumes "pair_plain p" and "CHR ''@'' \<notin> set (tp_base p)"
  shows "codec_decode (BareCoin (tp_quote p)) (tp_base p) = Some p"
proof -
  from assms have b: "plain_asset (tp_base p)" and q: "plain_asset (tp_quote p)"
    by (simp_all add: pair_plain_def)
  from b have nz: "tp_base p \<noteq> []" by (simp add: plain_asset_def)
  from b have "split_once CHR '':'' (trim (tp_base p)) = None"
    by (simp add: split_once_None asset_wf_trim plain_asset_wf plain_asset_no_colon)
  moreover from b assms(2) have "\<not> (\<exists>c \<in> set (tp_base p). c \<in> set ''@/-_'')"
    using plain_asset_not_sep [OF b] by auto
  ultimately show ?thesis
    using nz b q by (simp add: plain_asset_upper tp_new_wf plain_asset_wf)
qed



end
