(* ===== verification/Orders.thy ===== *)
theory Orders
  imports Prelude
begin

text \<open>
  Orders and price levels: sides, types, the two bit-packed order identifiers, the order builder
  (\<open>aetelier-types/src/orders.rs\<close>), the price level (\<open>levels.rs\<close>) and the error types of
  order-book and builder operations (\<open>errors.rs\<close>).  Wall-clock readings of the builder are an
  argument.  Random generation (\<open>OrderSide::random\<close>, \<open>Order::random\<close>) is not modelled.
\<close>

unbundle bit_operations_syntax

section \<open>Errors\<close>

datatype orderbook_error =
    NotInitialized
  | SequenceGap u64 u64
  | SymbolMismatch string string
  | ParseError string
  | ContentsError string
  | LevelNotFound string
  | OrderNotFound u64
  | InvalidInput string
  | BuilderError string
  | TimestampError string

datatype build_error =
    MissingField string
  | InvalidField string string

section \<open>Sides, types and identifiers\<close>

datatype order_side = Bids | Asks

datatype order_type = Market | Limit

fun order_side_as_str :: "order_side \<Rightarrow> string" where
  "order_side_as_str Bids = ''bid''"
| "order_side_as_str Asks = ''ask''"

definition order_side_from_str_loose :: "string \<Rightarrow> order_side option" where
  "order_side_from_str_loose s = (let l = to_lowercase s in
     if l = ''bid'' \<or> l = ''bids'' \<or> l = ''buy'' then Some Bids
     else if l = ''ask'' \<or> l = ''asks'' \<or> l = ''sell'' \<or> l = ''offer'' then Some Asks
     else None)"

fun side_code :: "order_side \<Rightarrow> u64" where
  "side_code Bids = 0"
| "side_code Asks = 1"

fun type_code :: "order_type \<Rightarrow> u64" where
  "type_code Market = 0"
| "type_code Limit = 1"

text \<open>\<open>OrderId\<close>: side, type and timestamp packed into a word, with its accessors.\<close>

definition TIME_MASK :: u64 where
  "TIME_MASK = 0x0FFFFFFFFFFFFFFF"

definition order_id_new :: "u64 \<Rightarrow> order_side \<Rightarrow> order_type \<Rightarrow> u64" where
  "order_id_new ts order_side order_type =
     ((ts AND TIME_MASK) OR push_bit 63 (side_code order_side)) OR push_bit 62 (type_code order_type)"

definition order_id_timestamp :: "u64 \<Rightarrow> u64" where
  "order_id_timestamp v = v AND TIME_MASK"

definition order_id_side :: "u64 \<Rightarrow> order_side" where
  "order_id_side v = (if drop_bit 62 v AND 1 = 0 then Bids else Asks)"

definition order_id_order :: "u64 \<Rightarrow> order_type" where
  "order_id_order v = (if drop_bit 63 v AND 1 = 0 then Market else Limit)"

text \<open>\<open>Order::encode_order_id\<close> and \<open>Order::decode_order_id\<close>.\<close>

definition encode_order_id :: "order_side \<Rightarrow> order_type \<Rightarrow> u64 \<Rightarrow> u64" where
  "encode_order_id order_side order_type order_ts_us =
     (let side_bit = push_bit 63 (case order_side of Bids \<Rightarrow> 0 | Asks \<Rightarrow> 1);
          type_bit = push_bit 62 (case order_type of Market \<Rightarrow> 0 | Limit \<Rightarrow> 1);
          timestamp_bits = push_bit 2 (order_ts_us AND (push_bit 60 1 - 1))
      in (side_bit OR type_bit) OR timestamp_bits)"

definition decode_order_id :: "u64 \<Rightarrow> order_side \<times> order_type \<times> u64" where
  "decode_order_id order_id =
     (let order_side = (if drop_bit 63 order_id AND 1 = 0 then Bids else Asks);
          order_type = (if drop_bit 62 order_id AND 1 = 0 then Market else Limit);
          order_ts_us = drop_bit 2 order_id AND (push_bit 60 1 - 1)
      in (order_side, order_type, order_ts_us))"

section \<open>Orders, their builder, and levels\<close>

record order =
  order_id :: u64
  order_ts_us :: u64
  order_type :: order_type
  order_side :: order_side
  order_price :: "f64 option"
  order_amount :: "f64 option"

record order_builder =
  obld_ts_us :: "u64 option"
  obld_type :: "order_type option"
  obld_side :: "order_side option"
  obld_price :: "f64 option"
  obld_amount :: "f64 option"

definition order_builder_new :: order_builder where
  "order_builder_new =
     \<lparr>obld_ts_us = None, obld_type = None, obld_side = None, obld_price = None, obld_amount = None\<rparr>"

definition order_build :: "u64 \<Rightarrow> order_builder \<Rightarrow> (order, build_error) result" where
  "order_build now b =
     result_bind (ok_or (obld_side b) (MissingField ''side'')) (\<lambda>side.
     result_bind (ok_or (obld_type b) (MissingField ''order_type'')) (\<lambda>ty.
       let ts = unwrap_or (obld_ts_us b) now in
       Ok \<lparr>order_id = encode_order_id side ty ts, order_ts_us = ts, order_type = ty,
           order_side = side, order_price = obld_price b, order_amount = obld_amount b\<rparr>))"

record 'd level =
  level_id :: u32
  level_side :: order_side
  level_price :: 'd
  level_volume :: 'd
  level_orders :: "order list"

definition level_new :: "u32 \<Rightarrow> order_side \<Rightarrow> 'd \<Rightarrow> 'd \<Rightarrow> order list \<Rightarrow> 'd level" where
  "level_new lid side price volume orders =
     \<lparr>level_id = lid, level_side = side, level_price = price, level_volume = volume, level_orders = orders\<rparr>"

section \<open>Bit facts\<close>

lemma test_bit_and_one: "drop_bit n x AND 1 = (0::u64) \<longleftrightarrow> \<not> bit x n"
  by (simp add: and_one_eq bit_iff_odd_drop_bit odd_iff_mod_2_eq_one)

lemma time_mask_60: "TIME_MASK = mask 60"
  by (simp add: TIME_MASK_def mask_eq_exp_minus_1)

lemma push_60_mask: "push_bit 60 1 - 1 = (mask 60 :: u64)"
  by (simp add: mask_eq_exp_minus_1)

lemma bit_flag: "bit (push_bit m (if P then 1 else 0) :: u64) n \<longleftrightarrow> P \<and> n = m \<and> m < 64"
  by (auto simp: bit_push_bit_iff bit_1_iff)

lemma encode_order_id_flags:
  "encode_order_id s t ts =
     push_bit 63 (if s = Asks then 1 else 0) OR push_bit 62 (if t = Limit then 1 else 0) OR push_bit 2 (ts AND mask 60)"
  unfolding encode_order_id_def Let_def push_60_mask
  by (cases s; cases t)
    (simp_all only: order_side.case order_type.case order_side.distinct order_type.distinct
      if_True if_False simp_thms or.assoc)

lemma bit_encode:
  "bit (encode_order_id s t ts) n \<longleftrightarrow>
     (s = Asks \<and> n = 63) \<or> (t = Limit \<and> n = 62) \<or> (2 \<le> n \<and> n < 62 \<and> bit ts (n - 2))"
  unfolding encode_order_id_flags bit_or_iff bit_flag
  unfolding bit_push_bit_iff bit_and_iff bit_mask_iff
  by auto

lemma drop_encode: "drop_bit 2 (encode_order_id s t ts) AND mask 60 = ts AND mask 60"
  by (rule bit_word_eqI) (auto simp: bit_and_iff bit_drop_bit_eq bit_encode bit_mask_iff)

text \<open>
  Decoding an encoded order identifier returns the side, the type and the low sixty bits of
  the timestamp, so the identifier loses nothing for timestamps below two to the sixty.
\<close>

lemma decode_encode_order_id:
  "decode_order_id (encode_order_id s t ts) = (s, t, ts AND mask 60)"
proof -
  have "drop_bit 63 (encode_order_id s t ts) AND 1 = 0 \<longleftrightarrow> s = Bids"
    by (cases s) (simp_all add: test_bit_and_one bit_encode)
  moreover have "drop_bit 62 (encode_order_id s t ts) AND 1 = 0 \<longleftrightarrow> t = Market"
    by (cases t) (simp_all add: test_bit_and_one bit_encode)
  ultimately show ?thesis
    unfolding decode_order_id_def Let_def push_60_mask drop_encode
    by (cases s; cases t) simp_all
qed

lemma bit_order_id_63: "bit (order_id_new ts s t) 63 \<longleftrightarrow> s = Asks"
  by (cases s; cases t) (simp_all add: order_id_new_def time_mask_60 bit_simps)

lemma bit_order_id_62: "bit (order_id_new ts s t) 62 \<longleftrightarrow> t = Limit"
  by (cases s; cases t) (simp_all add: order_id_new_def time_mask_60 bit_simps)

text \<open>
  The accessors of \<open>OrderId\<close> read the two flag bits the wrong way round.  The constructor puts
  the side at bit 63 and the type at bit 62, as the layout says, but \<open>side()\<close> answers from the
  type and \<open>order()\<close> from the side: a bid limit order reads back as an ask market order.
\<close>

lemma order_id_accessors_swapped:
  "order_id_side (order_id_new ts s t) = (if t = Limit then Asks else Bids) \<and>
   order_id_order (order_id_new ts s t) = (if s = Asks then Limit else Market)"
  by (cases s; cases t)
    (simp_all add: order_id_side_def order_id_order_def test_bit_and_one bit_order_id_62 bit_order_id_63)

end
