(* ===== verification/Exact_Decimal.thy ===== *)
theory Exact_Decimal
  imports Prelude
begin

text \<open>
  A concrete instance of the decimal interface: a mantissa and a scale, as \<open>Decimal\<close> itself
  represents a number, with an unbounded mantissa.  It shows that the named hypotheses on the
  parameter can hold together, and the concrete runs of the development use it.  Conversion to and
  from \<open>f64\<close> is given for zero only; division truncates at 28 places.
\<close>

type_synonym xdec = "int \<times> nat"

definition xval :: "xdec \<Rightarrow> rat" where
  "xval d = of_int (fst d) / 10 ^ snd d"

definition xadd :: "xdec \<Rightarrow> xdec \<Rightarrow> xdec" where
  "xadd a b = (fst a * 10 ^ snd b + fst b * 10 ^ snd a, snd a + snd b)"

definition xneg :: "xdec \<Rightarrow> xdec" where
  "xneg a = (- fst a, snd a)"

definition xmul :: "xdec \<Rightarrow> xdec \<Rightarrow> xdec" where
  "xmul a b = (fst a * fst b, snd a + snd b)"

definition xdiv :: "xdec \<Rightarrow> xdec \<Rightarrow> xdec" where
  "xdiv a b = ((fst a * 10 ^ (28 + snd b)) div (fst b * 10 ^ snd a), 28)"

definition xround :: "nat \<Rightarrow> xdec \<Rightarrow> xdec" where
  "xround n a = (if snd a \<le> n then a else (fst a div 10 ^ (snd a - n), n))"

fun xnorm :: "int \<Rightarrow> nat \<Rightarrow> xdec" where
  "xnorm m 0 = (m, 0)"
| "xnorm m (Suc s) = (if m mod 10 = 0 then xnorm (m div 10) s else (m, Suc s))"

section \<open>Digits\<close>

definition digit_char :: "nat \<Rightarrow> char" where
  "digit_char n = char_of (48 + n)"

definition is_digit :: "char \<Rightarrow> bool" where
  "is_digit c = (let n = of_char c :: nat in 48 \<le> n \<and> n \<le> 57)"

definition digit_val :: "char \<Rightarrow> nat" where
  "digit_val c = of_char c - 48"

text \<open>The lowest \<open>k\<close> decimal digits, and all digits of a number.\<close>

fun digits_fixed :: "nat \<Rightarrow> nat \<Rightarrow> string" where
  "digits_fixed 0 n = []"
| "digits_fixed (Suc k) n = digits_fixed k (n div 10) @ [digit_char (n mod 10)]"

fun nat_digits :: "nat \<Rightarrow> string" where
  "nat_digits n = (if n < 10 then [digit_char n] else nat_digits (n div 10) @ [digit_char (n mod 10)])"

declare nat_digits.simps [simp del]

definition digits_val :: "string \<Rightarrow> nat" where
  "digits_val s = foldl (\<lambda>a c. 10 * a + digit_val c) 0 s"

lemma of_char_digit [simp]: "n < 10 \<Longrightarrow> of_char (digit_char n) = 48 + n"
  by (simp add: digit_char_def)

lemma digit_char_props [simp]:
  "n < 10 \<Longrightarrow> is_digit (digit_char n)" "n < 10 \<Longrightarrow> digit_val (digit_char n) = n"
  by (simp_all add: is_digit_def digit_val_def)

lemma digits_val_snoc [simp]: "digits_val (s @ [c]) = 10 * digits_val s + digit_val c"
  by (simp add: digits_val_def)

lemma digits_val_Nil [simp]: "digits_val [] = 0"
  by (simp add: digits_val_def)

lemma nat_digits_props: "nat_digits n \<noteq> [] \<and> list_all is_digit (nat_digits n) \<and> digits_val (nat_digits n) = n"
proof (induction n rule: nat_digits.induct)
  case (1 n)
  show ?case
  proof (cases "n < 10")
    case True
    then show ?thesis
      using digits_val_snoc [of "[]" "digit_char n"] by (subst (1 2 3) nat_digits.simps) simp
  next
    case False
    with 1 have "list_all is_digit (nat_digits (n div 10))" "digits_val (nat_digits (n div 10)) = n div 10"
      by simp_all
    with False show ?thesis
      by (subst (1 2 3) nat_digits.simps) simp
  qed
qed

lemma digits_fixed_props:
  "length (digits_fixed k n) = k \<and> list_all is_digit (digits_fixed k n) \<and> digits_val (digits_fixed k n) = n mod 10 ^ k"
  by (induction k arbitrary: n) (simp_all add: mod_mult2_eq)

section \<open>Parsing and printing\<close>

definition parse_unsigned :: "string \<Rightarrow> (nat \<times> nat) option" where
  "parse_unsigned s =
     (let ip = takeWhile is_digit s; r = dropWhile is_digit s in
      if ip = [] then None
      else case r of
             [] \<Rightarrow> Some (digits_val ip, 0)
           | c # fp \<Rightarrow>
               if c = CHR ''.'' \<and> fp \<noteq> [] \<and> list_all is_digit fp
               then Some (digits_val ip * 10 ^ length fp + digits_val fp, length fp)
               else None)"

definition xparse :: "string \<Rightarrow> xdec option" where
  "xparse s =
     (case s of
        c # t \<Rightarrow>
          if c = CHR ''-'' then map_option (\<lambda>(m, k). (- int m, k)) (parse_unsigned t)
          else map_option (\<lambda>(m, k). (int m, k)) (parse_unsigned s)
      | [] \<Rightarrow> None)"

definition print_unsigned :: "nat \<Rightarrow> nat \<Rightarrow> string" where
  "print_unsigned m k =
     (if k = 0 then nat_digits m
      else nat_digits (m div 10 ^ k) @ CHR ''.'' # digits_fixed k m)"

definition xprint :: "xdec \<Rightarrow> string" where
  "xprint d = (if fst d < 0 then CHR ''-'' # print_unsigned (nat (- fst d)) (snd d)
               else print_unsigned (nat (fst d)) (snd d))"

lemma not_digit_sep [simp]: "\<not> is_digit CHR ''.''" "\<not> is_digit CHR ''-''"
  by (simp_all add: is_digit_def)

lemma takeWhile_all: "list_all P s \<Longrightarrow> takeWhile P s = s" "list_all P s \<Longrightarrow> dropWhile P s = []"
  by (auto simp: list_all_iff)

lemma span_digits:
  assumes "list_all is_digit a" "\<not> is_digit c"
  shows "takeWhile is_digit (a @ c # b) = a" "dropWhile is_digit (a @ c # b) = c # b"
  using assms by (simp_all add: list_all_iff takeWhile_append dropWhile_append3 dropWhile_append)

lemma parse_print_unsigned: "parse_unsigned (print_unsigned m k) = Some (m, k)"
proof (cases "k = 0")
  case True
  then show ?thesis
    using nat_digits_props [of m]
    by (simp add: parse_unsigned_def print_unsigned_def takeWhile_all)
next
  case False
  let ?i = "nat_digits (m div 10 ^ k)" and ?f = "digits_fixed k m"
  have i: "?i \<noteq> []" "list_all is_digit ?i" "digits_val ?i = m div 10 ^ k"
    using nat_digits_props by simp_all
  have f: "length ?f = k" "list_all is_digit ?f" "digits_val ?f = m mod 10 ^ k"
    using digits_fixed_props by simp_all
  from f False have "?f \<noteq> []" by auto
  moreover have "m div 10 ^ k * 10 ^ k + m mod 10 ^ k = m" by (rule div_mult_mod_eq)
  ultimately show ?thesis
    using False i f by (simp add: parse_unsigned_def print_unsigned_def span_digits Let_def)
qed

lemma print_unsigned_head: "\<exists>c t. print_unsigned m k = c # t \<and> is_digit c"
proof -
  have "nat_digits n = c # t \<Longrightarrow> is_digit c" for n c t
    using nat_digits_props [of n] by simp
  moreover have "\<exists>c t. nat_digits n = c # t" for n
    using nat_digits_props [of n] by (cases "nat_digits n") simp_all
  ultimately show ?thesis
    unfolding print_unsigned_def by (metis append_Cons)
qed

lemma xparse_xprint: "xparse (xprint d) = Some d"
proof (cases "fst d < 0")
  case True
  then show ?thesis by (cases d) (simp add: xparse_def xprint_def parse_print_unsigned)
next
  case False
  obtain c t where "print_unsigned (nat (fst d)) (snd d) = c # t" "is_digit c"
    using print_unsigned_head by blast
  moreover from this have "c \<noteq> CHR ''-''" by auto
  ultimately show ?thesis
    using False parse_print_unsigned [of "nat (fst d)" "snd d"]
    by (cases d) (auto simp: xparse_def xprint_def)
qed

section \<open>The instance\<close>

definition exact_decimal :: "xdec decimal_ops" where
  "exact_decimal =
     \<lparr>dec_val = xval, dec_zero = (0, 0), dec_two = (2, 0), dec_from_int = (\<lambda>i. (i, 0)),
      dec_from_str = (\<lambda>s. ok_or (xparse s) ''Invalid decimal''),
      dec_from_str_exact = xparse, dec_to_string = xprint,
      dec_normalize = (\<lambda>d. xnorm (fst d) (snd d)),
      dec_add = xadd, dec_sub = (\<lambda>a b. xadd a (xneg b)), dec_mul = xmul, dec_div = xdiv,
      dec_abs = (\<lambda>d. (\<bar>fst d\<bar>, snd d)), dec_round_dp = xround,
      dec_to_f64 = (\<lambda>d. if fst d = 0 then Some 0 else None),
      dec_from_f64 = (\<lambda>v. if v = 0 then Some (0, 0) else None)\<rparr>"

lemma exact_decimal_sel [simp]:
  "dec_val exact_decimal = xval" "dec_zero exact_decimal = (0, 0)" "dec_two exact_decimal = (2, 0)"
  "dec_from_int exact_decimal i = (i, 0)"
  "dec_from_str exact_decimal s = ok_or (xparse s) ''Invalid decimal''"
  "dec_from_str_exact exact_decimal = xparse" "dec_to_string exact_decimal = xprint"
  "dec_normalize exact_decimal d = xnorm (fst d) (snd d)"
  "dec_add exact_decimal = xadd" "dec_sub exact_decimal a b = xadd a (xneg b)"
  "dec_mul exact_decimal = xmul" "dec_div exact_decimal = xdiv"
  "dec_abs exact_decimal d = (\<bar>fst d\<bar>, snd d)" "dec_round_dp exact_decimal = xround"
  by (simp_all add: exact_decimal_def)

lemma xval_xadd: "xval (xadd a b) = xval a + xval b"
  by (simp add: xval_def xadd_def power_add field_simps)

lemma xval_xneg: "xval (xneg a) = - xval a"
  by (simp add: xval_def xneg_def)

lemma exact_decimal_zero_law: "dec_zero_law exact_decimal"
  by (simp add: dec_zero_law_def exact_decimal_def xval_def)

lemma exact_decimal_exact_add: "dec_exact_add exact_decimal"
  by (simp add: dec_exact_add_def exact_decimal_def xval_xadd)

lemma exact_decimal_exact_sub: "dec_exact_sub exact_decimal"
  by (simp add: dec_exact_sub_def exact_decimal_def xval_xadd xval_xneg)

lemma exact_decimal_print_parse: "dec_print_parse exact_decimal"
  by (simp add: dec_print_parse_def exact_decimal_def xparse_xprint)

lemmas exact_decimal_laws =
  exact_decimal_zero_law exact_decimal_exact_add exact_decimal_exact_sub exact_decimal_print_parse

end
