(* ===== verification/Events.thy ===== *)
theory Events
  imports Trading_Pair Orders Exact_Decimal
begin

text \<open>
  The normalised market events and what is computed from them alone: trades with their builder,
  identity, fingerprint, de-duplication and taker aggregation (\<open>aetelier-types/src/trades.rs\<close>),
  liquidations (\<open>liquidations.rs\<close>), funding rates and settlements (\<open>funding.rs\<close>), open interest
  (\<open>open_interest.rs\<close>), and the timestamp type (\<open>time.rs\<close>).  Random generation and serde
  attributes are not modelled.
\<close>

section \<open>Timestamps\<close>

definition ts_from_millis :: "u64 \<Rightarrow> u64" where
  "ts_from_millis ms = saturating_mul ms 1000"

definition ts_from_nanos :: "u64 \<Rightarrow> u64" where
  "ts_from_nanos ns = ns div 1000"

definition ts_from_secs :: "u64 \<Rightarrow> u64" where
  "ts_from_secs s = saturating_mul s 1000000"

definition ts_as_millis :: "u64 \<Rightarrow> u64" where
  "ts_as_millis us = us div 1000"

definition ts_saturating_since :: "u64 \<Rightarrow> u64 \<Rightarrow> u64" where
  "ts_saturating_since t earlier = saturating_sub t earlier"

section \<open>Trades\<close>

datatype trade_side = Buy | Sell

fun trade_side_as_str :: "trade_side \<Rightarrow> string" where
  "trade_side_as_str Buy = ''buy''"
| "trade_side_as_str Sell = ''sell''"

definition trade_side_from_str_loose :: "string \<Rightarrow> trade_side option" where
  "trade_side_from_str_loose s = (let l = to_lowercase s in
     if l = ''buy'' then Some Buy else if l = ''sell'' then Some Sell else None)"

datatype trade_origin = Ws | Rest

fun trade_origin_as_str :: "trade_origin \<Rightarrow> string" where
  "trade_origin_as_str Ws = ''ws''"
| "trade_origin_as_str Rest = ''rest''"

definition trade_origin_from_str :: "string \<Rightarrow> (trade_origin, string) result" where
  "trade_origin_from_str s =
     (if s = ''ws'' then Ok Ws else if s = ''rest'' then Ok Rest
      else Err (''unknown trade origin '' @ s))"

record 'd trade =
  source_trade_ts_us :: u64
  local_trade_ts_us :: u64
  source_trade_rtt_us :: u64
  tr_pair :: trading_pair
  tr_side :: trade_side
  tr_amount :: 'd
  tr_price :: 'd
  tr_exchange :: string
  tr_id :: string
  tr_origin :: trade_origin

record trade_builder =
  tbld_ts_us :: "u64 option"
  tbld_pair :: "trading_pair option"
  tbld_side :: "trade_side option"
  tbld_amount :: "f64 option"
  tbld_price :: "f64 option"
  tbld_exchange :: "string option"
  tbld_id :: "string option"

text \<open>The conversions at the \<open>f64\<close> boundary (\<open>orderbooks/core.rs\<close>).\<close>

definition decimal_to_f64 :: "'d decimal_ops \<Rightarrow> 'd \<Rightarrow> f64" where
  "decimal_to_f64 D d = unwrap_or (dec_to_f64 D d) 0"

definition f64_to_decimal :: "'d decimal_ops \<Rightarrow> f64 \<Rightarrow> 'd" where
  "f64_to_decimal D v = unwrap_or (dec_from_f64 D v) (dec_zero D)"

definition trade_build :: "'d decimal_ops \<Rightarrow> trade_builder \<Rightarrow> ('d trade, build_error) result" where
  "trade_build D b =
     result_bind (ok_or (tbld_ts_us b) (MissingField ''source_trade_ts_us'')) (\<lambda>ts.
     result_bind (ok_or (tbld_pair b) (MissingField ''pair'')) (\<lambda>pair.
     result_bind (ok_or (tbld_side b) (MissingField ''side'')) (\<lambda>side.
     result_bind (ok_or (tbld_amount b) (MissingField ''amount'')) (\<lambda>amount.
     result_bind (ok_or (tbld_price b) (MissingField ''price'')) (\<lambda>price.
     result_bind (ok_or (tbld_exchange b) (MissingField ''exchange'')) (\<lambda>exchange.
     result_bind (ok_or (tbld_id b) (MissingField ''id'')) (\<lambda>tid.
       Ok \<lparr>source_trade_ts_us = ts, local_trade_ts_us = 0, source_trade_rtt_us = 0,
           tr_pair = pair, tr_side = side,
           tr_amount = f64_to_decimal D amount, tr_price = f64_to_decimal D price,
           tr_exchange = exchange, tr_id = tid, tr_origin = Ws\<rparr>)))))))"

subsection \<open>Identity, fingerprint, de-duplication\<close>

record trade_identity =
  ident_exchange :: string
  ident_pair :: trading_pair
  ident_id :: string

definition trade_identity_of :: "'d trade \<Rightarrow> trade_identity" where
  "trade_identity_of t = \<lparr>ident_exchange = tr_exchange t, ident_pair = tr_pair t, ident_id = tr_id t\<rparr>"

definition to_le_bytes :: "u64 \<Rightarrow> u64 list" where
  "to_le_bytes w = map (\<lambda>i. drop_bit (8 * i) w AND 255) [0..<8]"

definition str_bytes :: "string \<Rightarrow> u64 list" where
  "str_bytes s = map (\<lambda>c. of_nat (of_char c)) s"

definition fnv_eat :: "u64 list \<Rightarrow> u64 \<Rightarrow> u64" where
  "fnv_eat bytes h = fold (\<lambda>b h. (h XOR b) * 0x00000100000001b3) bytes h"

definition trade_fingerprint :: "'d decimal_ops \<Rightarrow> 'd trade \<Rightarrow> u64" where
  "trade_fingerprint D t =
     (let h0 = 0xcbf29ce484222325;
          h1 = fnv_eat (to_le_bytes (source_trade_ts_us t)) h0;
          h2 = fnv_eat (str_bytes (trade_side_as_str (tr_side t))) h1;
          h3 = fnv_eat (str_bytes (dec_to_string D (dec_normalize D (tr_price t)))) h2
      in fnv_eat (str_bytes (dec_to_string D (dec_normalize D (tr_amount t)))) h3)"

record dedup_report =
  dedup_removed :: usize
  dedup_conflicts :: usize

text \<open>The \<open>retain\<close> pass: the map of identities seen so far and the report are threaded through.\<close>

fun dedup_retain ::
  "'d decimal_ops \<Rightarrow> (trade_identity, u64) hash_map \<Rightarrow> dedup_report \<Rightarrow> 'd trade list \<Rightarrow> 'd trade list \<times> dedup_report"
where
  "dedup_retain D seen report [] = ([], report)"
| "dedup_retain D seen report (t # ts) =
     (let ident = trade_identity_of t; fp = trade_fingerprint D t in
      case hm_get seen ident of
        Some kept \<Rightarrow>
          dedup_retain D seen
            \<lparr>dedup_removed = dedup_removed report + 1,
             dedup_conflicts = (if kept \<noteq> fp then dedup_conflicts report + 1 else dedup_conflicts report)\<rparr> ts
      | None \<Rightarrow>
          (let (kept, r) = dedup_retain D (hm_insert ident fp seen) report ts in (t # kept, r)))"

definition dedup_by_identity :: "'d decimal_ops \<Rightarrow> 'd trade list \<Rightarrow> 'd trade list \<times> dedup_report" where
  "dedup_by_identity D ts = dedup_retain D [] \<lparr>dedup_removed = 0, dedup_conflicts = 0\<rparr> ts"

subsection \<open>Taker aggregation\<close>

datatype trade_order_evidence = VenueSequence | NumericId | LexicographicId | ArrivalIndex

fun is_venue_reported :: "trade_order_evidence \<Rightarrow> bool" where
  "is_venue_reported VenueSequence = True"
| "is_venue_reported NumericId = True"
| "is_venue_reported LexicographicId = False"
| "is_venue_reported ArrivalIndex = False"

datatype trade_split_reason = Single | SamePrice | Swept | DirectionSplit

record 'd trade_aggregate =
  ag_ts_us :: u64
  ag_bucket_us :: u64
  ag_w_us :: u64
  ag_exchange :: string
  ag_pair :: trading_pair
  ag_side :: trade_side
  ag_n_fills :: usize
  ag_qty :: 'd
  ag_notional :: 'd
  ag_vwap :: 'd
  ag_px_first :: 'd
  ag_px_last :: 'd
  ag_px_min :: 'd
  ag_px_max :: 'd
  ag_sweep_depth :: 'd
  ag_id_first :: string
  ag_id_last :: string
  ag_order_evidence :: trade_order_evidence
  ag_split_reason :: trade_split_reason
  ag_rule_version :: string

text \<open>The accumulation loop over the fills: quantity, notional, lowest and highest price.\<close>

definition fill_step :: "'d decimal_ops \<Rightarrow> 'd trade \<Rightarrow> 'd \<times> 'd \<times> 'd \<times> 'd \<Rightarrow> 'd \<times> 'd \<times> 'd \<times> 'd" where
  "fill_step D f = (\<lambda>(qty, notional, px_min, px_max).
     (dec_add D qty (tr_amount f),
      dec_add D notional (dec_mul D (tr_price f) (tr_amount f)),
      (if dec_le D px_min (tr_price f) then px_min else tr_price f),
      (if dec_less D (tr_price f) px_max then px_max else tr_price f)))"

definition from_fills ::
  "'d decimal_ops \<Rightarrow> 'd trade list \<Rightarrow> u64 \<Rightarrow> u64 \<Rightarrow> trade_split_reason \<Rightarrow> trade_order_evidence
     \<Rightarrow> ('d trade_aggregate, build_error) result"
where
  "from_fills D fills bucket_us w_us split_reason evidence =
     (case fills of
        [] \<Rightarrow> Err (InvalidField ''fills'' ''an aggregate needs at least one fill'')
      | first # _ \<Rightarrow>
          if w_us = 0 then Err (InvalidField ''w_us'' ''bucket width must be positive'')
          else if list_ex (\<lambda>f. tr_side f \<noteq> tr_side first \<or> tr_exchange f \<noteq> tr_exchange first
                             \<or> tr_pair f \<noteq> tr_pair first) fills
          then Err (InvalidField ''fills'' ''fills of one taker share side, exchange and pair'')
          else
            let (qty, notional, px_min, px_max) =
                  fold (fill_step D) fills (dec_zero D, dec_zero D, tr_price first, tr_price first) in
            if dec_le D qty (dec_zero D)
            then Err (InvalidField ''qty'' (''aggregate quantity must be positive, got '' @ dec_to_string D qty))
            else
              let lst = last fills in
              Ok \<lparr>ag_ts_us = bucket_us, ag_bucket_us = bucket_us, ag_w_us = w_us,
                  ag_exchange = tr_exchange first, ag_pair = tr_pair first, ag_side = tr_side first,
                  ag_n_fills = length fills, ag_qty = qty, ag_notional = notional,
                  ag_vwap = dec_div D notional qty,
                  ag_px_first = tr_price first, ag_px_last = tr_price lst,
                  ag_px_min = px_min, ag_px_max = px_max,
                  ag_sweep_depth = dec_abs D (dec_sub D (tr_price lst) (tr_price first)),
                  ag_id_first = tr_id first, ag_id_last = tr_id lst,
                  ag_order_evidence = evidence, ag_split_reason = split_reason,
                  ag_rule_version = ''trade-aggregation-v0.11''\<rparr>)"

definition place_at :: "u64 \<Rightarrow> 'd trade_aggregate \<Rightarrow> 'd trade_aggregate" where
  "place_at ts a = a\<lparr>ag_ts_us := ts\<rparr>"

section \<open>Liquidations, funding, open interest\<close>

record 'd liquidation =
  liquidation_ts_us :: u64
  lq_pair :: trading_pair
  lq_side :: trade_side
  lq_amount :: 'd
  lq_price :: 'd
  lq_exchange :: string

record liquidation_builder =
  lbld_ts_us :: "u64 option"
  lbld_pair :: "trading_pair option"
  lbld_side :: "trade_side option"
  lbld_amount :: "f64 option"
  lbld_price :: "f64 option"
  lbld_exchange :: "string option"

definition liquidation_build :: "'d decimal_ops \<Rightarrow> liquidation_builder \<Rightarrow> ('d liquidation, build_error) result" where
  "liquidation_build D b =
     result_bind (ok_or (lbld_ts_us b) (MissingField ''ts'')) (\<lambda>ts.
     result_bind (ok_or (lbld_pair b) (MissingField ''pair'')) (\<lambda>pair.
     result_bind (ok_or (lbld_side b) (MissingField ''side'')) (\<lambda>side.
     result_bind (ok_or (lbld_amount b) (MissingField ''amount'')) (\<lambda>amount.
     result_bind (ok_or (lbld_price b) (MissingField ''price'')) (\<lambda>price.
     result_bind (ok_or (lbld_exchange b) (MissingField ''exchange'')) (\<lambda>exchange.
       Ok \<lparr>liquidation_ts_us = ts, lq_pair = pair, lq_side = side,
           lq_amount = f64_to_decimal D amount, lq_price = f64_to_decimal D price,
           lq_exchange = exchange\<rparr>))))))"

record 'd funding_rate =
  funding_rate_ts_us :: u64
  local_funding_ts_us :: u64
  fr_recv_seq :: u64
  fr_conn_epoch_us :: u64
  fr_pair :: trading_pair
  fr_rate :: 'd
  fr_premium :: "'d option"
  fr_interval_hours :: u32
  fr_next_funding_ts_us :: u64
  fr_exchange :: string

definition fr_effective_ts_us :: "'d funding_rate \<Rightarrow> u64" where
  "fr_effective_ts_us fr = (if funding_rate_ts_us fr > 0 then funding_rate_ts_us fr else local_funding_ts_us fr)"

record 'd funding_rate_builder =
  frb_ts_us :: "u64 option"
  frb_local_ts_us :: "u64 option"
  frb_recv_seq :: "u64 option"
  frb_conn_epoch_us :: "u64 option"
  frb_pair :: "trading_pair option"
  frb_rate :: "'d option"
  frb_premium :: "'d option"
  frb_interval_hours :: "u32 option"
  frb_next_funding_ts_us :: "u64 option"
  frb_exchange :: "string option"

definition funding_rate_build :: "'d funding_rate_builder \<Rightarrow> ('d funding_rate, build_error) result" where
  "funding_rate_build b =
     (let ts = unwrap_or (frb_ts_us b) 0; lts = unwrap_or (frb_local_ts_us b) 0 in
      if ts = 0 \<and> lts = 0 then Err (MissingField ''ts'')
      else
        result_bind (ok_or (frb_pair b) (MissingField ''pair'')) (\<lambda>pair.
        result_bind (ok_or (frb_rate b) (MissingField ''funding_rate'')) (\<lambda>rate.
        result_bind (ok_or (frb_interval_hours b) (MissingField ''interval_hours'')) (\<lambda>hours.
        if hours = 0 then Err (MissingField ''interval_hours'')
        else
          result_bind (ok_or (frb_exchange b) (MissingField ''exchange'')) (\<lambda>exchange.
            Ok \<lparr>funding_rate_ts_us = ts, local_funding_ts_us = lts,
                fr_recv_seq = unwrap_or (frb_recv_seq b) 0,
                fr_conn_epoch_us = unwrap_or (frb_conn_epoch_us b) 0,
                fr_pair = pair, fr_rate = rate, fr_premium = frb_premium b,
                fr_interval_hours = hours,
                fr_next_funding_ts_us = unwrap_or (frb_next_funding_ts_us b) 0,
                fr_exchange = exchange\<rparr>)))))"

record 'd funding_settlement =
  fs_funding_time_us :: u64
  fs_local_ts_us :: u64
  fs_rtt_us :: u64
  fs_pair :: trading_pair
  fs_rate :: 'd
  fs_premium :: "'d option"
  fs_exchange :: string

record 'd open_interest =
  open_interest_ts_us :: u64
  local_oi_ts_us :: u64
  oi_recv_seq :: u64
  oi_conn_epoch_us :: u64
  oi_pair :: trading_pair
  oi_open_interest :: 'd
  oi_open_interest_value :: "'d option"
  oi_mark_px :: "'d option"
  oi_exchange :: string

definition oi_effective_ts_us :: "'d open_interest \<Rightarrow> u64" where
  "oi_effective_ts_us oi = (if open_interest_ts_us oi > 0 then open_interest_ts_us oi else local_oi_ts_us oi)"


section \<open>De-duplication keeps first occurrences\<close>

abbreviation dedup_firsts :: "trade_identity set \<Rightarrow> 'd trade list \<Rightarrow> nat list" where
  "dedup_firsts K ts \<equiv>
     filter (\<lambda>i. trade_identity_of (ts ! i) \<notin> K \<union> trade_identity_of ` set (take i ts)) [0..<length ts]"

lemma upt_Suc_shift: "[0..<Suc n] = 0 # map Suc [0..<n]"
  by (metis map_Suc_upt upt_conv_Cons zero_less_Suc)

lemma dedup_firsts_Cons:
  "map ((!) (t # ts)) (dedup_firsts K (t # ts)) =
     (if trade_identity_of t \<in> K then [] else [t])
       @ map ((!) ts) (dedup_firsts (insert (trade_identity_of t) K) ts)"
  by (simp add: upt_Suc_shift filter_map comp_def conj_left_commute del: upt_Suc)

lemma dedup_retain_kept:
  "fst (dedup_retain D seen r ts) = map ((!) ts) (dedup_firsts (dom (hm_get seen)) ts)"
proof (induction ts arbitrary: seen r)
  case (Cons t ts)
  show ?case
  proof (cases "hm_get seen (trade_identity_of t)")
    case None
    then have "trade_identity_of t \<notin> dom (hm_get seen)" by auto
    with None show ?thesis
      by (simp only: dedup_firsts_Cons)
        (simp add: Let_def split_beta Cons.IH update_conv conj_assoc del: fun_upd_apply)
  next
    case (Some fp)
    then have "insert (trade_identity_of t) (dom (hm_get seen)) = dom (hm_get seen)" by auto
    with Some show ?thesis
      by (simp only: dedup_firsts_Cons) (auto simp: Let_def Cons.IH)
  qed
qed simp

lemma dedup_retain_removed:
  "dedup_removed (snd (dedup_retain D seen r ts)) + length (fst (dedup_retain D seen r ts))
     = dedup_removed r + length ts"
proof (induction ts arbitrary: seen r)
  case (Cons t ts)
  then show ?case
    by (cases "hm_get seen (trade_identity_of t)") (simp_all add: Let_def split_beta)
qed simp

text \<open>
  The report counts a conflict exactly when a repeated identity carries another fingerprint than
  the one remembered for it.
\<close>

lemma dedup_retain_conflicts_mono:
  "dedup_conflicts r \<le> dedup_conflicts (snd (dedup_retain D seen r ts))"
proof (induction ts arbitrary: seen r)
  case (Cons t ts)
  show ?case
  proof (cases "hm_get seen (trade_identity_of t)")
    case (Some fp)
    then show ?thesis
      using Cons.IH [of "\<lparr>dedup_removed = Suc (dedup_removed r), dedup_conflicts = Suc (dedup_conflicts r)\<rparr>" seen]
        Cons.IH [of "\<lparr>dedup_removed = Suc (dedup_removed r), dedup_conflicts = dedup_conflicts r\<rparr>" seen]
      by (simp add: Let_def)
  qed (simp add: Let_def split_beta Cons.IH)
qed simp

abbreviation dedup_agree :: "'d decimal_ops \<Rightarrow> (trade_identity \<rightharpoonup> u64) \<Rightarrow> 'd trade list \<Rightarrow> bool" where
  "dedup_agree D m ts \<equiv>
     (\<forall>t \<in> set ts. \<forall>v. m (trade_identity_of t) = Some v \<longrightarrow> v = trade_fingerprint D t)
   \<and> (\<forall>t \<in> set ts. \<forall>u \<in> set ts. trade_identity_of t = trade_identity_of u
        \<longrightarrow> trade_fingerprint D t = trade_fingerprint D u)"

lemma agree_insert:
  "(\<forall>u \<in> insert t S. \<forall>w \<in> insert t S. f u = f w \<longrightarrow> g u = g w)
     \<longleftrightarrow> (\<forall>u \<in> S. f u = f t \<longrightarrow> g t = g u) \<and> (\<forall>u \<in> S. \<forall>w \<in> S. f u = f w \<longrightarrow> g u = g w)"
  by (metis insert_iff)

lemma agree_fresh:
  assumes "m (f t) = None"
  shows "(\<forall>u \<in> insert t S. \<forall>v. m (f u) = Some v \<longrightarrow> v = g u) \<and> (\<forall>u \<in> insert t S. \<forall>w \<in> insert t S. f u = f w \<longrightarrow> g u = g w)
    \<longleftrightarrow> (\<forall>u \<in> S. \<forall>v. (m(f t \<mapsto> g t)) (f u) = Some v \<longrightarrow> v = g u) \<and> (\<forall>u \<in> S. \<forall>w \<in> S. f u = f w \<longrightarrow> g u = g w)"
proof -
  have "(\<forall>u \<in> insert t S. \<forall>v. m (f u) = Some v \<longrightarrow> v = g u) \<longleftrightarrow> (\<forall>u \<in> S. f u \<noteq> f t \<longrightarrow> (\<forall>v. m (f u) = Some v \<longrightarrow> v = g u))"
    using assms by auto
  moreover have "(\<forall>u \<in> S. \<forall>v. (m(f t \<mapsto> g t)) (f u) = Some v \<longrightarrow> v = g u)
      \<longleftrightarrow> (\<forall>u \<in> S. f u \<noteq> f t \<longrightarrow> (\<forall>v. m (f u) = Some v \<longrightarrow> v = g u)) \<and> (\<forall>u \<in> S. f u = f t \<longrightarrow> g t = g u)"
    by auto
  ultimately show ?thesis using agree_insert [of t S f g] by argo
qed

lemma agree_seen:
  assumes "m (f t) = Some fp"
  shows "(\<forall>u \<in> insert t S. \<forall>v. m (f u) = Some v \<longrightarrow> v = g u) \<and> (\<forall>u \<in> insert t S. \<forall>w \<in> insert t S. f u = f w \<longrightarrow> g u = g w)
    \<longleftrightarrow> fp = g t \<and> (\<forall>u \<in> S. \<forall>v. m (f u) = Some v \<longrightarrow> v = g u) \<and> (\<forall>u \<in> S. \<forall>w \<in> S. f u = f w \<longrightarrow> g u = g w)"
proof -
  have "(\<forall>u \<in> insert t S. \<forall>v. m (f u) = Some v \<longrightarrow> v = g u)
      \<longleftrightarrow> fp = g t \<and> (\<forall>u \<in> S. \<forall>v. m (f u) = Some v \<longrightarrow> v = g u)"
    using assms by auto
  moreover have "\<forall>u \<in> S. f u = f t \<longrightarrow> g t = g u"
    if "fp = g t" "\<forall>u \<in> S. \<forall>v. m (f u) = Some v \<longrightarrow> v = g u"
    using that assms by metis
  ultimately show ?thesis using agree_insert [of t S f g] by argo
qed

lemma dedup_agree_fresh:
  "m (trade_identity_of t) = None \<Longrightarrow>
     dedup_agree D m (t # ts) \<longleftrightarrow> dedup_agree D (m(trade_identity_of t \<mapsto> trade_fingerprint D t)) ts"
  unfolding list.set by (rule agree_fresh)

lemma dedup_agree_seen:
  "m (trade_identity_of t) = Some fp \<Longrightarrow>
     dedup_agree D m (t # ts) \<longleftrightarrow> fp = trade_fingerprint D t \<and> dedup_agree D m ts"
  unfolding list.set by (rule agree_seen)

lemma dedup_retain_no_conflict:
  "dedup_conflicts (snd (dedup_retain D seen r ts)) = dedup_conflicts r \<longleftrightarrow> dedup_agree D (hm_get seen) ts"
proof (induction ts arbitrary: seen r)
  case (Cons t ts)
  show ?case
  proof (cases "hm_get seen (trade_identity_of t)")
    case None
    then show ?thesis
      by (simp only: dedup_agree_fresh) (simp add: Let_def split_beta Cons.IH update_conv)
  next
    case (Some fp)
    let ?r = "\<lparr>dedup_removed = Suc (dedup_removed r), dedup_conflicts = Suc (dedup_conflicts r)\<rparr>"
    have "dedup_conflicts (snd (dedup_retain D seen ?r ts)) \<noteq> dedup_conflicts r"
      using dedup_retain_conflicts_mono [of ?r D seen ts] by simp
    with Some show ?thesis
      by (simp only: dedup_agree_seen)
        (simp add: Let_def Cons.IH [of seen "\<lparr>dedup_removed = _, dedup_conflicts = dedup_conflicts r\<rparr>", simplified])
  qed
qed simp

text \<open>
  De-duplication keeps, in order, exactly the trades whose identity (exchange, pair, venue id)
  occurs nowhere before them, and the report's \<open>removed\<close> is the number of trades dropped.
\<close>

lemma dedup_keeps_first_occurrences:
  "fst (dedup_by_identity D ts) =
     map ((!) ts)
       (filter (\<lambda>i. trade_identity_of (ts ! i) \<notin> trade_identity_of ` set (take i ts)) [0..<length ts])
   \<and> dedup_removed (snd (dedup_by_identity D ts)) = length ts - length (fst (dedup_by_identity D ts))"
proof -
  let ?r = "\<lparr>dedup_removed = 0, dedup_conflicts = 0\<rparr>"
  have "dedup_removed (snd (dedup_retain D [] ?r ts)) + length (fst (dedup_retain D [] ?r ts)) = length ts"
    by (simp only: dedup_retain_removed) simp
  then show ?thesis
    using dedup_retain_kept [of D "[]" ?r ts] by (simp add: dedup_by_identity_def)
qed

text \<open>
  The report shows no conflict exactly when trades that share an identity also share the
  content fingerprint (time, side, price and amount).
\<close>

lemma dedup_conflict_free_iff:
  "dedup_conflicts (snd (dedup_by_identity D ts)) = 0 \<longleftrightarrow>
     (\<forall>t \<in> set ts. \<forall>u \<in> set ts. trade_identity_of t = trade_identity_of u
        \<longrightarrow> trade_fingerprint D t = trade_fingerprint D u)"
  using dedup_retain_no_conflict [of D "[]" "\<lparr>dedup_removed = 0, dedup_conflicts = 0\<rparr>" ts]
  by (simp add: dedup_by_identity_def)

definition sample_trade :: "string \<Rightarrow> xdec \<Rightarrow> xdec \<Rightarrow> xdec trade" where
  "sample_trade tid price amount =
     \<lparr>source_trade_ts_us = 7, local_trade_ts_us = 9, source_trade_rtt_us = 0,
      tr_pair = \<lparr>tp_base = ''BTC'', tp_quote = ''USDT''\<rparr>, tr_side = Buy, tr_amount = amount,
      tr_price = price, tr_exchange = ''bybit'', tr_id = tid, tr_origin = Ws\<rparr>"

section \<open>Aggregation is exact\<close>

lemma fill_step_qty:
  assumes "dec_exact_add D"
  shows "dec_val D (fst (fold (fill_step D) fs (q, n, lo, hi)))
           = dec_val D q + sum_list (map (\<lambda>f. dec_val D (tr_amount f)) fs)"
  using assms
  by (induction fs arbitrary: q n lo hi) (simp_all add: fill_step_def dec_exact_add_def)

lemma fill_step_eq:
  "fill_step D f (q, n, lo, hi) =
     (dec_add D q (tr_amount f), dec_add D n (dec_mul D (tr_price f) (tr_amount f)),
      if dec_le D lo (tr_price f) then lo else tr_price f,
      if dec_less D (tr_price f) hi then hi else tr_price f)"
  by (simp add: fill_step_def)

lemma fill_step_band:
  assumes "fold (fill_step D) fs (q, n, lo, hi) = (q', n', lo', hi')"
  shows "dec_val D lo' = Min (insert (dec_val D lo) ((\<lambda>f. dec_val D (tr_price f)) ` set fs))
       \<and> dec_val D hi' = Max (insert (dec_val D hi) ((\<lambda>f. dec_val D (tr_price f)) ` set fs))"
  using assms
proof (induction fs arbitrary: q n lo hi)
  case (Cons f fs)
  let ?p = "\<lambda>f. dec_val D (tr_price f)"
  have min: "Min (insert (if a \<le> b then a else b) A) = Min (insert a (insert b A))" if "finite A" for a b :: rat and A
    using that by (cases "A = {}") (auto simp: min_def)
  have max: "Max (insert (if b < a then a else b) A) = Max (insert a (insert b A))" if "finite A" for a b :: rat and A
    using that by (cases "A = {}") (auto simp: max_def)
  from Cons.prems have "fold (fill_step D) fs
      (dec_add D q (tr_amount f), dec_add D n (dec_mul D (tr_price f) (tr_amount f)),
       if dec_le D lo (tr_price f) then lo else tr_price f,
       if dec_less D (tr_price f) hi then hi else tr_price f) = (q', n', lo', hi')"
    by (simp only: fold.simps comp_apply fill_step_eq)
  from Cons.IH [OF this] show ?case
    by (simp only: if_distrib [of "dec_val D"] min max finite_imageI finite_set set_simps image_insert)
qed simp

text \<open>
  With exact decimal addition, fills aggregate successfully exactly when there is at least one
  of them, the bucket width is positive, all share side, exchange and pair, and the amounts sum to
  a positive quantity.
\<close>

lemma from_fills_ok_iff:
  assumes "dec_exact_add D" and "dec_zero_law D"
  shows "is_ok (from_fills D fills bucket w reason ev) \<longleftrightarrow>
     w \<noteq> 0 \<and> 0 < sum_list (map (\<lambda>f. dec_val D (tr_amount f)) fills)
   \<and> (\<forall>f \<in> set fills. tr_side f = tr_side (hd fills) \<and> tr_exchange f = tr_exchange (hd fills)
        \<and> tr_pair f = tr_pair (hd fills))"
proof (cases fills)
  case Nil
  then show ?thesis by (simp add: from_fills_def)
next
  case (Cons f fs)
  have "dec_val D (fst (fold (fill_step D) fills (dec_zero D, dec_zero D, tr_price f, tr_price f)))
      = sum_list (map (\<lambda>f. dec_val D (tr_amount f)) fills)"
    using fill_step_qty [OF assms(1)] assms(2) by (simp add: dec_zero_law_def)
  moreover obtain q n lo hi where
    "fold (fill_step D) fills (dec_zero D, dec_zero D, tr_price f, tr_price f) = (q, n, lo, hi)"
    by (metis surj_pair)
  ultimately show ?thesis
    using Cons assms(2)
    by (auto simp: from_fills_def Let_def list_ex_iff dec_zero_law_def not_le)
qed

text \<open>
  An aggregate's quantity is the sum of its fills, its fill count their number, its price band
  the least and greatest fill price, and its end points the first and the last fill.
\<close>

lemma from_fills_summary:
  assumes "dec_exact_add D" and "dec_zero_law D"
    and "from_fills D fills bucket w reason ev = Ok a"
  shows "ag_n_fills a = length fills
    \<and> dec_val D (ag_qty a) = sum_list (map (\<lambda>f. dec_val D (tr_amount f)) fills)
    \<and> dec_val D (ag_px_min a) = Min ((\<lambda>f. dec_val D (tr_price f)) ` set fills)
    \<and> dec_val D (ag_px_max a) = Max ((\<lambda>f. dec_val D (tr_price f)) ` set fills)
    \<and> ag_id_first a = tr_id (hd fills) \<and> ag_id_last a = tr_id (last fills)
    \<and> ag_px_first a = tr_price (hd fills) \<and> ag_px_last a = tr_price (last fills)"
proof (cases fills)
  case Nil
  with assms(3) show ?thesis by (simp add: from_fills_def)
next
  case (Cons f fs)
  obtain q n lo hi where
    fold: "fold (fill_step D) fills (dec_zero D, dec_zero D, tr_price f, tr_price f) = (q, n, lo, hi)"
    by (metis surj_pair)
  have qty: "dec_val D q = sum_list (map (\<lambda>f. dec_val D (tr_amount f)) fills)"
    using fill_step_qty [OF assms(1), of fills "dec_zero D" "dec_zero D" "tr_price f" "tr_price f"] assms(2)
    by (simp add: fold dec_zero_law_def)
  have band: "dec_val D lo = Min ((\<lambda>f. dec_val D (tr_price f)) ` set fills)"
    "dec_val D hi = Max ((\<lambda>f. dec_val D (tr_price f)) ` set fills)"
    using fill_step_band [OF fold] Cons by simp_all
  show ?thesis
    using assms(3) fold Cons qty band by (auto simp: from_fills_def Let_def split: if_splits)
qed

end
