(* ===== verification/Ordered_Map.thy ===== *)
theory Ordered_Map
  imports Prelude
begin

text \<open>
  The standard library's \<open>BTreeMap\<close> as the sources use it: a list of entries in strictly
  ascending key order.  Keys are compared through a projection \<open>f\<close> into a linear order (for
  \<open>Decimal\<close> keys the denoted number, for \<open>u64\<close> keys the identity), because two decimals can be
  equal as keys and still be different values; inserting at an existing key keeps the stored key.

  The locale \<open>ordered_map\<close> is the contract the order books and the synchronizers rely on; it is
  interpreted on the operations below.
\<close>

named_theorems bt_simps \<open>look-up, size and order facts of ordered maps\<close>

section \<open>The map operations\<close>

type_synonym ('k, 'v) btree = "('k \<times> 'v) list"

fun bt_insert :: "('k \<Rightarrow> 'o::linorder) \<Rightarrow> 'k \<Rightarrow> 'v \<Rightarrow> ('k, 'v) btree \<Rightarrow> ('k, 'v) btree" where
  "bt_insert f k v [] = [(k, v)]"
| "bt_insert f k v ((a, b) # m) =
     (if f k < f a then (k, v) # (a, b) # m
      else if f k = f a then (a, v) # m
      else (a, b) # bt_insert f k v m)"

fun bt_remove :: "('k \<Rightarrow> 'o::linorder) \<Rightarrow> 'k \<Rightarrow> ('k, 'v) btree \<Rightarrow> ('k, 'v) btree" where
  "bt_remove f k [] = []"
| "bt_remove f k ((a, b) # m) = (if f k = f a then m else (a, b) # bt_remove f k m)"

definition bt_map :: "('k \<Rightarrow> 'o::linorder) \<Rightarrow> ('k, 'v) btree \<Rightarrow> 'o \<rightharpoonup> 'v" where
  "bt_map f m = map_of (map (\<lambda>(k, v). (f k, v)) m)"

definition bt_get :: "('k \<Rightarrow> 'o::linorder) \<Rightarrow> 'k \<Rightarrow> ('k, 'v) btree \<Rightarrow> 'v option" where
  "bt_get f k m = bt_map f m (f k)"

definition bt_first :: "('k, 'v) btree \<Rightarrow> ('k \<times> 'v) option" where
  "bt_first m = (case m of [] \<Rightarrow> None | e # _ \<Rightarrow> Some e)"

definition bt_last :: "('k, 'v) btree \<Rightarrow> ('k \<times> 'v) option" where
  "bt_last m = (if m = [] then None else Some (last m))"

definition bt_pop_first :: "('k, 'v) btree \<Rightarrow> ('k, 'v) btree" where
  "bt_pop_first m = tl m"

definition bt_pop_last :: "('k, 'v) btree \<Rightarrow> ('k, 'v) btree" where
  "bt_pop_last m = butlast m"

text \<open>\<open>range(..x)\<close>, \<open>range(..=x)\<close> and \<open>range(x..)\<close>.\<close>

definition bt_range_below :: "('k \<Rightarrow> 'o::linorder) \<Rightarrow> 'o \<Rightarrow> ('k, 'v) btree \<Rightarrow> ('k, 'v) btree" where
  "bt_range_below f x m = filter (\<lambda>(k, _). f k < x) m"

definition bt_range_upto :: "('k \<Rightarrow> 'o::linorder) \<Rightarrow> 'o \<Rightarrow> ('k, 'v) btree \<Rightarrow> ('k, 'v) btree" where
  "bt_range_upto f x m = filter (\<lambda>(k, _). f k \<le> x) m"

definition bt_range_from :: "('k \<Rightarrow> 'o::linorder) \<Rightarrow> 'o \<Rightarrow> ('k, 'v) btree \<Rightarrow> ('k, 'v) btree" where
  "bt_range_from f x m = filter (\<lambda>(k, _). x \<le> f k) m"

text \<open>\<open>into_iter().collect()\<close>: later entries replace earlier ones with an equal key.\<close>

definition bt_collect :: "('k \<Rightarrow> 'o::linorder) \<Rightarrow> ('k \<times> 'v) list \<Rightarrow> ('k, 'v) btree" where
  "bt_collect f es = fold (\<lambda>(k, v) m. bt_insert f k v m) es []"

definition bt_wf :: "('k \<Rightarrow> 'o::linorder) \<Rightarrow> ('k, 'v) btree \<Rightarrow> bool" where
  "bt_wf f m \<longleftrightarrow> sorted_wrt (<) (map (f \<circ> fst) m)"

section \<open>Laws\<close>

lemma length_bt_pop [simp]:
  "length (bt_pop_first m) = length m - 1" "length (bt_pop_last m) = length m - 1"
  by (simp_all add: bt_pop_first_def bt_pop_last_def)

lemma bt_wf_Nil [simp, intro]: "bt_wf f []"
  by (simp add: bt_wf_def)

lemma bt_wf_Cons: "bt_wf f ((a, b) # m) \<longleftrightarrow> (\<forall>(k, v) \<in> set m. f a < f k) \<and> bt_wf f m"
  by (auto simp: bt_wf_def)

lemma bt_map_Nil [simp]: "bt_map f [] = Map.empty"
  by (simp add: bt_map_def)

lemma bt_map_Cons [simp]: "bt_map f ((a, b) # m) = (bt_map f m)(f a \<mapsto> b)"
  by (simp add: bt_map_def)

lemma bt_map_insert [bt_simps]: "bt_map f (bt_insert f k v m) = (bt_map f m)(f k \<mapsto> v)"
  by (induction m) (auto simp: fun_upd_twist)

lemma bt_map_fresh: "\<forall>(k, v) \<in> set m. x < f k \<Longrightarrow> bt_map f m x = None"
  by (induction m) auto

lemma bt_map_remove [bt_simps]: "bt_wf f m \<Longrightarrow> bt_map f (bt_remove f k m) = (bt_map f m)(f k := None)"
  by (induction m) (auto simp: bt_wf_Cons fun_eq_iff bt_map_fresh)

lemma bt_insert_keys: "(f \<circ> fst) ` set (bt_insert f k v m) = insert (f k) ((f \<circ> fst) ` set m)"
  by (induction f k v m rule: bt_insert.induct) (simp_all add: insert_commute)

lemma bt_all_keys: "(\<forall>(k, v) \<in> set m. P (f k)) \<longleftrightarrow> (\<forall>y \<in> (f \<circ> fst) ` set m. P y)"
  by auto

lemma bt_insert_lower:
  "(\<forall>(k', v') \<in> set (bt_insert f k v m). x < f k') \<longleftrightarrow> x < f k \<and> (\<forall>(k', v') \<in> set m. x < f k')"
  by (simp only: bt_all_keys [where P = "\<lambda>y. x < y"] bt_insert_keys) simp

lemma bt_wf_insert [intro, simp]: "bt_wf f m \<Longrightarrow> bt_wf f (bt_insert f k v m)"
  by (induction m) (fastforce simp: bt_wf_Cons bt_insert_lower)+

lemma bt_remove_subset: "set (bt_remove f k m) \<subseteq> set m"
  by (induction m) (auto split: if_splits)

lemma bt_wf_remove [intro, simp]: "bt_wf f m \<Longrightarrow> bt_wf f (bt_remove f k m)"
  by (induction m) (use bt_remove_subset in \<open>fastforce simp: bt_wf_Cons\<close>)+

lemma bt_wf_tl [intro, simp]: "bt_wf f m \<Longrightarrow> bt_wf f (tl m)"
  by (cases m) (auto simp: bt_wf_Cons)

lemma bt_wf_drop [intro, simp]: "bt_wf f m \<Longrightarrow> bt_wf f (drop n m)"
  by (simp add: bt_wf_def drop_map [symmetric] sorted_wrt_drop)

lemma bt_wf_take [intro, simp]: "bt_wf f m \<Longrightarrow> bt_wf f (take n m)"
  by (simp add: bt_wf_def take_map [symmetric] sorted_wrt_take)

lemma bt_wf_filter [intro, simp]: "bt_wf f m \<Longrightarrow> bt_wf f (filter P m)"
  by (simp add: bt_wf_def sorted_wrt_map sorted_wrt_filter)

lemma bt_map_SomeD: "bt_map f m x = Some v \<Longrightarrow> \<exists>k. (k, v) \<in> set m \<and> f k = x"
  by (induction m) (auto split: if_splits)

lemma bt_map_SomeI: "bt_wf f m \<Longrightarrow> (k, v) \<in> set m \<Longrightarrow> bt_map f m (f k) = Some v"
  by (induction m) (fastforce simp: bt_wf_Cons)+

lemma bt_map_None_iff: "bt_map f m x = None \<longleftrightarrow> x \<notin> (f \<circ> fst) ` set m"
  by (simp add: bt_map_def map_of_eq_None_iff image_image case_prod_unfold comp_def)

lemma bt_dom: "dom (bt_map f m) = (f \<circ> fst) ` set m"
  by (simp add: bt_map_def dom_map_of_conv_image_fst image_image case_prod_unfold comp_def)

lemma bt_insert_set: "x \<in> set (bt_insert f k v m) \<Longrightarrow> snd x = v \<or> x \<in> set m"
  by (induction m) (auto split: if_splits)

lemma bt_insert_length: "length (bt_insert f k v m) \<le> Suc (length m)"
  by (induction m) auto

lemma bt_insert_length_eq:
  "bt_wf f m \<Longrightarrow> length (bt_insert f k v m) = (if bt_get f k m = None then Suc (length m) else length m)"
proof (induction m)
  case (Cons e m)
  obtain a b where e: "e = (a, b)" by fastforce
  from Cons.prems e have "f k < f a \<Longrightarrow> bt_map f m (f k) = None"
    by (intro bt_map_fresh) (auto simp: bt_wf_Cons)
  with Cons e show ?case by (auto simp: bt_get_def bt_wf_Cons)
qed (simp add: bt_get_def)

lemma bt_remove_length_eq:
  "length (bt_remove f k m) = (if bt_get f k m = None then length m else length m - 1)"
proof (induction m)
  case (Cons e m)
  have "bt_map f m x \<noteq> None \<Longrightarrow> m \<noteq> []" for x by auto
  with Cons show ?case by (cases e) (auto simp: bt_get_def Suc_diff_Suc)
qed (simp add: bt_get_def)

lemma bt_collect_wf [intro, simp]: "bt_wf f (bt_collect f es)"
proof -
  have "bt_wf f m \<Longrightarrow> bt_wf f (fold (\<lambda>(k, v) m. bt_insert f k v m) es m)" for m :: "('a, 'c) btree"
    by (induction es arbitrary: m) auto
  then show ?thesis by (simp add: bt_collect_def)
qed

text \<open>A strictly sorted list is rebuilt by \<open>collect\<close>, in either direction.\<close>

lemma bt_insert_above: "\<forall>(a, b) \<in> set m. f a < f k \<Longrightarrow> bt_insert f k v m = m @ [(k, v)]"
  by (induction m) auto

lemma bt_insert_below: "\<forall>(a, b) \<in> set m. f k < f a \<Longrightarrow> bt_insert f k v m = (k, v) # m"
  by (cases m) auto

lemma bt_wf_append: "bt_wf f (m @ n) \<longleftrightarrow> bt_wf f m \<and> bt_wf f n \<and> (\<forall>x \<in> set m. \<forall>y \<in> set n. f (fst x) < f (fst y))"
  by (auto simp: bt_wf_def sorted_wrt_append)

lemma bt_fold_insert_asc:
  "bt_wf f (m @ es) \<Longrightarrow> fold (\<lambda>(k, v) m. bt_insert f k v m) es m = m @ es"
proof (induction es arbitrary: m)
  case Nil
  then show ?case by simp
next
  case (Cons e es)
  obtain k v where e: "e = (k, v)" by fastforce
  from Cons.prems e have "bt_insert f k v m = m @ [(k, v)]"
    by (intro bt_insert_above) (auto simp: bt_wf_append)
  moreover have "fold (\<lambda>(k, v) m. bt_insert f k v m) es (m @ [e]) = (m @ [e]) @ es"
    using Cons.prems by (intro Cons.IH) simp
  ultimately show ?case using e by simp
qed

lemma bt_collect_sorted [bt_simps]: "bt_wf f m \<Longrightarrow> bt_collect f m = m"
  using bt_fold_insert_asc [of f "[]" m] by (simp add: bt_collect_def)

lemma bt_fold_insert_desc:
  "bt_wf f (rev es @ m) \<Longrightarrow> fold (\<lambda>(k, v) m. bt_insert f k v m) es m = rev es @ m"
proof (induction es arbitrary: m)
  case Nil
  then show ?case by simp
next
  case (Cons e es)
  obtain k v where e: "e = (k, v)" by fastforce
  from Cons.prems e have "bt_insert f k v m = (k, v) # m"
    by (intro bt_insert_below) (auto simp: bt_wf_append bt_wf_Cons)
  moreover have "fold (\<lambda>(k, v) m. bt_insert f k v m) es (e # m) = rev es @ (e # m)"
    using Cons.prems by (intro Cons.IH) simp
  ultimately show ?case using e by simp
qed

lemma bt_collect_rev_sorted [bt_simps]: "bt_wf f m \<Longrightarrow> bt_collect f (rev m) = m"
  using bt_fold_insert_desc [of f "rev m" "[]"] by (simp add: bt_collect_def)

text \<open>The first and the last entry carry the least and the greatest key.\<close>

lemma bt_last_greatest:
  "bt_wf f m \<Longrightarrow> bt_last m = Some (k, v) \<Longrightarrow> (k', v') \<in> set m \<Longrightarrow> f k' \<le> f k"
proof -
  assume wf: "bt_wf f m" and last: "bt_last m = Some (k, v)" and mem: "(k', v') \<in> set m"
  from last obtain ms where m: "m = ms @ [(k, v)]"
    by (auto simp: bt_last_def split: if_splits) (metis append_butlast_last_id)
  from wf have "x \<in> set ms \<Longrightarrow> f (fst x) < f k" for x
    unfolding m bt_wf_append by simp
  with mem show ?thesis
    unfolding m by fastforce
qed

lemma bt_first_least:
  "bt_wf f m \<Longrightarrow> bt_first m = Some (k, v) \<Longrightarrow> (k', v') \<in> set m \<Longrightarrow> f k \<le> f k'"
  by (cases m) (auto simp: bt_first_def bt_wf_Cons intro: less_imp_le)

lemma bt_last_mem: "bt_last m = Some e \<Longrightarrow> e \<in> set m"
  by (auto simp: bt_last_def split: if_splits)

lemma bt_first_mem: "bt_first m = Some e \<Longrightarrow> e \<in> set m"
  by (auto simp: bt_first_def split: list.splits)

section \<open>The best levels of a side\<close>

text \<open>
  The abstract view of depth pruning: a key is kept when fewer than \<open>n\<close> keys are better.
\<close>

definition highest :: "nat option \<Rightarrow> ('o::linorder \<rightharpoonup> 'v) \<Rightarrow> 'o \<rightharpoonup> 'v" where
  "highest cap M = (case cap of None \<Rightarrow> M | Some n \<Rightarrow> M |` {k. card {k' \<in> dom M. k < k'} < n})"

definition lowest :: "nat option \<Rightarrow> ('o::linorder \<rightharpoonup> 'v) \<Rightarrow> 'o \<rightharpoonup> 'v" where
  "lowest cap M = (case cap of None \<Rightarrow> M | Some n \<Rightarrow> M |` {k. card {k' \<in> dom M. k' < k} < n})"

lemma bt_wf_card: "bt_wf f m \<Longrightarrow> card ((f \<circ> fst) ` set m) = length m"
  using distinct_card [of "map (f \<circ> fst) m"]
  by (simp add: bt_wf_def strict_sorted_iff)

lemma bt_map_append: "bt_map f (m @ n) = bt_map f n ++ bt_map f m"
  by (simp add: bt_map_def)

lemma bt_card_above:
  assumes "bt_wf f (m @ (k, v) # n)"
  shows "card {k' \<in> dom (bt_map f (m @ (k, v) # n)). f k < k'} = length n"
    and "card {k' \<in> dom (bt_map f (m @ (k, v) # n)). k' < f k} = length m"
proof -
  from assms have ord: "x \<in> set m \<Longrightarrow> f (fst x) < f k" "y \<in> set n \<Longrightarrow> f k < f (fst y)" for x y
    by (fastforce simp: bt_wf_append bt_wf_Cons)+
  define below above where "below = (f \<circ> fst) ` set m" and "above = (f \<circ> fst) ` set n"
  have "dom (bt_map f (m @ (k, v) # n)) = below \<union> {f k} \<union> above" by (auto simp: bt_dom below_def above_def)
  moreover have "\<forall>a \<in> below. a < f k" "\<forall>b \<in> above. f k < b" using ord by (auto simp: below_def above_def)
  ultimately have "{k' \<in> dom (bt_map f (m @ (k, v) # n)). f k < k'} = above"
    "{k' \<in> dom (bt_map f (m @ (k, v) # n)). k' < f k} = below"
    by (simp_all only:) (blast dest: less_asym less_irrefl [THEN notE])+
  moreover from assms have "bt_wf f m" "bt_wf f n"
    by (simp_all add: bt_wf_append bt_wf_Cons)
  ultimately show "card {k' \<in> dom (bt_map f (m @ (k, v) # n)). f k < k'} = length n"
    "card {k' \<in> dom (bt_map f (m @ (k, v) # n)). k' < f k} = length m"
    by (simp_all only: below_def above_def bt_wf_card)
qed

lemma bt_rank:
  assumes "bt_wf f m" and "i < length m"
  shows "card {k' \<in> dom (bt_map f m). f (fst (m ! i)) < k'} = length m - Suc i"
    and "card {k' \<in> dom (bt_map f m). k' < f (fst (m ! i))} = i"
proof -
  obtain k v where kv: "m ! i = (k, v)" by fastforce
  have split: "m = take i m @ (k, v) # drop (Suc i) m"
    using id_take_nth_drop [OF assms(2)] kv by simp
  show "card {k' \<in> dom (bt_map f m). f (fst (m ! i)) < k'} = length m - Suc i"
    using bt_card_above(1) [of f "take i m" k v "drop (Suc i) m"] assms(1) kv split [symmetric] by simp
  show "card {k' \<in> dom (bt_map f m). k' < f (fst (m ! i))} = i"
    using bt_card_above(2) [of f "take i m" k v "drop (Suc i) m"] assms kv split [symmetric] by simp
qed

lemma bt_map_nth: "bt_wf f m \<Longrightarrow> i < length m \<Longrightarrow> bt_map f m (f (fst (m ! i))) = Some (snd (m ! i))"
  using bt_map_SomeI [of f m "fst (m ! i)" "snd (m ! i)"] by simp

lemma bt_map_cases:
  obtains "bt_map f m x = None" | i where "i < length m" "x = f (fst (m ! i))"
proof (cases "bt_map f m x")
  case None
  then show ?thesis using that by blast
next
  case (Some v)
  from bt_map_SomeD [OF this] obtain k where "(k, v) \<in> set m" "f k = x" by blast
  then show ?thesis using that by (metis fst_conv in_set_conv_nth)
qed

lemma bt_map_sublist_None: "set m' \<subseteq> set m \<Longrightarrow> bt_map f m x = None \<Longrightarrow> bt_map f m' x = None"
  by (auto simp: bt_map_None_iff)

lemma bt_map_pruned:
  assumes wf: "bt_wf f m" and sub: "set m' \<subseteq> set m" and wf': "bt_wf f m'"
    and kept: "\<And>i. i < length m \<Longrightarrow> m ! i \<in> set m' \<longleftrightarrow> f (fst (m ! i)) \<in> K"
  shows "bt_map f m' = bt_map f m |` K"
proof
  fix x
  show "bt_map f m' x = (bt_map f m |` K) x"
  proof (cases rule: bt_map_cases [of f m x])
    case 1
    with sub show ?thesis by (simp add: bt_map_sublist_None restrict_map_def)
  next
    case (2 i)
    show ?thesis
    proof (cases "x \<in> K")
      case True
      with 2 kept have "m ! i \<in> set m'" by blast
      with wf' have "bt_map f m' x = Some (snd (m ! i))"
        using 2 bt_map_SomeI [of f m' "fst (m ! i)" "snd (m ! i)"] by simp
      with 2 True wf show ?thesis by (simp add: bt_map_nth)
    next
      case False
      have "x \<notin> (f \<circ> fst) ` set m'"
      proof
        assume "x \<in> (f \<circ> fst) ` set m'"
        then obtain e where e: "e \<in> set m'" "x = f (fst e)" by auto
        with sub obtain j where "j < length m" "e = m ! j" by (metis in_set_conv_nth subsetD)
        with e kept False show False by blast
      qed
      with False show ?thesis by (metis bt_map_None_iff restrict_out)
    qed
  qed
qed

lemma bt_wf_distinct: "bt_wf f m \<Longrightarrow> distinct m"
  by (simp add: bt_wf_def strict_sorted_iff) (metis distinct_map)

lemma nth_in_drop: "distinct m \<Longrightarrow> i < length m \<Longrightarrow> m ! i \<in> set (drop k m) \<longleftrightarrow> k \<le> i"
proof -
  assume "distinct m" "i < length m"
  moreover have "set (drop k m) = {m ! j |j. k \<le> j \<and> j < length m}"
    by (auto simp: set_conv_nth) (metis add.commute le_Suc_ex less_diff_conv nth_drop)
  ultimately show ?thesis by (auto simp: nth_eq_iff_index_eq)
qed

lemma nth_in_take: "distinct m \<Longrightarrow> i < length m \<Longrightarrow> m ! i \<in> set (take k m) \<longleftrightarrow> i < k"
proof -
  assume "distinct m" "i < length m"
  moreover have "set (take k m) = {m ! j |j. j < k \<and> j < length m}"
    by (auto simp: set_conv_nth) (metis nth_take)
  ultimately show ?thesis by (auto simp: nth_eq_iff_index_eq)
qed

lemma bt_drop_highest: "bt_wf f m \<Longrightarrow> bt_map f (drop (length m - n) m) = highest (Some n) (bt_map f m)"
  unfolding highest_def option.case
  by (rule bt_map_pruned) (auto simp: bt_rank nth_in_drop bt_wf_distinct dest: in_set_dropD)

lemma bt_take_lowest: "bt_wf f m \<Longrightarrow> bt_map f (take n m) = lowest (Some n) (bt_map f m)"
  unfolding lowest_def option.case
  by (rule bt_map_pruned) (auto simp: bt_rank nth_in_take bt_wf_distinct dest: in_set_takeD)

section \<open>The contract of an ordered map\<close>

locale ordered_map =
  fixes key :: "'k \<Rightarrow> 'o::linorder"
    and empty :: 'm
    and look :: "'m \<Rightarrow> 'o \<rightharpoonup> 'v"
    and insert :: "'k \<Rightarrow> 'v \<Rightarrow> 'm \<Rightarrow> 'm"
    and remove :: "'k \<Rightarrow> 'm \<Rightarrow> 'm"
    and invar :: "'m \<Rightarrow> bool"
  assumes look_empty: "look empty = Map.empty"
    and look_insert: "invar m \<Longrightarrow> look (insert k v m) = (look m)(key k \<mapsto> v)"
    and look_remove: "invar m \<Longrightarrow> look (remove k m) = (look m)(key k := None)"
    and invar_empty: "invar empty"
    and invar_insert: "invar m \<Longrightarrow> invar (insert k v m)"
    and invar_remove: "invar m \<Longrightarrow> invar (remove k m)"
begin

text \<open>
  A batch of level updates: each entry writes a value or, where the value is to be dropped,
  removes the key.  Both order-book paths (snapshot rows and delta rows) are such batches, and
  the result is the one of the abstract map: the last entry for a key decides.
\<close>

definition upd :: "('v \<Rightarrow> bool) \<Rightarrow> 'k \<times> 'v \<Rightarrow> 'm \<Rightarrow> 'm" where
  "upd del = (\<lambda>(k, v) m. if del v then remove k m else insert k v m)"

definition abs_upd :: "('v \<Rightarrow> bool) \<Rightarrow> 'k \<times> 'v \<Rightarrow> ('o \<rightharpoonup> 'v) \<Rightarrow> ('o \<rightharpoonup> 'v)" where
  "abs_upd del = (\<lambda>(k, v) m. m(key k := (if del v then None else Some v)))"

lemma invar_upd: "invar m \<Longrightarrow> invar (upd del e m)"
  by (cases e) (auto simp: upd_def invar_insert invar_remove)

lemma look_upd: "invar m \<Longrightarrow> look (upd del e m) = abs_upd del e (look m)"
  by (cases e) (auto simp: upd_def abs_upd_def look_insert look_remove)

lemma invar_fold_upd: "invar m \<Longrightarrow> invar (fold (upd del) es m)"
  by (induction es arbitrary: m) (auto simp: invar_upd)

lemma look_fold_upd: "invar m \<Longrightarrow> look (fold (upd del) es m) = fold (abs_upd del) es (look m)"
  by (induction es arbitrary: m) (auto simp: invar_upd look_upd)

lemma abs_fold_untouched: "x \<notin> key ` fst ` set es \<Longrightarrow> fold (abs_upd del) es f x = f x"
  by (induction es arbitrary: f) (auto simp: abs_upd_def)

lemma abs_fold_last: "fold (abs_upd del) (es @ [(k, v)]) f (key k) = (if del v then None else Some v)"
  by (simp add: abs_upd_def)

lemma look_fold_upd_untouched:
  "invar m \<Longrightarrow> x \<notin> key ` fst ` set es \<Longrightarrow> look (fold (upd del) es m) x = look m x"
  by (simp add: look_fold_upd abs_fold_untouched)

lemma look_fold_upd_last:
  "invar m \<Longrightarrow> key k \<notin> key ` fst ` set es' \<Longrightarrow>
     look (fold (upd del) (es @ (k, v) # es') m) (key k) = (if del v then None else Some v)"
  by (simp add: look_fold_upd_untouched invar_upd invar_fold_upd look_upd) (simp add: abs_upd_def)

lemma ran_fold_upd:
  assumes "invar m" and "\<forall>v \<in> ran (look m). P v" and "\<forall>(k, v) \<in> set es. \<not> del v \<longrightarrow> P v"
  shows "\<forall>v \<in> ran (look (fold (upd del) es m)). P v"
proof -
  have "\<forall>v \<in> ran g. P v \<Longrightarrow> \<forall>(k, v) \<in> set es. \<not> del v \<longrightarrow> P v \<Longrightarrow> \<forall>v \<in> ran (fold (abs_upd del) es g). P v" for g
  proof (induction es arbitrary: g)
    case (Cons e es)
    from Cons.prems have "\<forall>v \<in> ran (abs_upd del e g). P v"
      by (cases e) (auto simp: abs_upd_def ran_def)
    with Cons show ?case by simp
  qed simp
  then show ?thesis using assms by (simp add: look_fold_upd)
qed

end

interpretation bt: ordered_map f "[]" "bt_map f" "bt_insert f" "bt_remove f" "bt_wf f"
  for f :: "'k \<Rightarrow> 'o::linorder"
  by unfold_locales (auto simp: bt_simps)

end
