(* ===== verification/Orderbook_Delta.thy ===== *)
theory Orderbook_Delta
  imports Events Ordered_Map
begin

text \<open>
  The incremental order book (\<open>aetelier-types/src/orderbooks/delta.rs\<close>, with the update report of
  \<open>orderbooks/target.rs\<close> and the persisted form of \<open>orderbooks/persist.rs\<close>): the
  exchange-agnostic update \<open>NormalizedDelta\<close>, the book \<open>OrderbookDelta\<close>, and \<open>process\<close> with its
  snapshot and delta paths, depth pruning, the read accessors and the constructors.

  A mutating method returns its result together with the state it leaves behind, because the code
  mutates the maps before it can fail.  The two sides are ordered maps from prices to sizes; the
  lemmas on them come from the contract \<open>ordered_map\<close>.
\<close>

section \<open>Data\<close>

record l3_order =
  l3_order_id :: string
  l3_is_ask :: bool
  l3_price :: string
  l3_size :: string
  l3_removed :: bool

record normalized_delta =
  nd_symbol :: string
  nd_bids :: "(string \<times> string) list"
  nd_asks :: "(string \<times> string) list"
  nd_update_id :: u64
  nd_sequence :: u64
  nd_source_ts_us :: u64
  nd_local_ts_us :: u64
  nd_rtt_us :: u64
  nd_checksum :: "i64 option"
  nd_orders :: "l3_order list"
  nd_is_snapshot :: bool

datatype orderbook_update_type = UpdateSnapshot | UpdateDelta

record orderbook_update =
  ou_update_type :: orderbook_update_type
  ou_bids_modified :: usize
  ou_asks_modified :: usize
  ou_levels_deleted :: usize
  ou_levels_inserted :: usize
  ou_was_reset :: bool

type_synonym 'd book_side = "('d, 'd) btree"

record 'd orderbook_delta =
  od_bids :: "'d book_side"
  od_asks :: "'d book_side"
  od_last_update_id :: u64
  od_sequence :: u64
  od_pair :: trading_pair
  od_exchange :: string
  od_initialized :: bool
  od_delta_count :: u64
  od_max_depth :: "usize option"

record orderbook_snapshot =
  os_timestamp_us :: u64
  os_pair :: trading_pair
  os_update_id :: u64
  os_sequence :: u64
  os_delta_count :: u64
  os_bid_depth :: usize
  os_ask_depth :: usize
  os_mid_price :: "string option"
  os_spread :: "string option"
  os_spread_bps :: "string option"
  os_volume_imbalance :: "string option"
  os_total_bid_volume :: string
  os_total_ask_volume :: string
  os_bids :: "(string \<times> string) list"
  os_asks :: "(string \<times> string) list"

section \<open>Construction\<close>

definition od_new :: "trading_pair \<Rightarrow> 'd orderbook_delta" where
  "od_new pair =
     \<lparr>od_bids = [], od_asks = [], od_last_update_id = 0, od_sequence = 0, od_pair = pair,
      od_exchange = '''', od_initialized = False, od_delta_count = 0, od_max_depth = None\<rparr>"

definition od_with_max_depth :: "usize option \<Rightarrow> 'd orderbook_delta \<Rightarrow> 'd orderbook_delta" where
  "od_with_max_depth n ob = ob\<lparr>od_max_depth := n\<rparr>"

definition od_from_snapshot ::
  "trading_pair \<Rightarrow> string \<Rightarrow> 'd book_side \<Rightarrow> 'd book_side \<Rightarrow> u64 \<Rightarrow> u64 \<Rightarrow> u64 \<Rightarrow> 'd orderbook_delta"
where
  "od_from_snapshot pair exchange bids asks update_id sequence delta_count =
     (let bid_count = length bids; ask_count = length asks in
      \<lparr>od_bids = bids, od_asks = asks, od_last_update_id = update_id, od_sequence = sequence,
       od_pair = pair, od_exchange = exchange, od_initialized = (bid_count > 0 \<or> ask_count > 0),
       od_delta_count = delta_count, od_max_depth = None\<rparr>)"

definition od_from_maps :: "trading_pair \<Rightarrow> string \<Rightarrow> 'd book_side \<Rightarrow> 'd book_side \<Rightarrow> 'd orderbook_delta" where
  "od_from_maps pair exchange bids asks =
     (let bid_count = length bids; ask_count = length asks in
      \<lparr>od_bids = bids, od_asks = asks, od_last_update_id = 0, od_sequence = 0,
       od_pair = pair, od_exchange = exchange, od_initialized = (bid_count > 0 \<or> ask_count > 0),
       od_delta_count = 0, od_max_depth = None\<rparr>)"

definition od_from_levels ::
  "'d decimal_ops \<Rightarrow> trading_pair \<Rightarrow> string \<Rightarrow> ('d \<times> 'd) list \<Rightarrow> ('d \<times> 'd) list \<Rightarrow> 'd orderbook_delta"
where
  "od_from_levels D pair exchange bids asks =
     od_from_maps pair exchange (bt_collect (dec_val D) bids) (bt_collect (dec_val D) asks)"

section \<open>Updates\<close>

definition parse_decimal :: "'d decimal_ops \<Rightarrow> string \<Rightarrow> ('d, orderbook_error) result" where
  "parse_decimal D s = map_err ParseError (dec_from_str D s)"

text \<open>The two \<open>while\<close> loops of \<open>prune_to_depth\<close>.\<close>

fun prune_front :: "usize \<Rightarrow> 'd book_side \<Rightarrow> 'd book_side" where
  "prune_front n m = (if length m > n then prune_front n (bt_pop_first m) else m)"

fun prune_back :: "usize \<Rightarrow> 'd book_side \<Rightarrow> 'd book_side" where
  "prune_back n m = (if length m > n then prune_back n (bt_pop_last m) else m)"

declare prune_front.simps [simp del] prune_back.simps [simp del]

definition prune_to_depth :: "'d orderbook_delta \<Rightarrow> 'd orderbook_delta" where
  "prune_to_depth ob =
     (case od_max_depth ob of
        None \<Rightarrow> ob
      | Some n \<Rightarrow> ob\<lparr>od_bids := prune_front n (od_bids ob), od_asks := prune_back n (od_asks ob)\<rparr>)"

definition apply_level ::
  "'d decimal_ops \<Rightarrow> 'd book_side \<Rightarrow> 'd \<Rightarrow> 'd \<Rightarrow> 'd book_side \<times> bool \<times> bool"
where
  "apply_level D side price sz =
     (if dec_eq D sz (dec_zero D)
      then (bt_remove (dec_val D) price side, bt_get (dec_val D) price side \<noteq> None, False)
      else case bt_get (dec_val D) price side of
             Some _ \<Rightarrow> (bt_insert (dec_val D) price sz side, False, False)
           | None \<Rightarrow> (bt_insert (dec_val D) price sz side, False, True))"

text \<open>
  The row loops.  Each returns the side as it stands when the loop ends or the first row fails to
  parse, and the counters or the error.
\<close>

fun snapshot_rows ::
  "'d decimal_ops \<Rightarrow> (string \<times> string) list \<Rightarrow> 'd book_side \<Rightarrow> usize
     \<Rightarrow> (usize, orderbook_error) result \<times> 'd book_side"
where
  "snapshot_rows D [] side modified = (Ok modified, side)"
| "snapshot_rows D ((price_str, size_str) # rows) side modified =
     (case parse_decimal D price_str of
        Err e \<Rightarrow> (Err e, side)
      | Ok price \<Rightarrow>
          (case parse_decimal D size_str of
             Err e \<Rightarrow> (Err e, side)
           | Ok sz \<Rightarrow>
               if dec_less D (dec_zero D) sz
               then snapshot_rows D rows (bt_insert (dec_val D) price sz side) (modified + 1)
               else snapshot_rows D rows side modified))"

fun delta_rows ::
  "'d decimal_ops \<Rightarrow> (string \<times> string) list \<Rightarrow> 'd book_side \<Rightarrow> usize \<times> usize \<times> usize
     \<Rightarrow> (usize \<times> usize \<times> usize, orderbook_error) result \<times> 'd book_side"
where
  "delta_rows D [] side counts = (Ok counts, side)"
| "delta_rows D ((price_str, size_str) # rows) side (modified, deleted, inserted) =
     (case parse_decimal D price_str of
        Err e \<Rightarrow> (Err e, side)
      | Ok price \<Rightarrow>
          (case parse_decimal D size_str of
             Err e \<Rightarrow> (Err e, side)
           | Ok sz \<Rightarrow>
               (case apply_level D side price sz of
                  (side', was_deleted, was_inserted) \<Rightarrow>
                    delta_rows D rows side'
                      (modified + 1,
                       (if was_deleted then deleted + 1 else deleted),
                       (if was_inserted then inserted + 1 else inserted)))))"

type_synonym 'd process_result = "(orderbook_update, orderbook_error) result \<times> 'd orderbook_delta"

definition apply_snapshot :: "'d decimal_ops \<Rightarrow> 'd orderbook_delta \<Rightarrow> normalized_delta \<Rightarrow> 'd process_result" where
  "apply_snapshot D ob delta =
     (let ob = ob\<lparr>od_bids := [], od_asks := []\<rparr> in
      case snapshot_rows D (nd_bids delta) (od_bids ob) 0 of
        (Err e, bids) \<Rightarrow> (Err e, ob\<lparr>od_bids := bids\<rparr>)
      | (Ok bids_modified, bids) \<Rightarrow>
          (let ob = ob\<lparr>od_bids := bids\<rparr> in
           case snapshot_rows D (nd_asks delta) (od_asks ob) 0 of
             (Err e, asks) \<Rightarrow> (Err e, ob\<lparr>od_asks := asks\<rparr>)
           | (Ok asks_modified, asks) \<Rightarrow>
               (Ok \<lparr>ou_update_type = UpdateSnapshot, ou_bids_modified = bids_modified,
                    ou_asks_modified = asks_modified, ou_levels_deleted = 0,
                    ou_levels_inserted = bids_modified + asks_modified, ou_was_reset = True\<rparr>,
                prune_to_depth
                  (ob\<lparr>od_asks := asks, od_last_update_id := nd_update_id delta,
                      od_sequence := nd_sequence delta, od_initialized := True,
                      od_delta_count := 0\<rparr>))))"

definition apply_delta :: "'d decimal_ops \<Rightarrow> 'd orderbook_delta \<Rightarrow> normalized_delta \<Rightarrow> 'd process_result" where
  "apply_delta D ob delta =
     (if \<not> od_initialized ob then (Err NotInitialized, ob)
      else
        case delta_rows D (nd_bids delta) (od_bids ob) (0, 0, 0) of
          (Err e, bids) \<Rightarrow> (Err e, ob\<lparr>od_bids := bids\<rparr>)
        | (Ok (bids_modified, deleted, inserted), bids) \<Rightarrow>
            (let ob = ob\<lparr>od_bids := bids\<rparr> in
             case delta_rows D (nd_asks delta) (od_asks ob) (0, deleted, inserted) of
               (Err e, asks) \<Rightarrow> (Err e, ob\<lparr>od_asks := asks\<rparr>)
             | (Ok (asks_modified, deleted, inserted), asks) \<Rightarrow>
                 (Ok \<lparr>ou_update_type = UpdateDelta, ou_bids_modified = bids_modified,
                      ou_asks_modified = asks_modified, ou_levels_deleted = deleted,
                      ou_levels_inserted = inserted, ou_was_reset = False\<rparr>,
                  prune_to_depth
                    (ob\<lparr>od_asks := asks, od_last_update_id := nd_update_id delta,
                        od_sequence := nd_sequence delta,
                        od_delta_count := od_delta_count ob + 1\<rparr>))))"

definition process :: "'d decimal_ops \<Rightarrow> 'd orderbook_delta \<Rightarrow> normalized_delta \<Rightarrow> 'd process_result" where
  "process D ob delta =
     (if (case pair_from_str (nd_symbol delta) of Ok delta_pair \<Rightarrow> delta_pair \<noteq> od_pair ob | Err _ \<Rightarrow> False)
      then (Err (SymbolMismatch (to_canonical (od_pair ob)) (nd_symbol delta)), ob)
      else if nd_is_snapshot delta then apply_snapshot D ob delta
      else apply_delta D ob delta)"

section \<open>Accessors\<close>

definition od_best_bid :: "'d orderbook_delta \<Rightarrow> ('d \<times> 'd) option" where
  "od_best_bid ob = bt_last (od_bids ob)"

definition od_best_ask :: "'d orderbook_delta \<Rightarrow> ('d \<times> 'd) option" where
  "od_best_ask ob = bt_first (od_asks ob)"

definition od_bbo :: "'d orderbook_delta \<Rightarrow> ('d \<times> 'd \<times> 'd \<times> 'd) option" where
  "od_bbo ob = (case (od_best_bid ob, od_best_ask ob) of
     (Some (bp, bs), Some (ap, az)) \<Rightarrow> Some (bp, bs, ap, az) | _ \<Rightarrow> None)"

definition od_mid_price :: "'d decimal_ops \<Rightarrow> 'd orderbook_delta \<Rightarrow> 'd option" where
  "od_mid_price D ob = (case (od_best_bid ob, od_best_ask ob) of
     (Some (bid, _), Some (ask, _)) \<Rightarrow> Some (dec_div D (dec_add D bid ask) (dec_two D)) | _ \<Rightarrow> None)"

definition od_spread :: "'d decimal_ops \<Rightarrow> 'd orderbook_delta \<Rightarrow> 'd option" where
  "od_spread D ob = (case (od_best_bid ob, od_best_ask ob) of
     (Some (bid, _), Some (ask, _)) \<Rightarrow> Some (dec_sub D ask bid) | _ \<Rightarrow> None)"

definition od_spread_bps :: "'d decimal_ops \<Rightarrow> 'd orderbook_delta \<Rightarrow> 'd option" where
  "od_spread_bps D ob =
     (case od_spread D ob of
        None \<Rightarrow> None
      | Some spread \<Rightarrow>
          (case od_mid_price D ob of
             None \<Rightarrow> None
           | Some mid \<Rightarrow>
               if dec_less D (dec_zero D) mid
               then Some (dec_mul D (dec_div D spread mid) (dec_from_int D 10000)) else None))"

definition dec_sum :: "'d decimal_ops \<Rightarrow> 'd list \<Rightarrow> 'd" where
  "dec_sum D xs = foldl (dec_add D) (dec_zero D) xs"

definition od_total_bid_volume :: "'d decimal_ops \<Rightarrow> 'd orderbook_delta \<Rightarrow> 'd" where
  "od_total_bid_volume D ob = dec_sum D (map snd (od_bids ob))"

definition od_total_ask_volume :: "'d decimal_ops \<Rightarrow> 'd orderbook_delta \<Rightarrow> 'd" where
  "od_total_ask_volume D ob = dec_sum D (map snd (od_asks ob))"

definition od_volume_imbalance :: "'d decimal_ops \<Rightarrow> 'd orderbook_delta \<Rightarrow> 'd option" where
  "od_volume_imbalance D ob =
     (let bid_vol = od_total_bid_volume D ob; ask_vol = od_total_ask_volume D ob;
          total = dec_add D bid_vol ask_vol in
      if dec_less D (dec_zero D) total then Some (dec_div D (dec_sub D bid_vol ask_vol) total) else None)"

definition od_top_bids :: "'d orderbook_delta \<Rightarrow> usize \<Rightarrow> ('d \<times> 'd) list" where
  "od_top_bids ob n = take n (rev (od_bids ob))"

definition od_top_asks :: "'d orderbook_delta \<Rightarrow> usize \<Rightarrow> ('d \<times> 'd) list" where
  "od_top_asks ob n = take n (od_asks ob)"

definition od_bid_volume_within :: "'d decimal_ops \<Rightarrow> 'd orderbook_delta \<Rightarrow> 'd \<Rightarrow> 'd" where
  "od_bid_volume_within D ob depth =
     (case od_best_bid ob of
        None \<Rightarrow> dec_zero D
      | Some (best_bid, _) \<Rightarrow>
          dec_sum D (map snd (bt_range_from (dec_val D) (dec_val D (dec_sub D best_bid depth)) (od_bids ob))))"

definition od_ask_volume_within :: "'d decimal_ops \<Rightarrow> 'd orderbook_delta \<Rightarrow> 'd \<Rightarrow> 'd" where
  "od_ask_volume_within D ob depth =
     (case od_best_ask ob of
        None \<Rightarrow> dec_zero D
      | Some (best_ask, _) \<Rightarrow>
          dec_sum D (map snd (bt_range_upto (dec_val D) (dec_val D (dec_add D best_ask depth)) (od_asks ob))))"

definition produce_snapshot :: "'d decimal_ops \<Rightarrow> u64 \<Rightarrow> 'd orderbook_delta \<Rightarrow> orderbook_snapshot" where
  "produce_snapshot D now ob =
     (let str = (\<lambda>(p, s). (dec_to_string D p, dec_to_string D s));
          rounded = (\<lambda>n d. dec_to_string D (dec_round_dp D n d)) in
      \<lparr>os_timestamp_us = now, os_pair = od_pair ob, os_update_id = od_last_update_id ob,
       os_sequence = od_sequence ob, os_delta_count = od_delta_count ob,
       os_bid_depth = length (od_bids ob), os_ask_depth = length (od_asks ob),
       os_mid_price = map_option (rounded 8) (od_mid_price D ob),
       os_spread = map_option (rounded 8) (od_spread D ob),
       os_spread_bps = map_option (rounded 4) (od_spread_bps D ob),
       os_volume_imbalance = map_option (rounded 6) (od_volume_imbalance D ob),
       os_total_bid_volume = rounded 8 (od_total_bid_volume D ob),
       os_total_ask_volume = rounded 8 (od_total_ask_volume D ob),
       os_bids = map str (od_top_bids ob (length (od_bids ob))),
       os_asks = map str (od_top_asks ob (length (od_asks ob)))\<rparr>)"


section \<open>Pruning\<close>

lemma prune_front_drop: "prune_front n m = drop (length m - n) m"
proof (induction n m rule: prune_front.induct)
  case (1 n m)
  show ?case
  proof (cases "n < length m")
    case True
    then have "drop (length m - 1 - n) (tl m) = drop (length m - n) m"
      by (cases m) (auto simp: Suc_diff_le)
    with 1 True show ?thesis
      by (subst prune_front.simps) (simp add: bt_pop_first_def)
  qed (simp add: prune_front.simps)
qed

lemma prune_back_take: "prune_back n m = take n m"
proof (induction n m rule: prune_back.induct)
  case (1 n m)
  show ?case
  proof (cases "n < length m")
    case True
    with 1 show ?thesis
      by (subst prune_back.simps) (simp add: bt_pop_last_def take_butlast)
  qed (simp add: prune_back.simps)
qed

lemmas prune_simps = prune_to_depth_def prune_front_drop prune_back_take

lemma prune_to_depth_sel [simp]:
  "od_last_update_id (prune_to_depth ob) = od_last_update_id ob"
  "od_sequence (prune_to_depth ob) = od_sequence ob"
  "od_pair (prune_to_depth ob) = od_pair ob"
  "od_exchange (prune_to_depth ob) = od_exchange ob"
  "od_initialized (prune_to_depth ob) = od_initialized ob"
  "od_delta_count (prune_to_depth ob) = od_delta_count ob"
  "od_max_depth (prune_to_depth ob) = od_max_depth ob"
  by (simp_all add: prune_to_depth_def split: option.splits)

definition od_wf :: "'d decimal_ops \<Rightarrow> 'd orderbook_delta \<Rightarrow> bool" where
  "od_wf D ob \<longleftrightarrow>
     bt_wf (dec_val D) (od_bids ob) \<and> bt_wf (dec_val D) (od_asks ob)
   \<and> (\<forall>(p, s) \<in> set (od_bids ob) \<union> set (od_asks ob). dec_val D s \<noteq> dec_val D (dec_zero D))"

lemma prune_to_depth_wf: "od_wf D ob \<Longrightarrow> od_wf D (prune_to_depth ob)"
  by (auto simp: od_wf_def prune_simps split: option.splits dest: in_set_dropD in_set_takeD)

lemma prune_to_depth_maps:
  assumes "od_wf D ob"
  shows "bt_map (dec_val D) (od_bids (prune_to_depth ob)) = highest (od_max_depth ob) (bt_map (dec_val D) (od_bids ob))"
    and "bt_map (dec_val D) (od_asks (prune_to_depth ob)) = lowest (od_max_depth ob) (bt_map (dec_val D) (od_asks ob))"
  using assms
  by (auto simp: od_wf_def prune_simps bt_drop_highest bt_take_lowest highest_def lowest_def split: option.splits)

section \<open>Row loops\<close>

definition parse_row :: "'d decimal_ops \<Rightarrow> string \<times> string \<Rightarrow> ('d \<times> 'd) option" where
  "parse_row D = (\<lambda>(p, s). case parse_decimal D p of
       Err _ \<Rightarrow> None
     | Ok price \<Rightarrow> (case parse_decimal D s of Err _ \<Rightarrow> None | Ok sz \<Rightarrow> Some (price, sz)))"

definition parse_rows :: "'d decimal_ops \<Rightarrow> (string \<times> string) list \<Rightarrow> ('d \<times> 'd) list option" where
  "parse_rows D rows = those (map (parse_row D) rows)"

text \<open>The two per-row effects, as batches of the ordered-map contract.\<close>

abbreviation is_zero :: "'d decimal_ops \<Rightarrow> 'd \<Rightarrow> bool" where
  "is_zero D s \<equiv> dec_eq D s (dec_zero D)"

abbreviation row_upd :: "'d decimal_ops \<Rightarrow> 'd \<times> 'd \<Rightarrow> 'd book_side \<Rightarrow> 'd book_side" where
  "row_upd D \<equiv> bt.upd TYPE(rat) (dec_val D) (is_zero D)"

abbreviation delta_batch :: "'d decimal_ops \<Rightarrow> ('d \<times> 'd) list \<Rightarrow> 'd book_side \<Rightarrow> 'd book_side" where
  "delta_batch D es side \<equiv> fold (row_upd D) es side"

abbreviation positive_rows :: "'d decimal_ops \<Rightarrow> ('d \<times> 'd) list \<Rightarrow> ('d \<times> 'd) list" where
  "positive_rows D es \<equiv> filter (\<lambda>(p, s). dec_less D (dec_zero D) s) es"

lemma parse_rows_Nil [simp]: "parse_rows D [] = Some []"
  by (simp add: parse_rows_def)

lemma parse_rows_Cons [simp]:
  "parse_rows D ((p, s) # rows) =
     (case parse_decimal D p of
        Err _ \<Rightarrow> None
      | Ok price \<Rightarrow> (case parse_decimal D s of
          Err _ \<Rightarrow> None
        | Ok sz \<Rightarrow> map_option ((#) (price, sz)) (parse_rows D rows)))"
  by (simp add: parse_rows_def parse_row_def split: result.splits)

lemma apply_level_upd: "fst (apply_level D side price sz) = row_upd D (price, sz) side"
  by (simp add: apply_level_def bt.upd_def split: option.splits)

lemma apply_level_wf [simp]: "bt_wf (dec_val D) side \<Longrightarrow> bt_wf (dec_val D) (fst (apply_level D side price sz))"
  by (simp only: apply_level_upd bt.invar_upd)

lemma delta_rows_side:
  "parse_rows D rows = Some es \<Longrightarrow> snd (delta_rows D rows side c) = delta_batch D es side"
proof (induction D rows side c arbitrary: es rule: delta_rows.induct)
  case (2 D p s rows side m d i)
  then obtain price sz es' where ps: "parse_decimal D p = Ok price" "parse_decimal D s = Ok sz"
    and es: "es = (price, sz) # es'" "parse_rows D rows = Some es'"
    by (auto split: result.splits)
  obtain side' del ins where lv: "apply_level D side price sz = (side', del, ins)"
    by (metis prod_cases3)
  then have "side' = row_upd D (price, sz) side"
    using apply_level_upd [of D side price sz] by simp
  with 2(1) [OF ps lv [symmetric] refl es(2)] show ?case by (simp add: ps lv es)
qed simp

lemma delta_rows_ok: "is_ok (fst (delta_rows D rows side c)) \<longleftrightarrow> parse_rows D rows \<noteq> None"
  by (induction D rows side c rule: delta_rows.induct)
    (auto split: result.splits prod.splits)

lemma delta_rows_outcome:
  "delta_rows D rows side c = (Ok c', side') \<Longrightarrow> \<exists>es. parse_rows D rows = Some es \<and> side' = delta_batch D es side"
  "delta_rows D rows side c = (Err e, side') \<Longrightarrow> parse_rows D rows = None"
  using delta_rows_ok [of D rows side c] delta_rows_side [of D rows _ side c] by auto

lemma snapshot_rows_side:
  "parse_rows D rows = Some es \<Longrightarrow>
     snapshot_rows D rows side n =
       (Ok (n + length (positive_rows D es)),
        fold (\<lambda>(k, v) m. bt_insert (dec_val D) k v m) (positive_rows D es) side)"
  by (induction D rows side n arbitrary: es rule: snapshot_rows.induct)
    (auto split: result.splits)

lemma snapshot_rows_ok: "is_ok (fst (snapshot_rows D rows side n)) \<longleftrightarrow> parse_rows D rows \<noteq> None"
  by (induction D rows side n rule: snapshot_rows.induct) (auto split: result.splits)

text \<open>Every step of a row loop, also one that ends in an error, keeps a side well formed.\<close>

definition side_wf :: "'d decimal_ops \<Rightarrow> 'd book_side \<Rightarrow> bool" where
  "side_wf D side \<longleftrightarrow> bt_wf (dec_val D) side \<and> (\<forall>(p, s) \<in> set side. \<not> is_zero D s)"

lemma od_wf_sides: "od_wf D ob \<longleftrightarrow> side_wf D (od_bids ob) \<and> side_wf D (od_asks ob)"
  by (auto simp: od_wf_def side_wf_def)

lemma side_wf_prune:
  "side_wf D (od_bids ob) \<Longrightarrow> side_wf D (od_bids (prune_to_depth ob))"
  "side_wf D (od_asks ob) \<Longrightarrow> side_wf D (od_asks (prune_to_depth ob))"
  by (auto simp: side_wf_def prune_simps split: option.splits dest: in_set_dropD in_set_takeD)

lemma side_wf_Nil [simp]: "side_wf D []"
  by (simp add: side_wf_def)

lemma side_wf_insert: "side_wf D side \<Longrightarrow> \<not> is_zero D sz \<Longrightarrow> side_wf D (bt_insert (dec_val D) price sz side)"
  by (fastforce simp: side_wf_def dest!: bt_insert_set)

lemma side_wf_apply_level: "side_wf D side \<Longrightarrow> side_wf D (fst (apply_level D side price sz))"
  using bt_remove_subset [of "dec_val D" price side] side_wf_insert [of D side sz price]
  by (auto simp: apply_level_def side_wf_def split: option.splits)

lemma snapshot_rows_wf: "side_wf D side \<Longrightarrow> side_wf D (snd (snapshot_rows D rows side n))"
  by (induction D rows side n rule: snapshot_rows.induct)
    (auto split: result.splits simp: side_wf_insert)

lemma delta_rows_wf: "side_wf D side \<Longrightarrow> side_wf D (snd (delta_rows D rows side c))"
proof (induction D rows side c rule: delta_rows.induct)
  case (2 D p s rows side m d i)
  show ?case
  proof (cases "parse_decimal D p")
    case p: (Ok price)
    show ?thesis
    proof (cases "parse_decimal D s")
      case s: (Ok sz)
      obtain side' del ins where lv: "apply_level D side price sz = (side', del, ins)"
        by (metis prod_cases3)
      then have "side_wf D side'" using side_wf_apply_level [OF "2.prems", of price sz] by simp
      from 2(1) [OF p s lv [symmetric] refl this] show ?thesis by (simp add: p s lv)
    qed (simp add: p "2.prems")
  qed (simp add: "2.prems")
qed simp

text \<open>The counters of a delta account for the change in the number of levels.\<close>

lemma apply_level_length:
  assumes "bt_wf (dec_val D) side" and "apply_level D side price sz = (side', del, ins)"
  shows "length side' + (if del then 1 else 0) = length side + (if ins then 1 else 0)"
proof -
  have "bt_get (dec_val D) price side \<noteq> None \<Longrightarrow> 0 < length side"
    by (auto simp: bt_get_def)
  then show ?thesis
    using assms
    by (auto simp: apply_level_def bt_insert_length_eq bt_remove_length_eq split: if_splits option.splits)
qed

lemma delta_rows_count:
  "bt_wf (dec_val D) side \<Longrightarrow> delta_rows D rows side (m, d, i) = (Ok (m', d', i'), side') \<Longrightarrow>
     m' = m + length rows \<and> length side' + d' + i = length side + i' + d"
proof (induction D rows side "(m, d, i)" arbitrary: m d i rule: delta_rows.induct)
  case (2 D p s rows side m d i)
  then obtain price sz where ps: "parse_decimal D p = Ok price" "parse_decimal D s = Ok sz"
    by (auto split: result.splits)
  obtain side1 del ins where lv: "apply_level D side price sz = (side1, del, ins)"
    by (metis prod_cases3)
  have wf1: "bt_wf (dec_val D) side1"
    using apply_level_wf [OF "2.prems"(1), of price sz] lv by simp
  have "delta_rows D rows side1
      (m + 1, (if del then d + 1 else d), (if ins then i + 1 else i)) = (Ok (m', d', i'), side')"
    using "2.prems"(2) by (simp add: ps lv)
  from 2(1) [OF ps lv [symmetric] refl wf1 this] apply_level_length [OF "2.prems"(1) lv]
  show ?case by (auto split: if_splits)
qed simp


section \<open>Correctness of updates\<close>

abbreviation symbol_fits :: "'d orderbook_delta \<Rightarrow> normalized_delta \<Rightarrow> bool" where
  "symbol_fits ob delta \<equiv>
     (case pair_from_str (nd_symbol delta) of Ok p \<Rightarrow> p = od_pair ob | Err _ \<Rightarrow> True)"

text \<open>The abstract effect of a row: write the size at the price, or clear the price.\<close>

definition level_write :: "'d decimal_ops \<Rightarrow> 'd \<times> 'd \<Rightarrow> (rat \<rightharpoonup> 'd) \<Rightarrow> (rat \<rightharpoonup> 'd)" where
  "level_write D = (\<lambda>(p, s) M. M(dec_val D p := (if is_zero D s then None else Some s)))"

lemma bt_map_delta_batch:
  "bt_wf (dec_val D) side \<Longrightarrow>
     bt_map (dec_val D) (delta_batch D es side) = fold (level_write D) es (bt_map (dec_val D) side)"
  using bt.look_fold_upd [of "dec_val D" side "is_zero D" es]
  by (simp add: level_write_def bt.abs_upd_def)

lemma bt_map_positive_rows:
  "bt_map (dec_val D) (fold (\<lambda>(k, v) m. bt_insert (dec_val D) k v m) (positive_rows D es) side)
     = fold (level_write D) (positive_rows D es) (bt_map (dec_val D) side)"
  by (induction es arbitrary: side) (auto simp: level_write_def bt_simps)

lemma process_cases:
  obtains (mismatch) e where "process D ob delta = (Err e, ob)" "\<not> symbol_fits ob delta"
  | (snapshot) "process D ob delta = apply_snapshot D ob delta" "symbol_fits ob delta" "nd_is_snapshot delta"
  | (delta) "process D ob delta = apply_delta D ob delta" "symbol_fits ob delta" "\<not> nd_is_snapshot delta"
  by (cases "symbol_fits ob delta"; cases "nd_is_snapshot delta")
    (auto simp: process_def split: result.splits)

lemma apply_snapshot_wf: "od_wf D (snd (apply_snapshot D ob delta))"
proof -
  have "side_wf D (snd (snapshot_rows D (nd_bids delta) [] 0))" "side_wf D (snd (snapshot_rows D (nd_asks delta) [] 0))"
    by (rule snapshot_rows_wf, simp)+
  then show ?thesis
    by (auto simp: apply_snapshot_def Let_def side_wf_prune od_wf_sides split: prod.splits result.splits)
qed

lemma apply_delta_wf: "od_wf D ob \<Longrightarrow> od_wf D (snd (apply_delta D ob delta))"
proof -
  assume "od_wf D ob"
  then have "side_wf D (snd (delta_rows D (nd_bids delta) (od_bids ob) c))"
    "side_wf D (snd (delta_rows D (nd_asks delta) (od_asks ob) c))" for c
    by (auto simp: od_wf_sides intro!: delta_rows_wf)
  moreover from this have "delta_rows D (nd_bids delta) (od_bids ob) c = (r, m) \<Longrightarrow> side_wf D m"
    "delta_rows D (nd_asks delta) (od_asks ob) c = (r, m) \<Longrightarrow> side_wf D m" for c r m
    by (metis snd_conv)+
  ultimately show ?thesis
    using \<open>od_wf D ob\<close>
    by (auto simp: apply_delta_def Let_def side_wf_prune od_wf_sides split: prod.splits result.splits)
qed

lemma process_keeps_wf: "od_wf D ob \<Longrightarrow> od_wf D (snd (process D ob delta))"
  by (cases rule: process_cases [of D ob delta]) (simp_all add: apply_snapshot_wf apply_delta_wf)

interpretation ob_engine: fallible_machine "process D" "od_wf D" for D
  by unfold_locales (rule process_keeps_wf)

text \<open>
  C27: whatever sequence of updates a book is fed, accepted or refused, snapshots or deltas, both
  sides stay strictly sorted by price with no level of size zero.
\<close>

theorem process_preserves_wf:
  assumes "od_wf D ob"
  shows "od_wf D (fold (\<lambda>delta ob. snd (process D ob delta)) deltas ob)"
  using ob_engine.run_inv [OF assms, of deltas] by (simp only: ob_engine.run_def)

lemma process_ok_char:
  "is_ok (fst (process D ob delta)) \<longleftrightarrow>
     symbol_fits ob delta \<and> (nd_is_snapshot delta \<or> od_initialized ob)
   \<and> parse_rows D (nd_bids delta) \<noteq> None \<and> parse_rows D (nd_asks delta) \<noteq> None"
proof (cases rule: process_cases [of D ob delta])
  case snapshot
  have "is_ok (fst (apply_snapshot D ob delta)) \<longleftrightarrow>
      is_ok (fst (snapshot_rows D (nd_bids delta) [] 0)) \<and> is_ok (fst (snapshot_rows D (nd_asks delta) [] 0))"
    by (simp add: apply_snapshot_def Let_def split: prod.splits result.splits)
  with snapshot show ?thesis by (simp add: snapshot_rows_ok)
next
  case delta
  have "is_ok (fst (apply_delta D ob delta)) \<longleftrightarrow>
      od_initialized ob \<and> parse_rows D (nd_bids delta) \<noteq> None \<and> parse_rows D (nd_asks delta) \<noteq> None"
    by (auto simp: apply_delta_def Let_def split: prod.splits result.splits dest: delta_rows_outcome)
  with delta show ?thesis by simp
qed auto


lemma process_ok_rows:
  "is_ok (fst (process D ob delta)) \<Longrightarrow> (\<exists>bs. parse_rows D (nd_bids delta) = Some bs) \<and> (\<exists>as. parse_rows D (nd_asks delta) = Some as)"
  by (auto simp: process_ok_char)

text \<open>
  C28: an update is accepted exactly when its symbol does not name another pair, the book has been
  initialised or the update is a snapshot, and every price and size parses.
\<close>

theorem process_ok_iff:
  "is_ok (fst (process D ob delta)) \<longleftrightarrow>
     symbol_fits ob delta \<and> (nd_is_snapshot delta \<or> od_initialized ob)
   \<and> parse_rows D (nd_bids delta) \<noteq> None \<and> parse_rows D (nd_asks delta) \<noteq> None"
  by (rule process_ok_char)

lemma process_delta_maps:
  assumes "od_wf D ob" and "\<not> nd_is_snapshot delta" and "process D ob delta = (Ok u, ob')"
  shows "\<exists>bs as. parse_rows D (nd_bids delta) = Some bs \<and> parse_rows D (nd_asks delta) = Some as
    \<and> bt_map (dec_val D) (od_bids ob')
        = highest (od_max_depth ob) (fold (level_write D) bs (bt_map (dec_val D) (od_bids ob)))
    \<and> bt_map (dec_val D) (od_asks ob')
        = lowest (od_max_depth ob) (fold (level_write D) as (bt_map (dec_val D) (od_asks ob)))"
proof -
  have eq: "apply_delta D ob delta = (Ok u, ob')"
    using assms(2,3) by (cases rule: process_cases [of D ob delta]) simp_all
  from eq obtain bs as ob1 where
    rows: "parse_rows D (nd_bids delta) = Some bs" "parse_rows D (nd_asks delta) = Some as"
    and ob1: "ob' = prune_to_depth ob1" "od_max_depth ob1 = od_max_depth ob"
      "od_bids ob1 = delta_batch D bs (od_bids ob)" "od_asks ob1 = delta_batch D as (od_asks ob)"
    by (auto simp: apply_delta_def Let_def split: if_splits prod.splits result.splits dest!: delta_rows_outcome)
  have "side_wf D (od_bids ob1)" "side_wf D (od_asks ob1)"
    using assms(1) delta_rows_wf rows ob1
    by (metis delta_rows_side od_wf_sides)+
  then have "od_wf D ob1" by (simp add: od_wf_sides)
  from prune_to_depth_maps [OF this] show ?thesis
    using assms(1) rows ob1 by (simp add: bt_map_delta_batch od_wf_def)
qed

text \<open>
  C25: an accepted delta implements the abstract book: on each side the rows write or clear their
  prices in order, and only the best levels within the configured depth remain (the highest bids,
  the lowest asks).
\<close>

theorem process_delta_refines:
  assumes "od_wf D ob" and "\<not> nd_is_snapshot delta" and "process D ob delta = (Ok u, ob')"
  shows "\<exists>bs as. parse_rows D (nd_bids delta) = Some bs \<and> parse_rows D (nd_asks delta) = Some as
    \<and> bt_map (dec_val D) (od_bids ob')
        = highest (od_max_depth ob) (fold (level_write D) bs (bt_map (dec_val D) (od_bids ob)))
    \<and> bt_map (dec_val D) (od_asks ob')
        = lowest (od_max_depth ob) (fold (level_write D) as (bt_map (dec_val D) (od_asks ob)))"
  by (rule process_delta_maps [OF assms])

lemma process_snapshot_maps:
  assumes "nd_is_snapshot delta" and "process D ob delta = (Ok u, ob')"
  shows "\<exists>bs as. parse_rows D (nd_bids delta) = Some bs \<and> parse_rows D (nd_asks delta) = Some as
    \<and> bt_map (dec_val D) (od_bids ob')
        = highest (od_max_depth ob) (fold (level_write D) (positive_rows D bs) Map.empty)
    \<and> bt_map (dec_val D) (od_asks ob')
        = lowest (od_max_depth ob) (fold (level_write D) (positive_rows D as) Map.empty)
    \<and> od_initialized ob' \<and> od_delta_count ob' = 0
    \<and> od_last_update_id ob' = nd_update_id delta \<and> od_sequence ob' = nd_sequence delta"
proof -
  have eq: "apply_snapshot D ob delta = (Ok u, ob')"
    using assms by (cases rule: process_cases [of D ob delta]) simp_all
  have "is_ok (fst (process D ob delta))" using assms by simp
  then obtain bs as where
    rows: "parse_rows D (nd_bids delta) = Some bs" "parse_rows D (nd_asks delta) = Some as"
    by (auto dest: process_ok_rows)
  let ?fill = "\<lambda>es. fold (\<lambda>(k, v) m. bt_insert (dec_val D) k v m) (positive_rows D es) []"
  obtain ob1 where
    ob1: "ob' = prune_to_depth ob1" "od_max_depth ob1 = od_max_depth ob"
      "od_bids ob1 = ?fill bs" "od_asks ob1 = ?fill as"
      "od_initialized ob1" "od_delta_count ob1 = 0"
      "od_last_update_id ob1 = nd_update_id delta" "od_sequence ob1 = nd_sequence delta"
    using eq by (auto simp: apply_snapshot_def Let_def snapshot_rows_side [OF rows(1)] snapshot_rows_side [OF rows(2)])
  have "side_wf D (?fill bs)" "side_wf D (?fill as)"
    using snapshot_rows_wf [of D "[]"] snapshot_rows_side [OF rows(1)] snapshot_rows_side [OF rows(2)]
    by (metis side_wf_Nil snd_conv)+
  then have "od_wf D ob1" by (simp add: od_wf_sides ob1)
  from prune_to_depth_maps [OF this] show ?thesis
    using rows ob1 bt_map_positive_rows [of D _ "[]"] by simp
qed

text \<open>
  An accepted snapshot resets the book: both sides hold exactly the rows of positive size,
  cut to the configured depth, whatever the book held before, and the counters restart.
\<close>

lemma process_snapshot_resets:
  assumes "nd_is_snapshot delta" and "process D ob delta = (Ok u, ob')"
  shows "\<exists>bs as. parse_rows D (nd_bids delta) = Some bs \<and> parse_rows D (nd_asks delta) = Some as
    \<and> bt_map (dec_val D) (od_bids ob')
        = highest (od_max_depth ob) (fold (level_write D) (positive_rows D bs) Map.empty)
    \<and> bt_map (dec_val D) (od_asks ob')
        = lowest (od_max_depth ob) (fold (level_write D) (positive_rows D as) Map.empty)
    \<and> od_initialized ob' \<and> od_delta_count ob' = 0
    \<and> od_last_update_id ob' = nd_update_id delta \<and> od_sequence ob' = nd_sequence delta"
  by (rule process_snapshot_maps [OF assms])

text \<open>
  After an accepted update a book with a configured depth holds at most that many levels on
  each side.
\<close>

lemma process_depth_bound:
  assumes "process D ob delta = (Ok u, ob')" and "od_max_depth ob = Some n"
  shows "length (od_bids ob') \<le> n \<and> length (od_asks ob') \<le> n"
proof -
  from assms obtain ob1 where "ob' = prune_to_depth ob1" "od_max_depth ob1 = Some n"
    by (cases rule: process_cases [of D ob delta])
      (auto simp: apply_snapshot_def apply_delta_def Let_def split: if_splits prod.splits result.splits)
  then show ?thesis by (simp add: prune_simps)
qed

text \<open>
  Without a depth limit the counters an accepted delta reports account for the book's size:
  one modification per row, and old levels plus insertions equal new levels plus deletions.
\<close>

lemma delta_report_accounts:
  assumes "od_wf D ob" and "od_max_depth ob = None" and "\<not> nd_is_snapshot delta"
    and "process D ob delta = (Ok u, ob')"
  shows "ou_bids_modified u = length (nd_bids delta) \<and> ou_asks_modified u = length (nd_asks delta)
    \<and> length (od_bids ob') + length (od_asks ob') + ou_levels_deleted u
        = length (od_bids ob) + length (od_asks ob) + ou_levels_inserted u"
proof -
  have eq: "apply_delta D ob delta = (Ok u, ob')"
    using assms(3,4) by (cases rule: process_cases [of D ob delta]) simp_all
  from eq obtain bm d1 i1 am d2 i2 bids asks where
    rows: "delta_rows D (nd_bids delta) (od_bids ob) (0, 0, 0) = (Ok (bm, d1, i1), bids)"
      "delta_rows D (nd_asks delta) (od_asks ob) (0, d1, i1) = (Ok (am, d2, i2), asks)"
    and u: "ou_bids_modified u = bm" "ou_asks_modified u = am" "ou_levels_deleted u = d2"
      "ou_levels_inserted u = i2" "od_bids ob' = bids" "od_asks ob' = asks"
    using assms(2)
    by (auto simp: apply_delta_def Let_def prune_to_depth_def split: if_splits prod.splits result.splits)
  from assms(1) have "bt_wf (dec_val D) (od_bids ob)" "bt_wf (dec_val D) (od_asks ob)"
    by (simp_all add: od_wf_def)
  from delta_rows_count [OF this(1) rows(1)] delta_rows_count [OF this(2) rows(2)] u
  show ?thesis by simp
qed

text \<open>
  A refused snapshot is not undone.  When the first bid row of a snapshot does not parse, both
  sides are empty afterwards while the book still counts as initialised, with its old sequence.
\<close>

lemma refused_snapshot_empties_book:
  assumes "nd_is_snapshot delta" and "symbol_fits ob delta"
    and "nd_bids delta = (p, s) # rows" and "\<not> is_ok (parse_decimal D p)"
  shows "\<exists>e. process D ob delta = (Err e, ob\<lparr>od_bids := [], od_asks := []\<rparr>)"
proof -
  from assms(4) obtain e where "parse_decimal D p = Err e" by (cases "parse_decimal D p") simp_all
  with assms show ?thesis
    by (cases rule: process_cases [of D ob delta]) (simp_all add: apply_snapshot_def Let_def)
qed


section \<open>Persisted snapshots\<close>

text \<open>A persisted snapshot as the update that would load it again.\<close>

definition delta_of_snapshot :: "orderbook_snapshot \<Rightarrow> normalized_delta" where
  "delta_of_snapshot os =
     \<lparr>nd_symbol = to_canonical (os_pair os), nd_bids = os_bids os, nd_asks = os_asks os,
      nd_update_id = os_update_id os, nd_sequence = os_sequence os,
      nd_source_ts_us = os_timestamp_us os, nd_local_ts_us = 0, nd_rtt_us = 0, nd_checksum = None,
      nd_orders = [], nd_is_snapshot = True\<rparr>"

definition side_vals :: "'d decimal_ops \<Rightarrow> 'd book_side \<Rightarrow> (rat \<times> rat) list" where
  "side_vals D = map (\<lambda>(p, s). (dec_val D p, dec_val D s))"

lemma parse_printed_rows:
  assumes "dec_print_parse D"
  shows "\<exists>es. parse_rows D (map (\<lambda>(p, s). (dec_to_string D p, dec_to_string D s)) side) = Some es
            \<and> side_vals D es = side_vals D side"
proof (induction side)
  case (Cons e side)
  obtain p s where e: "e = (p, s)" by fastforce
  from assms obtain p' s' where
    "dec_from_str D (dec_to_string D p) = Ok p'" "dec_val D p' = dec_val D p"
    "dec_from_str D (dec_to_string D s) = Ok s'" "dec_val D s' = dec_val D s"
    unfolding dec_print_parse_def by metis
  with Cons e show ?case by (auto simp: parse_decimal_def side_vals_def)
qed (simp add: side_vals_def)

lemma side_vals_wf: "side_vals D a = side_vals D b \<Longrightarrow> bt_wf (dec_val D) a = bt_wf (dec_val D) b"
proof -
  assume "side_vals D a = side_vals D b"
  then have "map fst (side_vals D a) = map fst (side_vals D b)" by simp
  then show ?thesis by (simp add: side_vals_def bt_wf_def comp_def case_prod_unfold)
qed

lemma side_vals_positive:
  assumes "side_vals D a = side_vals D b" and "\<forall>(p, s) \<in> set b. dec_less D (dec_zero D) s"
  shows "positive_rows D a = a"
proof -
  have "snd ` set (side_vals D a) = snd ` set (side_vals D b)" using assms(1) by simp
  then have "(\<lambda>e. dec_val D (snd e)) ` set a = (\<lambda>e. dec_val D (snd e)) ` set b"
    by (simp add: side_vals_def image_image case_prod_unfold)
  with assms(2) have "\<forall>e \<in> set a. dec_less D (dec_zero D) (snd e)"
    by (metis (no_types, lifting) case_prod_unfold imageE imageI)
  then show ?thesis by (simp add: filter_id_conv case_prod_unfold)
qed

lemma side_vals_rev: "side_vals D (rev a) = rev (side_vals D a)"
  by (simp add: side_vals_def rev_map)

text \<open>
  C29: a persisted snapshot loads back.  Feeding the printed levels of a book of positive sizes into
  an unlimited book of the same pair is accepted and gives the same prices and sizes on both sides.
\<close>

theorem persisted_snapshot_roundtrip:
  assumes "dec_print_parse D" and "od_wf D ob" and "pair_wf (od_pair ob)"
    and "\<forall>(p, s) \<in> set (od_bids ob) \<union> set (od_asks ob). dec_less D (dec_zero D) s"
    and "od_pair ob0 = od_pair ob" and "od_max_depth ob0 = None"
  shows "\<exists>u ob'. process D ob0 (delta_of_snapshot (produce_snapshot D now ob)) = (Ok u, ob')
    \<and> side_vals D (od_bids ob') = side_vals D (od_bids ob)
    \<and> side_vals D (od_asks ob') = side_vals D (od_asks ob)
    \<and> od_last_update_id ob' = od_last_update_id ob \<and> od_sequence ob' = od_sequence ob"
proof -
  let ?d = "delta_of_snapshot (produce_snapshot D now ob)"
  obtain bs where bs: "parse_rows D (nd_bids ?d) = Some bs" "side_vals D bs = side_vals D (rev (od_bids ob))"
    using parse_printed_rows [OF assms(1), of "rev (od_bids ob)"]
    by (auto simp: delta_of_snapshot_def produce_snapshot_def Let_def od_top_bids_def)
  obtain as where as: "parse_rows D (nd_asks ?d) = Some as" "side_vals D as = side_vals D (od_asks ob)"
    using parse_printed_rows [OF assms(1), of "od_asks ob"]
    by (auto simp: delta_of_snapshot_def produce_snapshot_def Let_def od_top_asks_def)
  have "side_vals D (rev bs) = side_vals D (od_bids ob)" using bs(2) by (simp add: side_vals_rev)
  then have "bt_wf (dec_val D) (rev bs)" "bt_wf (dec_val D) as"
    using as(2) assms(2) side_vals_wf by (auto simp: od_wf_def)
  then have col: "bt_collect (dec_val D) bs = rev bs" "bt_collect (dec_val D) as = as"
    using bt_collect_rev_sorted [of "dec_val D" "rev bs"] bt_collect_sorted by auto
  have pos: "positive_rows D bs = bs" "positive_rows D as = as"
    using side_vals_positive [OF bs(2)] side_vals_positive [OF as(2)] assms(4) by auto
  have fits: "symbol_fits ob0 ?d"
    using assms(5) from_canonical_to_canonical [OF assms(3)]
    by (simp add: delta_of_snapshot_def produce_snapshot_def Let_def pair_from_str_def)
  have "process D ob0 ?d = apply_snapshot D ob0 ?d"
    using fits by (cases rule: process_cases [of D ob0 ?d]) (auto simp: delta_of_snapshot_def)
  then show ?thesis
    using \<open>side_vals D (rev bs) = side_vals D (od_bids ob)\<close> as(2) assms(6)
    by (simp add: apply_snapshot_def Let_def snapshot_rows_side [OF bs(1)] snapshot_rows_side [OF as(1)] pos
        col [unfolded bt_collect_def] prune_to_depth_def)
      (simp add: delta_of_snapshot_def produce_snapshot_def Let_def)
qed


section \<open>Concrete runs\<close>

definition sample_book :: "usize option \<Rightarrow> xdec orderbook_delta" where
  "sample_book cap =
     \<lparr>od_bids = [((100, 0), (1, 0)), ((101, 0), (2, 0))], od_asks = [((102, 0), (3, 0))],
      od_last_update_id = 5, od_sequence = 5, od_pair = \<lparr>tp_base = ''BTC'', tp_quote = ''USDT''\<rparr>,
      od_exchange = ''bybit'', od_initialized = True, od_delta_count = 0, od_max_depth = cap\<rparr>"

definition sample_delta :: "bool \<Rightarrow> normalized_delta" where
  "sample_delta snap =
     \<lparr>nd_symbol = ''BTCUSDT'', nd_bids = [(''101'', ''0''), (''99.5'', ''4'')],
      nd_asks = [(''102.5'', ''1''), (''103'', ''2'')], nd_update_id = 6, nd_sequence = 6,
      nd_source_ts_us = 1000, nd_local_ts_us = 1001, nd_rtt_us = 0, nd_checksum = None,
      nd_orders = [], nd_is_snapshot = snap\<rparr>"

lemma sample_book_wf: "od_wf exact_decimal (sample_book cap)"
  by (simp add: od_wf_def sample_book_def bt_wf_def xval_def)

lemma sample_parse:
  "parse_rows exact_decimal (nd_bids (sample_delta snap)) = Some [((101, 0), (0, 0)), ((995, 1), (4, 0))]"
  "parse_rows exact_decimal (nd_asks (sample_delta snap)) = Some [((1025, 1), (1, 0)), ((103, 0), (2, 0))]"
  "symbol_fits (sample_book cap) (sample_delta snap)"
proof -
  have "xparse ''101'' = Some (101, 0)" "xparse ''0'' = Some (0, 0)" "xparse ''99.5'' = Some (995, 1)"
    "xparse ''4'' = Some (4, 0)" "xparse ''102.5'' = Some (1025, 1)" "xparse ''1'' = Some (1, 0)"
    "xparse ''103'' = Some (103, 0)" "xparse ''2'' = Some (2, 0)"
    by code_simp+
  then show "parse_rows exact_decimal (nd_bids (sample_delta snap)) = Some [((101, 0), (0, 0)), ((995, 1), (4, 0))]"
    "parse_rows exact_decimal (nd_asks (sample_delta snap)) = Some [((1025, 1), (1, 0)), ((103, 0), (2, 0))]"
    by (simp_all add: sample_delta_def parse_decimal_def)
  have "pair_from_str ''BTCUSDT'' = Ok \<lparr>tp_base = ''BTC'', tp_quote = ''USDT''\<rparr>" by code_simp
  then show "symbol_fits (sample_book cap) (sample_delta snap)"
    by (simp add: sample_delta_def sample_book_def)
qed


lemma sample_process: "\<exists>u ob'. process exact_decimal (sample_book cap) (sample_delta snap) = (Ok u, ob')"
proof -
  have "is_ok (fst (process exact_decimal (sample_book cap) (sample_delta snap)))"
    using sample_parse by (simp only: process_ok_char) (simp add: sample_book_def)
  then show ?thesis by (auto simp: is_ok_iff) (metis prod.collapse)
qed

theorem process_preserves_wf_witness:
  "od_wf exact_decimal (snd (process exact_decimal (snd (process exact_decimal (sample_book (Some 2))
     (sample_delta False))) (sample_delta True)))"
  using process_preserves_wf [OF sample_book_wf, of "[sample_delta False, sample_delta True]"] by simp

theorem process_delta_refines_witness:
  "\<exists>u ob'. process exact_decimal (sample_book None) (sample_delta False) = (Ok u, ob')
     \<and> bt_map (dec_val exact_decimal) (od_bids ob') 101 = None
     \<and> bt_map (dec_val exact_decimal) (od_asks ob') 103 = Some (2, 0)"
proof -
  obtain u ob' where run: "process exact_decimal (sample_book None) (sample_delta False) = (Ok u, ob')"
    using sample_process by blast
  have "\<not> nd_is_snapshot (sample_delta False)" by (simp add: sample_delta_def)
  from process_delta_refines [OF sample_book_wf this run] show ?thesis
    by (intro exI [of _ u] exI [of _ ob'] conjI run) (simp_all add: sample_parse sample_book_def highest_def lowest_def level_write_def xval_def)
qed

theorem persisted_snapshot_roundtrip_witness:
  "\<exists>u ob'. process exact_decimal (od_new \<lparr>tp_base = ''BTC'', tp_quote = ''USDT''\<rparr>)
       (delta_of_snapshot (produce_snapshot exact_decimal 9 (sample_book None))) = (Ok u, ob')
     \<and> side_vals exact_decimal (od_bids ob') = [(100, 1), (101, 2)]"
proof -
  have "pair_wf (od_pair (sample_book None))" by code_simp
  then have "\<exists>u ob'. process exact_decimal (od_new \<lparr>tp_base = ''BTC'', tp_quote = ''USDT''\<rparr>)
       (delta_of_snapshot (produce_snapshot exact_decimal 9 (sample_book None))) = (Ok u, ob')
     \<and> side_vals exact_decimal (od_bids ob') = side_vals exact_decimal (od_bids (sample_book None))"
    using persisted_snapshot_roundtrip [OF exact_decimal_print_parse sample_book_wf [of None],
        of "od_new \<lparr>tp_base = ''BTC'', tp_quote = ''USDT''\<rparr>" 9]
    by (auto simp: sample_book_def od_new_def xval_def)
  then show ?thesis by (simp add: sample_book_def side_vals_def xval_def)
qed

end
