(* ===== verification/Orderbook_Core.thy ===== *)
theory Orderbook_Core
  imports Orderbook_Delta
begin

text \<open>
  The level-and-order book \<open>Orderbook\<close> (\<open>aetelier-types/src/orderbooks/core.rs\<close>): construction,
  accessors, the level and order operations with the standard library's binary search, the two ways
  of filling it (from a normalised snapshot and from an \<open>OrderbookDelta\<close>), the loading targets of
  \<open>orderbooks/target.rs\<close> and the multi-source row \<open>MarketSnapshot\<close> (\<open>snapshots/market.rs\<close>).

  Not modelled: \<open>random\<close> and the \<open>f64\<close> summaries (\<open>describe\<close>, \<open>trade_volume\<close>,
  \<open>liquidation_notional\<close>), which add floating-point numbers.
\<close>

section \<open>Data\<close>

type_synonym 'd level_side = "('d, 'd level) btree"

record 'd orderbook =
  ob_id :: u32
  ob_ts_us :: u64
  ob_source_ts_us :: u64
  ob_local_ts_us :: u64
  ob_rtt_us :: u64
  ob_pair :: trading_pair
  ob_exchange :: string
  ob_bids :: "'d level_side"
  ob_asks :: "'d level_side"

definition ob_new :: "u32 \<Rightarrow> u64 \<Rightarrow> trading_pair \<Rightarrow> string \<Rightarrow> 'd level_side \<Rightarrow> 'd level_side \<Rightarrow> 'd orderbook" where
  "ob_new oid ts pair exchange bids asks =
     \<lparr>ob_id = oid, ob_ts_us = ts, ob_source_ts_us = 0, ob_local_ts_us = 0, ob_rtt_us = 0,
      ob_pair = pair, ob_exchange = exchange, ob_bids = bids, ob_asks = asks\<rparr>"

definition ob_from_levels ::
  "'d decimal_ops \<Rightarrow> u32 \<Rightarrow> u64 \<Rightarrow> trading_pair \<Rightarrow> string \<Rightarrow> 'd level list \<Rightarrow> 'd level list \<Rightarrow> 'd orderbook"
where
  "ob_from_levels D oid ts pair exchange bids asks =
     ob_new oid ts pair exchange
       (bt_collect (dec_val D) (map (\<lambda>l. (level_price l, l)) bids))
       (bt_collect (dec_val D) (map (\<lambda>l. (level_price l, l)) asks))"

definition ob_empty :: "trading_pair \<Rightarrow> string \<Rightarrow> 'd orderbook" where
  "ob_empty pair exchange = ob_new 0 0 pair exchange [] []"

section \<open>Accessors\<close>

definition ob_best_bid :: "'d orderbook \<Rightarrow> 'd option" where
  "ob_best_bid ob = map_option fst (bt_last (ob_bids ob))"

definition ob_best_ask :: "'d orderbook \<Rightarrow> 'd option" where
  "ob_best_ask ob = map_option fst (bt_first (ob_asks ob))"

definition ob_mid_price :: "'d decimal_ops \<Rightarrow> 'd orderbook \<Rightarrow> 'd option" where
  "ob_mid_price D ob = (case (ob_best_bid ob, ob_best_ask ob) of
     (Some b, Some a) \<Rightarrow> Some (dec_div D (dec_add D b a) (dec_two D)) | _ \<Rightarrow> None)"

definition ob_spread :: "'d decimal_ops \<Rightarrow> 'd orderbook \<Rightarrow> 'd option" where
  "ob_spread D ob = (case (ob_best_bid ob, ob_best_ask ob) of
     (Some b, Some a) \<Rightarrow> Some (dec_sub D a b) | _ \<Rightarrow> None)"

section \<open>Levels\<close>

definition find_level :: "'d decimal_ops \<Rightarrow> 'd orderbook \<Rightarrow> 'd \<Rightarrow> (order_side \<times> 'd level, orderbook_error) result" where
  "find_level D ob price =
     (case bt_get (dec_val D) price (ob_bids ob) of
        Some l \<Rightarrow> Ok (Bids, l)
      | None \<Rightarrow>
          (case bt_get (dec_val D) price (ob_asks ob) of
             Some l \<Rightarrow> Ok (Asks, l)
           | None \<Rightarrow> Err (LevelNotFound (dec_to_string D price))))"

definition retrieve_level :: "'d decimal_ops \<Rightarrow> 'd orderbook \<Rightarrow> 'd \<Rightarrow> ('d level, orderbook_error) result" where
  "retrieve_level D ob price = result_bind (find_level D ob price) (\<lambda>(side, l). Ok l)"

definition delete_level ::
  "'d decimal_ops \<Rightarrow> 'd orderbook \<Rightarrow> 'd \<Rightarrow> (unit, orderbook_error) result \<times> 'd orderbook"
where
  "delete_level D ob price =
     (if bt_get (dec_val D) price (ob_bids ob) \<noteq> None
      then (Ok (), ob\<lparr>ob_bids := bt_remove (dec_val D) price (ob_bids ob)\<rparr>)
      else if bt_get (dec_val D) price (ob_asks ob) \<noteq> None
      then (Ok (), ob\<lparr>ob_asks := bt_remove (dec_val D) price (ob_asks ob)\<rparr>)
      else (Err (LevelNotFound (dec_to_string D price)), ob))"

definition replace_level :: "'d decimal_ops \<Rightarrow> 'd level \<Rightarrow> 'd level_side \<Rightarrow> 'd level_side" where
  "replace_level D l side =
     (let lid = unwrap_or (map_option level_id (bt_get (dec_val D) (level_price l) side)) (level_id l) in
      bt_insert (dec_val D) (level_price l)
        (level_new lid (level_side l) (level_price l) (level_volume l) (level_orders l)) side)"

definition insert_level ::
  "'d decimal_ops \<Rightarrow> 'd orderbook \<Rightarrow> 'd level \<Rightarrow> (unit, orderbook_error) result \<times> 'd orderbook"
where
  "insert_level D ob l =
     (case level_side l of
        Bids \<Rightarrow> (Ok (), ob\<lparr>ob_bids := replace_level D l (ob_bids ob)\<rparr>)
      | Asks \<Rightarrow> (Ok (), ob\<lparr>ob_asks := replace_level D l (ob_asks ob)\<rparr>))"

section \<open>Orders\<close>

text \<open>
  \<open>slice::binary_search_by\<close> of the standard library, on the keys: the loop halves a window
  \<open>[base, base + size)\<close> and the last comparison decides.  \<open>Err\<close> carries the insertion point.
\<close>

function bsearch_loop :: "'k::linorder list \<Rightarrow> 'k \<Rightarrow> nat \<Rightarrow> nat \<Rightarrow> nat" where
  "bsearch_loop ks key base sz =
     (if sz > 1 then
        let half = sz div 2; mid = base + half in
        bsearch_loop ks key (if key < ks ! mid then base else mid) (sz - half)
      else base)"
  by auto
termination
  by (relation "measure (\<lambda>(ks, key, base, sz). sz)") auto

declare bsearch_loop.simps [simp del]

definition binary_search :: "'k::linorder list \<Rightarrow> 'k \<Rightarrow> (nat, nat) result" where
  "binary_search ks key =
     (if ks = [] then Err 0
      else
        let base = bsearch_loop ks key 0 (length ks) in
        if ks ! base = key then Ok base else Err (if ks ! base < key then base + 1 else base))"

definition order_index :: "'d level \<Rightarrow> u64 \<Rightarrow> (nat, orderbook_error) result" where
  "order_index l ts = map_err (\<lambda>_. OrderNotFound ts) (binary_search (map order_ts_us (level_orders l)) ts)"

definition find_order ::
  "'d decimal_ops \<Rightarrow> 'd orderbook \<Rightarrow> 'd \<Rightarrow> u64 \<Rightarrow> (order_side \<times> 'd level \<times> nat, orderbook_error) result"
where
  "find_order D ob price ts =
     result_bind (find_level D ob price) (\<lambda>(side, l).
       if level_orders l = [] then Err (OrderNotFound ts)
       else result_bind (order_index l ts) (\<lambda>i. Ok (side, l, i)))"

definition retrieve_order :: "'d decimal_ops \<Rightarrow> 'd orderbook \<Rightarrow> 'd \<Rightarrow> u64 \<Rightarrow> (order, orderbook_error) result" where
  "retrieve_order D ob price ts =
     result_bind (find_order D ob price ts) (\<lambda>(_, l, i). Ok (level_orders l ! i))"

text \<open>
  \<open>get_mut(&price)\<close> and a write through the reference: the level at the price is replaced in
  place, its key is kept.
\<close>

definition put_level :: "'d decimal_ops \<Rightarrow> order_side \<Rightarrow> 'd \<Rightarrow> 'd level \<Rightarrow> 'd orderbook \<Rightarrow> 'd orderbook" where
  "put_level D side price l ob =
     (case side of
        Bids \<Rightarrow> ob\<lparr>ob_bids := bt_insert (dec_val D) price l (ob_bids ob)\<rparr>
      | Asks \<Rightarrow> ob\<lparr>ob_asks := bt_insert (dec_val D) price l (ob_asks ob)\<rparr>)"

definition delete_order ::
  "'d decimal_ops \<Rightarrow> 'd orderbook \<Rightarrow> 'd \<Rightarrow> u64 \<Rightarrow> (unit, orderbook_error) result \<times> 'd orderbook"
where
  "delete_order D ob price ts =
     (case find_order D ob price ts of
        Err e \<Rightarrow> (Err e, ob)
      | Ok (side, l, _) \<Rightarrow>
          (case order_index l ts of
             Err e \<Rightarrow> (Err e, ob)
           | Ok i \<Rightarrow>
               (Ok (), put_level D side price
                  (l\<lparr>level_orders := take i (level_orders l) @ drop (Suc i) (level_orders l)\<rparr>) ob)))"

fun build_error_to_string :: "build_error \<Rightarrow> string" where
  "build_error_to_string (MissingField f) = ''missing required field: '' @ f"
| "build_error_to_string (InvalidField f r) = ''invalid '' @ f @ '': '' @ r"

definition insert_order ::
  "'d decimal_ops \<Rightarrow> u64 \<Rightarrow> 'd orderbook \<Rightarrow> 'd \<Rightarrow> f64 \<Rightarrow> (unit, orderbook_error) result \<times> 'd orderbook"
where
  "insert_order D now ob price amount =
     (case find_level D ob price of
        Err e \<Rightarrow> (Err e, ob)
      | Ok (side, l) \<Rightarrow>
          (case order_build now
                  \<lparr>obld_ts_us = Some now, obld_type = Some Limit, obld_side = Some side,
                   obld_price = Some (decimal_to_f64 D price), obld_amount = Some amount\<rparr> of
             Err e \<Rightarrow> (Err (BuilderError (build_error_to_string e)), ob)
           | Ok ord \<Rightarrow>
               (Ok (), put_level D side price (l\<lparr>level_orders := level_orders l @ [ord]\<rparr>) ob)))"

definition modify_order ::
  "'d decimal_ops \<Rightarrow> u64 \<Rightarrow> 'd orderbook \<Rightarrow> u64 \<Rightarrow> 'd \<Rightarrow> f64 \<Rightarrow> (order, orderbook_error) result \<times> 'd orderbook"
where
  "modify_order D now ob ts price amount =
     (case find_order D ob price ts of
        Err e \<Rightarrow> (Err e, ob)
      | Ok (side, l, _) \<Rightarrow>
          (case order_index l ts of
             Err e \<Rightarrow> (Err e, ob)
           | Ok i \<Rightarrow>
               let order_ref = level_orders l ! i in
               (case order_price order_ref of
                  None \<Rightarrow> (Err (InvalidInput ''Cannot modify order: price is None''), ob)
                | Some px \<Rightarrow>
                    (case order_build now
                            \<lparr>obld_ts_us = Some (order_ts_us order_ref), obld_type = Some (order_type order_ref),
                             obld_side = Some (order_side order_ref), obld_price = Some px,
                             obld_amount = Some amount\<rparr> of
                       Err e \<Rightarrow> (Err (BuilderError (build_error_to_string e)), ob)
                     | Ok new_order \<Rightarrow>
                         (Ok new_order,
                          put_level D side price (l\<lparr>level_orders := (level_orders l)[i := new_order]\<rparr>) ob)))))"

section \<open>Filling the book\<close>

abbreviation quoted :: "string \<Rightarrow> string" where
  "quoted s \<equiv> CHR 0x27 # s @ [CHR 0x27]"

fun snapshot_levels ::
  "'d decimal_ops \<Rightarrow> order_side \<Rightarrow> string \<Rightarrow> nat \<Rightarrow> (string \<times> string) list \<Rightarrow> 'd level_side
     \<Rightarrow> ('d level_side, orderbook_error) result"
where
  "snapshot_levels D side nm i [] acc = Ok acc"
| "snapshot_levels D side nm i ((p, s) # rows) acc =
     (case dec_from_str D p of
        Err e \<Rightarrow> Err (ParseError (nm @ '' price '' @ quoted p @ '': '' @ e))
      | Ok price \<Rightarrow>
          (case dec_from_str D s of
             Err e \<Rightarrow> Err (ParseError (nm @ '' size '' @ quoted s @ '': '' @ e))
           | Ok sz \<Rightarrow>
               snapshot_levels D side nm (Suc i) rows
                 (bt_insert (dec_val D) price (level_new (of_nat i) side price sz []) acc)))"


definition snapshot_pair :: "string \<Rightarrow> string \<Rightarrow> (trading_pair, orderbook_error) result" where
  "snapshot_pair symbol exchange =
     ok_or
       (or_else (case exchange_from_str_loose exchange of
                   Some ex \<Rightarrow> from_exchange_symbol symbol ex | None \<Rightarrow> None)
                (case pair_from_str symbol of Ok p \<Rightarrow> Some p | Err _ \<Rightarrow> None))
       (ParseError (''cannot parse trading pair from '' @ quoted symbol @ '' (exchange: '' @ exchange @ '')''))"

definition from_normalized_snapshot ::
  "'d decimal_ops \<Rightarrow> normalized_delta \<Rightarrow> string \<Rightarrow> u64 \<Rightarrow> ('d orderbook, orderbook_error) result"
where
  "from_normalized_snapshot D delta exchange ts =
     result_bind (snapshot_pair (nd_symbol delta) exchange) (\<lambda>pair.
     result_bind (snapshot_levels D Bids ''bid'' 0 (nd_bids delta) []) (\<lambda>bids.
     result_bind (snapshot_levels D Asks ''ask'' 0 (nd_asks delta) []) (\<lambda>asks.
       Ok (ob_new 0 ts pair exchange bids asks))))"

definition ranked_levels :: "order_side \<Rightarrow> ('d \<times> 'd) list \<Rightarrow> ('d \<times> 'd level) list" where
  "ranked_levels side xs =
     map (\<lambda>(idx, (price, sz)). (price, level_new (of_nat idx) side price sz [])) (enumerate 0 xs)"

definition capture_levels :: "'d decimal_ops \<Rightarrow> 'd orderbook \<Rightarrow> 'd orderbook_delta \<Rightarrow> 'd orderbook" where
  "capture_levels D self ob =
     ob_new 0 (ob_ts_us self) (ob_pair self) (ob_exchange self)
       (bt_collect (dec_val D) (ranked_levels Bids (od_top_bids ob (length (od_bids ob)))))
       (bt_collect (dec_val D) (ranked_levels Asks (od_top_asks ob (length (od_asks ob)))))"

section \<open>Loading targets and the market row\<close>

datatype 'd orderbook_target_data = TargetDelta "'d orderbook_delta" | TargetSnapshot "'d orderbook list"

fun is_delta :: "'d orderbook_target_data \<Rightarrow> bool" where
  "is_delta (TargetDelta _) = True"
| "is_delta (TargetSnapshot _) = False"

fun into_delta :: "'d orderbook_target_data \<Rightarrow> 'd orderbook_delta option" where
  "into_delta (TargetDelta m) = Some m"
| "into_delta (TargetSnapshot _) = None"

fun into_snapshot :: "'d orderbook_target_data \<Rightarrow> 'd orderbook list option" where
  "into_snapshot (TargetDelta _) = None"
| "into_snapshot (TargetSnapshot obs) = Some obs"

fun target_pair :: "'d orderbook_target_data \<Rightarrow> trading_pair option" where
  "target_pair (TargetDelta m) = Some (od_pair m)"
| "target_pair (TargetSnapshot obs) = (case obs of [] \<Rightarrow> None | ob # _ \<Rightarrow> Some (ob_pair ob))"

fun target_len :: "'d orderbook_target_data \<Rightarrow> usize" where
  "target_len (TargetDelta _) = 1"
| "target_len (TargetSnapshot obs) = length obs"

fun target_is_empty :: "'d orderbook_target_data \<Rightarrow> bool" where
  "target_is_empty (TargetDelta _) = False"
| "target_is_empty (TargetSnapshot obs) = (obs = [])"

record 'd market_snapshot =
  ms_ts_us :: u64
  ms_orderbook :: "'d orderbook option"
  ms_trades :: "'d trade list"
  ms_liquidations :: "'d liquidation list"
  ms_funding_rate :: "'d funding_rate list"
  ms_open_interest :: "'d open_interest list"
  ms_funding_settlements :: "'d funding_settlement list"

definition market_snapshot_empty :: "u64 \<Rightarrow> 'd market_snapshot" where
  "market_snapshot_empty ts =
     \<lparr>ms_ts_us = ts, ms_orderbook = None, ms_trades = [], ms_liquidations = [], ms_funding_rate = [],
      ms_open_interest = [], ms_funding_settlements = []\<rparr>"

definition has_data :: "'d market_snapshot \<Rightarrow> bool" where
  "has_data s \<longleftrightarrow> ms_orderbook s \<noteq> None \<or> ms_trades s \<noteq> [] \<or> ms_liquidations s \<noteq> []
     \<or> ms_funding_rate s \<noteq> [] \<or> ms_open_interest s \<noteq> [] \<or> ms_funding_settlements s \<noteq> []"

section \<open>Binary search\<close>

lemma bsearch_loop_bounds:
  "0 < sz \<Longrightarrow> base \<le> bsearch_loop ks key base sz \<and> bsearch_loop ks key base sz < base + sz"
proof (induction ks key base sz rule: bsearch_loop.induct)
  case (1 ks key base sz)
  show ?case
  proof (cases "1 < sz")
    case True
    then have "0 < sz - sz div 2" "sz div 2 < sz" "0 < sz div 2" by simp_all
    with 1(1) [OF True refl refl] True show ?thesis
      by (subst (1 2) bsearch_loop.simps) (auto simp: Let_def split: if_splits)
  next
    case False
    with 1(2) show ?thesis by (subst (1 2) bsearch_loop.simps) simp
  qed
qed

lemma bsearch_loop_window:
  assumes "sorted ks" and "base + sz \<le> length ks" and "0 < sz" and "key \<in> set ks"
    and "base = 0 \<or> ks ! base \<le> key" and "\<forall>j < length ks. base + sz \<le> j \<longrightarrow> key < ks ! j"
  shows "ks ! bsearch_loop ks key base sz = key"
  using assms
proof (induction ks key base sz rule: bsearch_loop.induct)
  case (1 ks key base sz)
  show ?case
  proof (cases "1 < sz")
    case True
    let ?half = "sz div 2"
    have b: "0 < ?half" "?half < sz" "base + ?half < length ks" using True "1.prems" by auto
    have "ks ! bsearch_loop ks key (if key < ks ! (base + ?half) then base else base + ?half) (sz - ?half) = key"
    proof (rule 1(1) [OF True refl refl "1.prems"(1) _ _ "1.prems"(4)])
      show "(if key < ks ! (base + ?half) then base else base + ?half) + (sz - ?half) \<le> length ks"
        "0 < sz - ?half"
        using b "1.prems"(2) by auto
      show "(if key < ks ! (base + ?half) then base else base + ?half) = 0 \<or>
          ks ! (if key < ks ! (base + ?half) then base else base + ?half) \<le> key"
        using "1.prems"(5) by auto
      show "\<forall>j < length ks. (if key < ks ! (base + ?half) then base else base + ?half) + (sz - ?half) \<le> j \<longrightarrow> key < ks ! j"
      proof (cases "key < ks ! (base + ?half)")
        case lt: True
        have "key < ks ! j" if "j < length ks" "base + (sz - ?half) \<le> j" for j
        proof -
          have "base + ?half \<le> j" using that(2) by linarith
          then have "ks ! (base + ?half) \<le> ks ! j" using "1.prems"(1) that(1) by (simp add: sorted_nth_mono)
          with lt show ?thesis by simp
        qed
        with lt show ?thesis by simp
      next
        case False
        then show ?thesis using "1.prems"(6) b by simp
      qed
    qed
    with True show ?thesis by (subst bsearch_loop.simps) (simp add: Let_def)
  next
    case False
    with "1.prems" have sz: "sz = 1" by simp
    from "1.prems"(4) obtain i where i: "i < length ks" "ks ! i = key" by (metis in_set_conv_nth)
    have "i \<le> base"
    proof (rule ccontr)
      assume "\<not> i \<le> base"
      with "1.prems"(6) i(1) sz have "key < ks ! i" by simp
      with i(2) show False by simp
    qed
    have "ks ! base = key"
    proof (cases "base = 0")
      case False
      with "1.prems"(5) have "ks ! base \<le> key" by simp
      moreover have "ks ! i \<le> ks ! base"
        using "1.prems"(1,2) \<open>i \<le> base\<close> sz by (simp add: sorted_nth_mono)
      ultimately show ?thesis using i by simp
    qed (use i \<open>i \<le> base\<close> in simp)
    then show ?thesis using False by (subst bsearch_loop.simps) simp
  qed
qed

lemma binary_search_Ok: "binary_search ks key = Ok i \<Longrightarrow> i < length ks \<and> ks ! i = key"
  using bsearch_loop_bounds [of "length ks" 0 ks key]
  by (auto simp: binary_search_def Let_def split: if_splits)

lemma binary_search_sorted:
  assumes "sorted ks"
  shows "(\<exists>i. binary_search ks key = Ok i) \<longleftrightarrow> key \<in> set ks"
proof
  assume "key \<in> set ks"
  moreover from this have "ks \<noteq> []" by auto
  ultimately show "\<exists>i. binary_search ks key = Ok i"
    using bsearch_loop_window [OF assms, of 0 "length ks" key] by (simp add: binary_search_def Let_def)
next
  assume "\<exists>i. binary_search ks key = Ok i"
  then show "key \<in> set ks"
    by (metis binary_search_Ok nth_mem)
qed


section \<open>The book's invariant\<close>

abbreviation orders_sorted :: "'d level \<Rightarrow> bool" where
  "orders_sorted l \<equiv> sorted (map order_ts_us (level_orders l))"

definition lside_wf :: "'d decimal_ops \<Rightarrow> 'd level_side \<Rightarrow> bool" where
  "lside_wf D side \<longleftrightarrow> bt_wf (dec_val D) side \<and> (\<forall>(p, l) \<in> set side. orders_sorted l)"

definition ob_wf :: "'d decimal_ops \<Rightarrow> 'd orderbook \<Rightarrow> bool" where
  "ob_wf D ob \<longleftrightarrow> lside_wf D (ob_bids ob) \<and> lside_wf D (ob_asks ob)"

lemma lside_get: "lside_wf D side \<Longrightarrow> bt_get (dec_val D) k side = Some l \<Longrightarrow> orders_sorted l"
  using bt_map_SomeD [of "dec_val D" side "dec_val D k" l] by (auto simp: bt_get_def lside_wf_def)

lemma find_level_sorted: "ob_wf D ob \<Longrightarrow> find_level D ob price = Ok (side, l) \<Longrightarrow> orders_sorted l"
  by (auto simp: find_level_def ob_wf_def split: option.splits dest: lside_get)

lemma bt_insert_all: "\<forall>(k, v) \<in> set m. P v \<Longrightarrow> P v' \<Longrightarrow> \<forall>(k, v) \<in> set (bt_insert f k' v' m). P v"
  by (auto dest!: bt_insert_set)

lemma lside_insert: "lside_wf D side \<Longrightarrow> orders_sorted l \<Longrightarrow> lside_wf D (bt_insert (dec_val D) p l side)"
  unfolding lside_wf_def by (intro conjI bt_wf_insert bt_insert_all) simp_all

lemma lside_remove: "lside_wf D side \<Longrightarrow> lside_wf D (bt_remove (dec_val D) p side)"
  unfolding lside_wf_def using bt_remove_subset [of "dec_val D" p side] by auto

lemma put_level_wf: "ob_wf D ob \<Longrightarrow> orders_sorted l \<Longrightarrow> ob_wf D (put_level D side price l ob)"
  by (cases side) (simp_all add: ob_wf_def put_level_def lside_insert)

lemma order_index_Ok: "order_index l ts = Ok i \<Longrightarrow> i < length (level_orders l) \<and> order_ts_us (level_orders l ! i) = ts"
  by (cases "binary_search (map order_ts_us (level_orders l)) ts")
    (auto simp: order_index_def dest!: binary_search_Ok)

lemma find_order_Ok:
  "find_order D ob price ts = Ok (side, l, i) \<longleftrightarrow>
     find_level D ob price = Ok (side, l) \<and> level_orders l \<noteq> [] \<and> order_index l ts = Ok i"
  by (cases "find_level D ob price"; cases "order_index l ts")
    (auto simp: find_order_def split: if_splits result.splits prod.splits elim: result_bind.elims)

lemma sorted_remove_nth:
  assumes "sorted ks"
  shows "sorted (take i ks @ drop (Suc i) ks)"
proof -
  have "sorted (take i ks @ drop i ks)" using assms by simp
  then have "\<forall>x \<in> set (take i ks). \<forall>y \<in> set (drop i ks). x \<le> y" unfolding sorted_append by blast
  moreover have "set (drop (Suc i) ks) \<subseteq> set (drop i ks)" by (rule set_drop_subset_set_drop) simp
  ultimately show ?thesis
    using assms by (auto simp: sorted_append sorted_wrt_take sorted_wrt_drop)
qed

text \<open>
  At a level whose orders are in time order, an order is found exactly when one with that
  timestamp rests there.
\<close>

lemma find_order_complete:
  assumes "ob_wf D ob" and "find_level D ob price = Ok (side, l)"
  shows "is_ok (find_order D ob price ts) \<longleftrightarrow> (\<exists>ord \<in> set (level_orders l). order_ts_us ord = ts)"
proof -
  have "sorted (map order_ts_us (level_orders l))" using find_level_sorted [OF assms] .
  from binary_search_sorted [OF this, of ts] have
    "is_ok (order_index l ts) \<longleftrightarrow> (\<exists>ord \<in> set (level_orders l). order_ts_us ord = ts)"
    by (cases "binary_search (map order_ts_us (level_orders l)) ts") (auto simp: order_index_def)
  then show ?thesis
    using assms(2) by (cases "order_index l ts") (auto simp: find_order_def)
qed

text \<open>
  C39: deleting, modifying and inserting an order and inserting or deleting a level keep both sides
  sorted by price and every level's orders in time order; an insertion does so when the clock is
  not behind the resting orders.
\<close>

theorem order_operations_preserve_wf:
  assumes "ob_wf D ob"
  shows "ob_wf D (snd (delete_order D ob price ts))
    \<and> ob_wf D (snd (modify_order D now ob ts price amount))
    \<and> ob_wf D (snd (delete_level D ob price))
    \<and> (orders_sorted l \<longrightarrow> ob_wf D (snd (insert_level D ob l)))
    \<and> ((\<forall>side l. find_level D ob price = Ok (side, l) \<longrightarrow> (\<forall>ord \<in> set (level_orders l). order_ts_us ord \<le> now))
         \<longrightarrow> ob_wf D (snd (insert_order D now ob price amount)))"
proof (intro conjI impI)
  have srt: "orders_sorted l" if "find_order D ob price ts = Ok (side, l, i)" for side l i
    using that assms find_level_sorted by (auto simp: find_order_Ok)
  show "ob_wf D (snd (delete_order D ob price ts))"
    using assms srt
    by (auto simp: delete_order_def split: result.splits prod.splits
        intro!: put_level_wf sorted_remove_nth simp flip: take_map drop_map)
  show "ob_wf D (snd (modify_order D now ob ts price amount))"
    using assms srt
    by (auto simp: modify_order_def Let_def order_build_def map_update split: result.splits prod.splits option.splits
        intro!: put_level_wf dest!: order_index_Ok)
      (metis (no_types, lifting) list_update_id map_update nth_map)+
  show "ob_wf D (snd (delete_level D ob price))"
    using assms by (simp add: delete_level_def ob_wf_def lside_remove)
  show "ob_wf D (snd (insert_level D ob l))" if "orders_sorted l"
    using assms that
    by (auto simp: insert_level_def ob_wf_def replace_level_def Let_def level_new_def
        split: order_side.splits intro!: lside_insert)
  show "ob_wf D (snd (insert_order D now ob price amount))"
    if "\<forall>side l. find_level D ob price = Ok (side, l) \<longrightarrow> (\<forall>ord \<in> set (level_orders l). order_ts_us ord \<le> now)"
    using assms that find_level_sorted [OF assms]
    by (auto simp: insert_order_def order_build_def Let_def split: result.splits prod.splits
        intro!: put_level_wf simp: sorted_append)
qed


lemma find_level_put:
  assumes "find_level D ob price = Ok (side, l)"
  shows "find_level D (put_level D side price l' ob) price = Ok (side, l')"
  using assms by (auto simp: find_level_def put_level_def bt_get_def bt_simps split: option.splits)

text \<open>
  A modified order is the one that is found again: it keeps timestamp, side, type and price,
  carries the new amount, and looking the timestamp up in the new book returns exactly it.
\<close>

lemma modify_then_retrieve:
  assumes "modify_order D now ob ts price amount = (Ok ord, ob')"
  shows "retrieve_order D ob' price ts = Ok ord
    \<and> (\<exists>old. retrieve_order D ob price ts = Ok old \<and> order_ts_us old = ts
        \<and> ord = old\<lparr>order_id := encode_order_id (order_side old) (order_type old) ts, order_amount := Some amount\<rparr>)"
proof -
  from assms obtain side l i px where
    fo: "find_level D ob price = Ok (side, l)" "level_orders l \<noteq> []" "order_index l ts = Ok i"
    and px: "order_price (level_orders l ! i) = Some px"
    and ord: "ord = (level_orders l ! i)\<lparr>order_id := encode_order_id (order_side (level_orders l ! i))
        (order_type (level_orders l ! i)) (order_ts_us (level_orders l ! i)), order_amount := Some amount\<rparr>"
    and ob': "ob' = put_level D side price (l\<lparr>level_orders := (level_orders l)[i := ord]\<rparr>) ob"
    by (auto simp: modify_order_def find_order_Ok Let_def order_build_def
        split: result.splits prod.splits option.splits)
  note i = order_index_Ok [OF fo(3)]
  have keys: "map order_ts_us ((level_orders l)[i := ord]) = map order_ts_us (level_orders l)"
    using i by (simp add: map_update ord list_update_same_conv)
  have "order_index (l\<lparr>level_orders := (level_orders l)[i := ord]\<rparr>) ts = Ok i"
    using fo(3) by (simp add: order_index_def keys)
  with fo i show ?thesis
    by (simp add: retrieve_order_def find_order_def ob' find_level_put) (simp add: ord)
qed

section \<open>Capturing an incremental book\<close>

lemma map_enumerate_snd: "map (\<lambda>x. f (snd x)) (enumerate n xs) = map f xs"
  by (induction xs arbitrary: n) simp_all

lemma map_enumerate_fst: "map (\<lambda>x. f (fst x)) (enumerate n xs) = map f [n..<n + length xs]"
  by (induction xs arbitrary: n) (simp_all add: upt_conv_Cons del: upt_Suc)

lemma ranked_levels_proj:
  "map fst (ranked_levels side xs) = map fst xs"
  "map (\<lambda>(p, l). (p, level_volume l)) (ranked_levels side xs) = xs"
  "map (level_id \<circ> snd) (ranked_levels side xs) = map of_nat [0..<length xs]"
  using map_enumerate_snd [of fst 0 xs] map_enumerate_snd [of "\<lambda>x. (fst x, snd x)" 0 xs]
    map_enumerate_fst [of of_nat 0 xs]
  by (simp_all add: ranked_levels_def level_new_def comp_def case_prod_unfold)

lemma bt_wf_keys: "map fst a = map fst b \<Longrightarrow> bt_wf f a = bt_wf f b"
  by (simp add: bt_wf_def flip: map_map)

text \<open>
  Capturing an incremental book is lossless: both sides keep their prices and sizes, in order,
  and on each side the level of rank \<open>i\<close> (counted from the best price) gets the level id \<open>i\<close>.
\<close>

lemma capture_levels_lossless:
  assumes "od_wf D ob"
  shows "map (\<lambda>(p, l). (p, level_volume l)) (ob_bids (capture_levels D self ob)) = od_bids ob
    \<and> map (\<lambda>(p, l). (p, level_volume l)) (ob_asks (capture_levels D self ob)) = od_asks ob
    \<and> map (level_id \<circ> snd) (rev (ob_bids (capture_levels D self ob))) = map of_nat [0..<length (od_bids ob)]
    \<and> map (level_id \<circ> snd) (ob_asks (capture_levels D self ob)) = map of_nat [0..<length (od_asks ob)]"
proof -
  let ?b = "ranked_levels Bids (rev (od_bids ob))" and ?a = "ranked_levels Asks (od_asks ob)"
  have "bt_wf (dec_val D) (rev ?b)" "bt_wf (dec_val D) ?a"
    using assms bt_wf_keys [of "rev ?b" "od_bids ob" "dec_val D"] bt_wf_keys [of ?a "od_asks ob" "dec_val D"]
    by (simp_all add: od_wf_def ranked_levels_proj flip: rev_map)
  then have cap: "ob_bids (capture_levels D self ob) = rev ?b" "ob_asks (capture_levels D self ob) = ?a"
    using bt_collect_rev_sorted [of "dec_val D" "rev ?b"]
    by (simp_all add: capture_levels_def ob_new_def od_top_bids_def od_top_asks_def bt_collect_sorted)
  show ?thesis
    by (simp add: cap ranked_levels_proj flip: rev_map)
qed


section \<open>Concrete runs\<close>

definition sample_order :: "u64 \<Rightarrow> order" where
  "sample_order ts =
     \<lparr>order_id = 0, order_ts_us = ts, order_type = Limit, order_side = Bids, order_price = Some 1,
      order_amount = Some 2\<rparr>"

definition sample_orderbook :: "xdec orderbook" where
  "sample_orderbook =
     ob_new 1 5 \<lparr>tp_base = ''BTC'', tp_quote = ''USDT''\<rparr> ''bybit''
       [((100, 0), level_new 0 Bids (100, 0) (4, 0) [sample_order 3, sample_order 7])] []"

lemma sample_orderbook_wf: "ob_wf exact_decimal sample_orderbook"
  by (simp add: ob_wf_def lside_wf_def sample_orderbook_def ob_new_def level_new_def sample_order_def bt_wf_def)

lemma sample_find_level:
  "find_level exact_decimal sample_orderbook (10000, 2)
     = Ok (Bids, level_new 0 Bids (100, 0) (4, 0) [sample_order 3, sample_order 7])"
  by (simp add: find_level_def sample_orderbook_def ob_new_def bt_get_def xval_def)

theorem order_operations_preserve_wf_witness:
  "ob_wf exact_decimal (snd (insert_order exact_decimal 9 sample_orderbook (10000, 2) 0))"
  using order_operations_preserve_wf [OF sample_orderbook_wf, of "(10000, 2)" 0 9 0 "level_new 0 Asks (1, 0) (1, 0) []"]
  by (simp add: sample_find_level) (simp add: level_new_def sample_order_def)

end
