(* ===== verification/Feed_Model.thy ===== *)
theory Feed_Model
  imports Orderbook_Core
begin

text \<open>
  The data-plane vocabulary of \<open>aetelier-connect/src/framework/model.rs\<close>: domain events and their
  stamping, the epoch-unit normalisation, the reconstruction models with what is derived from them
  (seed source, recovery action, replay soundness), and the order-book checksum recipes of
  \<open>framework/checksum.rs\<close>.  The CRC32 function comes from the \<open>crc32fast\<close> crate and is a
  parameter.
\<close>

section \<open>Domain events\<close>

datatype 'd domain_event =
    Book normalized_delta
  | TradeEv "'d trade" "u64 option"
  | ConnectionGap u64
  | FundingRateEv "'d funding_rate"
  | OpenInterestEv "'d open_interest"
  | FundingSettlementEv "'d funding_settlement"

fun stamp_local :: "u64 \<Rightarrow> u64 \<Rightarrow> u64 \<Rightarrow> u64 \<Rightarrow> 'd domain_event \<Rightarrow> 'd domain_event" where
  "stamp_local local_us rtt_us recv_seq conn_epoch_us (Book d) =
     Book (d\<lparr>nd_local_ts_us := local_us, nd_rtt_us := rtt_us\<rparr>)"
| "stamp_local local_us rtt_us recv_seq conn_epoch_us (TradeEv t s) =
     TradeEv (t\<lparr>local_trade_ts_us := local_us, source_trade_rtt_us := rtt_us\<rparr>) s"
| "stamp_local local_us rtt_us recv_seq conn_epoch_us (FundingRateEv fr) =
     FundingRateEv (fr\<lparr>local_funding_ts_us := local_us, fr_recv_seq := recv_seq, fr_conn_epoch_us := conn_epoch_us\<rparr>)"
| "stamp_local local_us rtt_us recv_seq conn_epoch_us (OpenInterestEv oi) =
     OpenInterestEv (oi\<lparr>local_oi_ts_us := local_us, oi_recv_seq := recv_seq, oi_conn_epoch_us := conn_epoch_us\<rparr>)"
| "stamp_local local_us rtt_us recv_seq conn_epoch_us (FundingSettlementEv fs) =
     FundingSettlementEv (if fs_local_ts_us fs = 0 then fs\<lparr>fs_local_ts_us := local_us\<rparr> else fs)"
| "stamp_local local_us rtt_us recv_seq conn_epoch_us (ConnectionGap n) = ConnectionGap n"

definition epoch_to_us :: "u64 \<Rightarrow> u64" where
  "epoch_to_us v =
     (if v = 0 then 0
      else if v \<ge> 100000000000000000 then v div 1000
      else if v \<ge> 100000000000000 then v
      else if v \<ge> 100000000000 then v * 1000
      else v * 1000000)"

section \<open>Lifecycle states and reconstruction models\<close>

datatype order_book_state = Empty | Synced | Gapped | Closed

datatype trade_book_state = TbEmpty | TbSynced | TbClosed

datatype trade_apply = Applied | Duplicate | GappedApplied u64

datatype seq_predicate = RangeInclusive | ExactPrev | Monotonic

datatype snapshot_source = RestSnapshot | ReqOnSocket | WssSelfSeed

datatype recovery_action = ActResubscribe | ActRestSnapshot | ActReqOnSocket

datatype checksum_fmt = OkxTop25 | KrakenTop10 | BitgetBidFirstTop25

datatype reconstruction_model =
    FullRefresh
  | SeqDelta seq_predicate snapshot_source
  | ChecksumDelta checksum_fmt
  | L3 snapshot_source

fun snapshot_source_of :: "reconstruction_model \<Rightarrow> snapshot_source option" where
  "snapshot_source_of (SeqDelta p s) = Some s"
| "snapshot_source_of (L3 s) = Some s"
| "snapshot_source_of FullRefresh = None"
| "snapshot_source_of (ChecksumDelta f) = None"

fun class_label :: "reconstruction_model \<Rightarrow> string" where
  "class_label FullRefresh = ''full_refresh''"
| "class_label (SeqDelta p s) = ''seq_delta''"
| "class_label (ChecksumDelta f) = ''checksum_delta''"
| "class_label (L3 s) = ''l3''"

fun book_level :: "reconstruction_model \<Rightarrow> string" where
  "book_level (L3 s) = ''L3''"
| "book_level m = ''L2''"

definition needs_rest :: "reconstruction_model \<Rightarrow> bool" where
  "needs_rest m \<longleftrightarrow> snapshot_source_of m = Some RestSnapshot"

definition seeds_out_of_band :: "reconstruction_model \<Rightarrow> bool" where
  "seeds_out_of_band m \<longleftrightarrow> snapshot_source_of m = Some RestSnapshot \<or> snapshot_source_of m = Some ReqOnSocket"

fun seq_is_connection_scoped :: "reconstruction_model \<Rightarrow> bool" where
  "seq_is_connection_scoped (SeqDelta Monotonic s) = True"
| "seq_is_connection_scoped m = False"

definition replay_dedup_sound :: "reconstruction_model \<Rightarrow> bool" where
  "replay_dedup_sound m \<longleftrightarrow> snapshot_source_of m \<noteq> None \<and> \<not> seq_is_connection_scoped m"

definition supports_in_band_reseed :: "reconstruction_model \<Rightarrow> bool" where
  "supports_in_band_reseed m \<longleftrightarrow> snapshot_source_of m = Some ReqOnSocket"

definition recovery_action_of :: "reconstruction_model \<Rightarrow> recovery_action" where
  "recovery_action_of m = (if needs_rest m then ActRestSnapshot else ActResubscribe)"

datatype resync_reason = Checksum string | Other string

fun is_checksum :: "resync_reason \<Rightarrow> bool" where
  "is_checksum (Checksum _) = True"
| "is_checksum (Other _) = False"

fun reason_message :: "resync_reason \<Rightarrow> string" where
  "reason_message (Checksum m) = m"
| "reason_message (Other m) = m"

record resync_needed =
  rs_reason :: resync_reason
  rs_action :: recovery_action

datatype book_output = OutApplied | OutSnapshot

section \<open>Number and error printing\<close>

definition u64_to_string :: "u64 \<Rightarrow> string" where
  "u64_to_string v = nat_digits (unat v)"

definition i64_to_string :: "i64 \<Rightarrow> string" where
  "i64_to_string i = (if i < 0 then CHR ''-'' # nat_digits (nat (- i)) else nat_digits (nat i))"

fun orderbook_error_to_string :: "orderbook_error \<Rightarrow> string" where
  "orderbook_error_to_string NotInitialized = ''Orderbook not initialized, waiting for snapshot''"
| "orderbook_error_to_string (SequenceGap expected received) =
     ''Sequence gap: expected '' @ u64_to_string expected @ '', received '' @ u64_to_string received"
| "orderbook_error_to_string (SymbolMismatch expected received) =
     ''Symbol mismatch: expected '' @ expected @ '', received '' @ received"
| "orderbook_error_to_string (ParseError m) = ''Parse error: '' @ m"
| "orderbook_error_to_string (ContentsError m) = ''Orderbook contents error: '' @ m"
| "orderbook_error_to_string (LevelNotFound p) = ''Level not found at price '' @ p"
| "orderbook_error_to_string (OrderNotFound ts) = ''Order not found with timestamp '' @ u64_to_string ts"
| "orderbook_error_to_string (InvalidInput m) = ''Invalid input: '' @ m"
| "orderbook_error_to_string (BuilderError m) = ''Order builder error: '' @ m"
| "orderbook_error_to_string (TimestampError m) = ''Timestamp error: '' @ m"

section \<open>Checksums\<close>

fun join :: "string \<Rightarrow> string list \<Rightarrow> string" where
  "join sep [] = []"
| "join sep [p] = p"
| "join sep (p # q # ps) = p @ sep @ join sep (q # ps)"

definition okx_rank :: "'d decimal_ops \<Rightarrow> ('d \<times> 'd) list \<Rightarrow> nat \<Rightarrow> string list" where
  "okx_rank D side i =
     (if i < length side then [dec_to_string D (fst (side ! i)), dec_to_string D (snd (side ! i))] else [])"

definition okx_top25 :: "'d decimal_ops \<Rightarrow> (string \<Rightarrow> u32) \<Rightarrow> 'd orderbook_delta \<Rightarrow> i64" where
  "okx_top25 D crc book =
     (let bids = od_top_bids book 25; asks = od_top_asks book 25;
          parts = concat (map (\<lambda>i. okx_rank D bids i @ okx_rank D asks i) [0..<25])
      in sint (crc (join '':'' parts)))"

text \<open>The loop of \<open>push_kraken\<close>: skip the point, skip zeros until a digit has been kept.\<close>

fun kraken_digits :: "bool \<Rightarrow> string \<Rightarrow> string" where
  "kraken_digits started [] = (if started then [] else ''0'')"
| "kraken_digits started (c # cs) =
     (if c = CHR ''.'' then kraken_digits started cs
      else if \<not> started \<and> c = CHR ''0'' then kraken_digits started cs
      else c # kraken_digits True cs)"

definition push_kraken :: "'d decimal_ops \<Rightarrow> string \<Rightarrow> 'd \<Rightarrow> string" where
  "push_kraken D out d = out @ kraken_digits False (dec_to_string D d)"

definition kraken_top10 :: "'d decimal_ops \<Rightarrow> (string \<Rightarrow> u32) \<Rightarrow> 'd orderbook_delta \<Rightarrow> i64" where
  "kraken_top10 D crc book =
     (let asks = od_top_asks book 10; bids = od_top_bids book 10;
          s = foldl (\<lambda>s (p, q). push_kraken D (push_kraken D s p) q) [] (asks @ bids)
      in uint (crc s))"

fun book_checksum :: "'d decimal_ops \<Rightarrow> (string \<Rightarrow> u32) \<Rightarrow> checksum_fmt \<Rightarrow> 'd orderbook_delta \<Rightarrow> i64" where
  "book_checksum D crc OkxTop25 book = okx_top25 D crc book"
| "book_checksum D crc BitgetBidFirstTop25 book = okx_top25 D crc book"
| "book_checksum D crc KrakenTop10 book = kraken_top10 D crc book"

section \<open>Facts on the derived taxonomy\<close>

lemma recovery_action_never_in_band: "recovery_action_of m \<noteq> ActReqOnSocket"
  by (simp add: recovery_action_of_def)

lemma unat_le_literal: "(a :: u64) \<le> b \<longleftrightarrow> unat a \<le> unat b"
  by (rule word_le_nat_alt)

text \<open>
  The unit guess is sound.  A moment between the years 1973 and 2286, given in seconds,
  milliseconds, microseconds or nanoseconds, is normalised to the same number of microseconds, and
  no multiplication on the way overflows.
\<close>

lemma epoch_to_us_unit_independent:
  assumes "10 ^ 8 \<le> secs" and "secs < (10 ^ 10 :: nat)"
  shows "unat (epoch_to_us (of_nat secs)) = secs * 10 ^ 6
    \<and> unat (epoch_to_us (of_nat (secs * 10 ^ 3))) = secs * 10 ^ 6
    \<and> unat (epoch_to_us (of_nat (secs * 10 ^ 6))) = secs * 10 ^ 6
    \<and> unat (epoch_to_us (of_nat (secs * 10 ^ 9))) = secs * 10 ^ 6"
proof -
  have u: "unat (of_nat n :: u64) = n" if "n < 2 ^ 64" for n
    using that by (simp add: unsigned_of_nat take_bit_nat_eq_self)
  have cls: "unat (epoch_to_us v) =
      (if unat v = 0 then 0
       else if 10 ^ 17 \<le> unat v then unat v div 1000
       else if 10 ^ 14 \<le> unat v then unat v
       else if 10 ^ 11 \<le> unat v then unat v * 1000 mod 2 ^ 64
       else unat v * 1000000 mod 2 ^ 64)" for v
  proof -
    have "unat v div 1000 < 2 ^ 64" using unsigned_less [where 'a = nat, of v] by simp
    then show ?thesis
      by (simp add: epoch_to_us_def word_le_nat_alt unat_word_ariths unat_eq_0 unat_div)
  qed
  show ?thesis
    using assms u [of secs] u [of "secs * 10 ^ 3"] u [of "secs * 10 ^ 6"] u [of "secs * 10 ^ 9"]
    by (simp add: cls del: of_nat_mult)
qed

end
