(* ===== verification/Sourced_Book.thy ===== *)
theory Sourced_Book
  imports Feed_Model
begin

text \<open>
  \<open>SourcedOrderbook\<close> (\<open>aetelier-connect/src/framework/model.rs\<close>): the live book rebuilt from a feed's
  normalised deltas under one of four reconstruction models (full refresh, sequence-checked deltas,
  checksum-checked deltas, per-order book), over the lifecycle Empty, Synced, Gapped, Closed.

  \<open>L3\<close> level totals are kept in a hash map whose \<open>Decimal\<close> key is hashed and compared by value;
  the map is never iterated, so it is keyed here by the denoted number.
\<close>

record 'd l3_pos =
  lp_is_ask :: bool
  lp_price :: 'd
  lp_size :: 'd

type_synonym 'd l3_orders = "(string, 'd l3_pos) hash_map"
type_synonym 'd l3_levels = "(bool \<times> rat, 'd) hash_map"

record 'd sourced_orderbook =
  so_book :: "'d orderbook_delta"
  so_model :: reconstruction_model
  so_recovery :: recovery_action
  so_state :: order_book_state
  so_last :: "u64 option"
  so_l3_orders :: "'d l3_orders"
  so_l3_levels :: "'d l3_levels"

definition L3_MAX_ORDERS :: nat where
  "L3_MAX_ORDERS = 200000"

definition so_new :: "trading_pair \<Rightarrow> reconstruction_model \<Rightarrow> recovery_action \<Rightarrow> 'd sourced_orderbook" where
  "so_new pair model recovery =
     \<lparr>so_book = (if model = ChecksumDelta KrakenTop10
                 then od_with_max_depth (Some 10) (od_new pair) else od_new pair),
      so_model = model, so_recovery = recovery, so_state = Empty, so_last = None,
      so_l3_orders = [], so_l3_levels = []\<rparr>"

definition arm_config_depth :: "usize option \<Rightarrow> 'd sourced_orderbook \<Rightarrow> 'd sourced_orderbook" where
  "arm_config_depth max_depth so =
     (case so_model so of
        ChecksumDelta _ \<Rightarrow> so
      | _ \<Rightarrow> so\<lparr>so_book := (so_book so)\<lparr>od_max_depth := max_depth\<rparr>\<rparr>)"

definition so_close :: "'d sourced_orderbook \<Rightarrow> 'd sourced_orderbook" where
  "so_close so = so\<lparr>so_state := Closed\<rparr>"

section \<open>Applying one delta\<close>

type_synonym 'd apply_result = "(book_output, resync_needed) result \<times> 'd sourced_orderbook"

definition gap :: "resync_reason \<Rightarrow> 'd sourced_orderbook \<Rightarrow> 'd apply_result" where
  "gap reason so = (Err \<lparr>rs_reason = reason, rs_action = so_recovery so\<rparr>, so\<lparr>so_state := Gapped\<rparr>)"

text \<open>\<open>self.book.process(&delta).map_err(|e| self.gap(e.to_string()))?\<close>, then the rest of the method.\<close>

definition process_or_gap ::
  "'d decimal_ops \<Rightarrow> 'd sourced_orderbook \<Rightarrow> normalized_delta \<Rightarrow> ('d sourced_orderbook \<Rightarrow> 'd apply_result) \<Rightarrow> 'd apply_result"
where
  "process_or_gap D so delta k =
     (case process D (so_book so) delta of
        (Err e, book) \<Rightarrow> gap (Other (orderbook_error_to_string e)) (so\<lparr>so_book := book\<rparr>)
      | (Ok _, book) \<Rightarrow> k (so\<lparr>so_book := book\<rparr>))"

definition touch :: "'d decimal_ops \<Rightarrow> bool \<times> 'd \<Rightarrow> (bool \<times> 'd) list \<Rightarrow> (bool \<times> 'd) list" where
  "touch D key touched =
     (if list_ex (\<lambda>k. fst k = fst key \<and> dec_eq D (snd k) (snd key)) touched then touched else touched @ [key])"

text \<open>The body of the loop over \<open>delta.orders\<close>: drop the order's old position, then place the new one.\<close>

definition l3_remove ::
  "'d decimal_ops \<Rightarrow> string \<Rightarrow> 'd l3_orders \<times> 'd l3_levels \<times> (bool \<times> 'd) list
     \<Rightarrow> 'd l3_orders \<times> 'd l3_levels \<times> (bool \<times> 'd) list"
where
  "l3_remove D oid = (\<lambda>(orders, levels, touched).
     case hm_get orders oid of
       None \<Rightarrow> (orders, levels, touched)
     | Some old \<Rightarrow>
         let key = (lp_is_ask old, dec_val D (lp_price old));
             levels = (case hm_get levels key of
                         None \<Rightarrow> levels
                       | Some tot \<Rightarrow>
                           let tot = dec_sub D tot (lp_size old) in
                           if dec_le D tot (dec_zero D) then hm_remove key levels
                           else hm_insert key tot levels)
         in (hm_remove oid orders, levels, touch D (lp_is_ask old, lp_price old) touched))"

definition l3_place ::
  "'d decimal_ops \<Rightarrow> l3_order \<Rightarrow> 'd l3_orders \<times> 'd l3_levels \<times> (bool \<times> 'd) list
     \<Rightarrow> 'd l3_orders \<times> 'd l3_levels \<times> (bool \<times> 'd) list"
where
  "l3_place D ord = (\<lambda>(orders, levels, touched).
     case (dec_from_str_exact D (l3_price ord), dec_from_str_exact D (l3_size ord)) of
       (Some price, Some sz) \<Rightarrow>
         if dec_le D sz (dec_zero D) then (orders, levels, touched)
         else
           let key = (l3_is_ask ord, dec_val D price);
               tot = unwrap_or (hm_get levels key) (dec_zero D)
           in (hm_insert (l3_order_id ord) \<lparr>lp_is_ask = l3_is_ask ord, lp_price = price, lp_size = sz\<rparr> orders,
               hm_insert key (dec_add D tot sz) levels,
               touch D (l3_is_ask ord, price) touched)
     | _ \<Rightarrow> (orders, levels, touched))"

definition l3_step ::
  "'d decimal_ops \<Rightarrow> l3_order \<Rightarrow> 'd l3_orders \<times> 'd l3_levels \<times> (bool \<times> 'd) list
     \<Rightarrow> 'd l3_orders \<times> 'd l3_levels \<times> (bool \<times> 'd) list"
where
  "l3_step D ord st =
     (let st = l3_remove D (l3_order_id ord) st in
      if l3_removed ord then st else l3_place D ord st)"

definition touched_rows :: "'d decimal_ops \<Rightarrow> 'd l3_levels \<Rightarrow> bool \<Rightarrow> (bool \<times> 'd) list \<Rightarrow> (string \<times> string) list" where
  "touched_rows D levels is_ask touched =
     map (\<lambda>key. (dec_to_string D (snd key),
                 dec_to_string D (unwrap_or (hm_get levels (fst key, dec_val D (snd key))) (dec_zero D))))
       (filter (\<lambda>key. fst key = is_ask) touched)"

definition apply_l3 :: "'d decimal_ops \<Rightarrow> 'd sourced_orderbook \<Rightarrow> normalized_delta \<Rightarrow> 'd apply_result" where
  "apply_l3 D so delta =
     (let snapshot = nd_is_snapshot delta;
          so = (if snapshot then so\<lparr>so_l3_orders := [], so_l3_levels := []\<rparr> else so);
          (orders, levels, touched) = fold (l3_step D) (nd_orders delta) (so_l3_orders so, so_l3_levels so, []);
          so = so\<lparr>so_l3_orders := orders, so_l3_levels := levels\<rparr>
      in if length orders > L3_MAX_ORDERS
         then gap (Other (''l3 order map exceeded '' @ nat_digits L3_MAX_ORDERS @ '' entries; re-seeding'')) so
         else
           process_or_gap D so
             \<lparr>nd_symbol = nd_symbol delta,
              nd_bids = touched_rows D levels False touched, nd_asks = touched_rows D levels True touched,
              nd_update_id = nd_update_id delta, nd_sequence = nd_sequence delta,
              nd_source_ts_us = nd_source_ts_us delta, nd_local_ts_us = 0, nd_rtt_us = 0,
              nd_checksum = None, nd_orders = [], nd_is_snapshot = snapshot\<rparr>
             (\<lambda>so. (Ok (if snapshot then OutSnapshot else OutApplied),
                    so\<lparr>so_last := Some (nd_update_id delta), so_state := Synced\<rparr>)))"

definition apply_checksummed ::
  "'d decimal_ops \<Rightarrow> (string \<Rightarrow> u32) \<Rightarrow> 'd sourced_orderbook \<Rightarrow> normalized_delta \<Rightarrow> checksum_fmt \<Rightarrow> 'd apply_result"
where
  "apply_checksummed D crc so delta fmt =
     process_or_gap D so delta (\<lambda>so.
       let so = so\<lparr>so_last := Some (nd_update_id delta)\<rparr>;
           applied = (Ok (if nd_is_snapshot delta then OutSnapshot else OutApplied), so\<lparr>so_state := Synced\<rparr>)
       in case nd_checksum delta of
            Some expected \<Rightarrow>
              let computed = book_checksum D crc fmt (so_book so) in
              if computed \<noteq> expected
              then gap (Checksum (''checksum mismatch: computed='' @ i64_to_string computed
                          @ '' expected='' @ i64_to_string expected)) so
              else applied
          | None \<Rightarrow>
              if \<not> nd_is_snapshot delta
              then gap (Checksum ''checksum absent on a checksum-model delta frame'') so
              else applied)"

definition apply_full_refresh :: "'d decimal_ops \<Rightarrow> 'd sourced_orderbook \<Rightarrow> normalized_delta \<Rightarrow> 'd apply_result" where
  "apply_full_refresh D so delta =
     (let delta = delta\<lparr>nd_is_snapshot := True\<rparr> in
      process_or_gap D so delta (\<lambda>so.
        (Ok OutSnapshot, so\<lparr>so_last := Some (nd_update_id delta), so_state := Synced\<rparr>)))"

fun continuous :: "seq_predicate \<Rightarrow> u64 \<Rightarrow> normalized_delta \<Rightarrow> bool" where
  "continuous RangeInclusive l delta \<longleftrightarrow> nd_sequence delta \<le> l + 1 \<and> nd_update_id delta > l"
| "continuous ExactPrev l delta \<longleftrightarrow> nd_sequence delta = l"
| "continuous Monotonic l delta \<longleftrightarrow> nd_update_id delta > l"

definition apply_seq_delta ::
  "'d decimal_ops \<Rightarrow> 'd sourced_orderbook \<Rightarrow> normalized_delta \<Rightarrow> seq_predicate \<Rightarrow> 'd apply_result"
where
  "apply_seq_delta D so delta predicate =
     (if nd_is_snapshot delta then
        process_or_gap D so delta (\<lambda>so.
          (Ok OutSnapshot, so\<lparr>so_last := Some (nd_update_id delta), so_state := Synced\<rparr>))
      else
        case so_last so of
          None \<Rightarrow> gap (Other ''delta received before snapshot'') so
        | Some l \<Rightarrow>
            if \<not> continuous predicate l delta
            then gap (Other (''seq gap: last='' @ u64_to_string l @ '' update_id=''
                    @ u64_to_string (nd_update_id delta) @ '' sequence='' @ u64_to_string (nd_sequence delta))) so
            else
              process_or_gap D so delta (\<lambda>so.
                (Ok OutApplied, so\<lparr>so_last := Some (nd_update_id delta), so_state := Synced\<rparr>)))"

definition apply_model ::
  "'d decimal_ops \<Rightarrow> (string \<Rightarrow> u32) \<Rightarrow> 'd sourced_orderbook \<Rightarrow> normalized_delta \<Rightarrow> 'd apply_result"
where
  "apply_model D crc so delta =
     (case so_model so of
        FullRefresh \<Rightarrow> apply_full_refresh D so delta
      | SeqDelta predicate _ \<Rightarrow> apply_seq_delta D so delta predicate
      | ChecksumDelta fmt \<Rightarrow> apply_checksummed D crc so delta fmt
      | L3 _ \<Rightarrow> apply_l3 D so delta)"

definition so_apply ::
  "'d decimal_ops \<Rightarrow> (string \<Rightarrow> u32) \<Rightarrow> 'd sourced_orderbook \<Rightarrow> normalized_delta \<Rightarrow> 'd apply_result"
where
  "so_apply D crc so delta =
     (case apply_model D crc so delta of
        (Err e, so) \<Rightarrow> (Err e, so)
      | (Ok out, so) \<Rightarrow>
          (case (od_best_bid (so_book so), od_best_ask (so_book so)) of
             (Some (bid, _), Some (ask, _)) \<Rightarrow>
               if dec_le D ask bid
               then gap (Other (''book crossed after apply: best_bid '' @ dec_to_string D bid
                           @ '' >= best_ask '' @ dec_to_string D ask)) so
               else (Ok out, so)
           | _ \<Rightarrow> (Ok out, so)))"

definition force_gap :: "'d sourced_orderbook \<Rightarrow> 'd sourced_orderbook" where
  "force_gap so =
     so\<lparr>so_state := Gapped, so_last := None,
        so_book := (so_book so)\<lparr>od_bids := [], od_asks := []\<rparr>,
        so_l3_orders := [], so_l3_levels := []\<rparr>"

section \<open>The apply contract\<close>

definition uncrossed :: "'d decimal_ops \<Rightarrow> 'd orderbook_delta \<Rightarrow> bool" where
  "uncrossed D book \<longleftrightarrow>
     (\<forall>(b, _) \<in> set (od_bids book). \<forall>(a, _) \<in> set (od_asks book). dec_less D b a)"

definition so_wf :: "'d decimal_ops \<Rightarrow> 'd sourced_orderbook \<Rightarrow> bool" where
  "so_wf D so \<longleftrightarrow> od_wf D (so_book so)"

lemma uncrossed_by_best:
  assumes "od_wf D book"
    and "od_best_bid book = Some (b, x) \<Longrightarrow> od_best_ask book = Some (a, y) \<Longrightarrow> dec_less D b a"
    and "od_best_bid book = Some (b, x)" and "od_best_ask book = Some (a, y)"
  shows "uncrossed D book"
  unfolding uncrossed_def
proof clarify
  fix b' x' a' y'
  assume "(b', x') \<in> set (od_bids book)" "(a', y') \<in> set (od_asks book)"
  with assms have "dec_val D b' \<le> dec_val D b" "dec_val D a \<le> dec_val D a'"
    using bt_last_greatest [of "dec_val D" "od_bids book" b x b' x']
      bt_first_least [of "dec_val D" "od_asks book" a y a' y']
    by (auto simp: od_wf_def od_best_bid_def od_best_ask_def)
  with assms(2-4) show "dec_less D b' a'" by force
qed

lemma uncrossed_no_best: "od_best_bid book = None \<or> od_best_ask book = None \<Longrightarrow> uncrossed D book"
  by (auto simp: uncrossed_def od_best_bid_def od_best_ask_def bt_last_def bt_first_def
      split: if_splits list.splits)


lemma process_or_gap_cases:
  obtains (refused) e book where "process D (so_book so) delta = (Err e, book)"
      "process_or_gap D so delta k = gap (Other (orderbook_error_to_string e)) (so\<lparr>so_book := book\<rparr>)"
  | (accepted) u book where "process D (so_book so) delta = (Ok u, book)"
      "process_or_gap D so delta k = k (so\<lparr>so_book := book\<rparr>)"
proof (cases "process D (so_book so) delta")
  case (Pair r book)
  then show thesis by (cases r) (auto simp: process_or_gap_def intro: that)
qed

lemma process_wf: "od_wf D ob \<Longrightarrow> process D ob delta = (r, ob') \<Longrightarrow> od_wf D ob'"
  using process_keeps_wf [of D ob delta] by simp

text \<open>What each model's apply establishes: the shape of an answer and of the state it leaves.\<close>

definition applied_shape :: "'d sourced_orderbook \<Rightarrow> normalized_delta \<Rightarrow> 'd apply_result \<Rightarrow> bool" where
  "applied_shape so delta r \<longleftrightarrow>
     so_model (snd r) = so_model so \<and> so_recovery (snd r) = so_recovery so
   \<and> (case fst r of
        Ok out \<Rightarrow> so_state (snd r) = Synced \<and> so_last (snd r) = Some (nd_update_id delta)
          \<and> (out = OutSnapshot \<longleftrightarrow> nd_is_snapshot delta \<or> so_model so = FullRefresh)
      | Err e \<Rightarrow> so_state (snd r) = Gapped \<and> rs_action e = so_recovery so)"

lemma applied_shape_gap: "so_model so' = so_model so \<Longrightarrow> so_recovery so' = so_recovery so \<Longrightarrow> applied_shape so delta (gap reason so')"
  by (simp add: applied_shape_def gap_def)

lemma applied_shape_process:
  assumes "so_model so' = so_model so" "so_recovery so' = so_recovery so"
    and "\<And>book. applied_shape so delta (k (so'\<lparr>so_book := book\<rparr>))"
  shows "applied_shape so delta (process_or_gap D so' delta' k)"
  by (cases rule: process_or_gap_cases [of D so' delta' k]) (simp_all add: assms applied_shape_gap)

lemma apply_model_shape: "applied_shape so delta (apply_model D crc so delta)"
proof (cases "so_model so")
  case FullRefresh
  then show ?thesis
    by (auto simp: apply_model_def apply_full_refresh_def Let_def applied_shape_def [of so delta "(Ok _, _)"]
        intro!: applied_shape_process)
next
  case (SeqDelta p src)
  then show ?thesis
    by (auto simp: apply_model_def apply_seq_delta_def applied_shape_gap applied_shape_def [of so delta "(Ok _, _)"]
        intro!: applied_shape_process split: option.splits)
next
  case (ChecksumDelta fmt)
  then show ?thesis
    by (auto simp: apply_model_def apply_checksummed_def Let_def applied_shape_gap applied_shape_def [of so delta "(Ok _, _)"]
        intro!: applied_shape_process split: option.splits)
next
  case (L3 src)
  then show ?thesis
    by (auto simp: apply_model_def apply_l3_def Let_def applied_shape_gap applied_shape_def [of so delta "(Ok _, _)"]
        intro!: applied_shape_process split: prod.splits)
qed

text \<open>Well-formedness of the underlying book is kept on every path.\<close>

lemma so_wf_gap: "so_wf D so \<Longrightarrow> so_wf D (snd (gap reason so))"
  by (simp add: so_wf_def gap_def)

lemma so_wf_process:
  assumes "so_wf D so" and "\<And>book. od_wf D book \<Longrightarrow> so_wf D (snd (k (so\<lparr>so_book := book\<rparr>)))"
  shows "so_wf D (snd (process_or_gap D so delta k))"
  using assms by (cases rule: process_or_gap_cases [of D so delta k])
    (auto simp: so_wf_def gap_def dest: process_wf)

lemma apply_model_wf: "so_wf D so \<Longrightarrow> so_wf D (snd (apply_model D crc so delta))"
  by (auto simp: apply_model_def apply_full_refresh_def apply_seq_delta_def apply_checksummed_def apply_l3_def
      Let_def so_wf_gap
      split: reconstruction_model.splits option.splits prod.splits
      intro!: so_wf_process)
    (auto simp: so_wf_def gap_def)


lemma so_apply_cases:
  obtains (refused) e so' where "apply_model D crc so delta = (Err e, so')" "so_apply D crc so delta = (Err e, so')"
  | (crossed) out so' reason where "apply_model D crc so delta = (Ok out, so')" "so_apply D crc so delta = gap reason so'"
  | (applied) out so' where "apply_model D crc so delta = (Ok out, so')" "so_apply D crc so delta = (Ok out, so')"
      "so_wf D so \<Longrightarrow> uncrossed D (so_book so')"
proof (cases "apply_model D crc so delta")
  case (Pair r so')
  have wf: "so_wf D so \<Longrightarrow> od_wf D (so_book so')"
    using apply_model_wf [of D so crc delta] Pair by (simp add: so_wf_def)
  show thesis
  proof (cases r)
    case (Err e)
    with Pair show ?thesis by (intro refused) (auto simp: so_apply_def)
  next
    case (Ok out)
    show ?thesis
    proof (cases "od_best_bid (so_book so')")
      case None
      with Pair Ok show ?thesis by (intro applied) (auto simp: so_apply_def uncrossed_no_best)
    next
      case b: (Some bb)
      obtain bid x where bb: "bb = (bid, x)" by fastforce
      show ?thesis
      proof (cases "od_best_ask (so_book so')")
        case None
        with Pair Ok show ?thesis by (intro applied) (auto simp: so_apply_def uncrossed_no_best split: option.splits)
      next
        case a: (Some aa)
        obtain ask y where aa: "aa = (ask, y)" by fastforce
        show ?thesis
        proof (cases "dec_le D ask bid")
          case True
          with Pair Ok a b aa bb show ?thesis by (intro crossed) (auto simp: so_apply_def)
        next
          case False
          then have "so_wf D so \<Longrightarrow> uncrossed D (so_book so')"
            using uncrossed_by_best [OF wf, of bid x ask y] a b aa bb by simp
          with False Pair Ok a b aa bb show ?thesis by (intro applied) (auto simp: so_apply_def)
        qed
      qed
    qed
  qed
qed

lemma so_apply_shape: "applied_shape so delta (so_apply D crc so delta)"
  using apply_model_shape [of so delta D crc]
  by (cases rule: so_apply_cases [of D crc so delta]) (auto simp: applied_shape_def gap_def)

lemma so_apply_wf: "so_wf D so \<Longrightarrow> so_wf D (snd (so_apply D crc so delta))"
  using apply_model_wf [of D so crc delta]
  by (cases rule: so_apply_cases [of D crc so delta]) (auto simp: so_wf_gap)

lemma so_apply_uncrossed: "so_wf D so \<Longrightarrow> so_apply D crc so delta = (Ok out, so') \<Longrightarrow> uncrossed D (so_book so')"
  by (cases rule: so_apply_cases [of D crc so delta]) (auto simp: gap_def)

interpretation sob: flagged_machine "so_apply D crc" "so_wf D"
    "\<lambda>so. so_state so = Synced \<and> uncrossed D (so_book so)" "\<lambda>so. so_state so = Gapped" for D crc
proof
  fix so :: "'a sourced_orderbook" and i out e so'
  assume wf: "so_wf D so"
  show "so_wf D (snd (so_apply D crc so i))" using wf by (rule so_apply_wf)
  show "so_state so' = Synced \<and> uncrossed D (so_book so')" if "so_apply D crc so i = (Ok out, so')"
    using so_apply_shape [of so i D crc] so_apply_uncrossed [OF wf that] that by (simp add: applied_shape_def)
  show "so_state so' = Gapped" if "so_apply D crc so i = (Err e, so')"
    using so_apply_shape [of so i D crc] that by (simp add: applied_shape_def)
qed

lemma so_new_wf: "so_wf D (so_new pair model recovery)"
  by (simp add: so_wf_def so_new_def od_new_def od_with_max_depth_def od_wf_def)

text \<open>
  C23: applying a delta either succeeds, and then the book is synced, uncrossed and positioned at
  the delta's id, or it fails, and then the book is gapped and the signal carries the book's
  recovery action.  Nothing is dropped silently.
\<close>

theorem so_apply_contract:
  assumes "so_wf D so" and "so_apply D crc so delta = (r, so')"
  shows "case r of
      Ok out \<Rightarrow> so_state so' = Synced \<and> uncrossed D (so_book so') \<and> so_last so' = Some (nd_update_id delta)
        \<and> (out = OutSnapshot \<longleftrightarrow> nd_is_snapshot delta \<or> so_model so = FullRefresh)
    | Err e \<Rightarrow> so_state so' = Gapped \<and> rs_action e = so_recovery so"
  using so_apply_shape [of so delta D crc] assms so_apply_uncrossed [OF assms(1)]
  by (cases r) (auto simp: applied_shape_def)

text \<open>
  Whatever deltas a fresh book has been fed, it is either gapped, or synced with every bid
  below every ask.
\<close>

lemma so_run_synced_uncrossed_or_gapped:
  "let so = fold (\<lambda>d so. snd (so_apply D crc so d)) (deltas @ [delta]) (so_new pair model recovery)
   in so_state so = Synced \<and> uncrossed D (so_book so) \<or> so_state so = Gapped"
  using sob.run_good_or_flagged [OF so_new_wf [of D pair model recovery], of crc deltas delta]
  by (simp only: sob.run_def Let_def)

section \<open>Sequence continuity\<close>

lemma apply_seq_delta_continuous:
  assumes "so_apply D crc so delta = (Ok out, so')" and "so_model so = SeqDelta p src" and "\<not> nd_is_snapshot delta"
  shows "\<exists>l. so_last so = Some l \<and> continuous p l delta"
  using assms
  by (cases rule: so_apply_cases [of D crc so delta])
    (auto simp: apply_model_def apply_seq_delta_def gap_def split: option.splits if_splits)

text \<open>Feeding a list of deltas that must all be accepted.\<close>

fun so_apply_all ::
  "'d decimal_ops \<Rightarrow> (string \<Rightarrow> u32) \<Rightarrow> 'd sourced_orderbook \<Rightarrow> normalized_delta list \<Rightarrow> 'd sourced_orderbook option"
where
  "so_apply_all D crc so [] = Some so"
| "so_apply_all D crc so (d # ds) =
     (case so_apply D crc so d of
        (Ok _, so') \<Rightarrow> so_apply_all D crc so' ds
      | (Err _, _) \<Rightarrow> None)"


text \<open>
  A sequence-checked book that was forced into a gap refuses every delta until a snapshot
  arrives.
\<close>

lemma forced_gap_needs_snapshot:
  assumes "so_model so = SeqDelta p src" and "\<not> nd_is_snapshot delta"
  shows "\<exists>e so'. so_apply D crc (force_gap so) delta = (Err e, so') \<and> so_state so' = Gapped"
  using assms by (simp add: so_apply_def apply_model_def apply_seq_delta_def force_gap_def gap_def)


section \<open>The per-order book agrees with its orders\<close>

abbreviation pos_key :: "'d decimal_ops \<Rightarrow> 'd l3_pos \<Rightarrow> bool \<times> rat" where
  "pos_key D pos \<equiv> (lp_is_ask pos, dec_val D (lp_price pos))"

text \<open>The size resting at a side and price.\<close>

definition l3_total :: "'d decimal_ops \<Rightarrow> 'd l3_orders \<Rightarrow> bool \<times> rat \<Rightarrow> rat" where
  "l3_total D orders key =
     sum_list (map (\<lambda>(oid, pos). if pos_key D pos = key then dec_val D (lp_size pos) else 0) orders)"

definition l3_wf :: "'d decimal_ops \<Rightarrow> 'd l3_orders \<Rightarrow> 'd l3_levels \<Rightarrow> bool" where
  "l3_wf D orders levels \<longleftrightarrow>
     hm_wf orders \<and> (\<forall>(oid, pos) \<in> set orders. 0 < dec_val D (lp_size pos))
   \<and> (\<forall>key. case hm_get levels key of
             None \<Rightarrow> l3_total D orders key = 0
           | Some t \<Rightarrow> dec_val D t = l3_total D orders key \<and> 0 < dec_val D t)"

lemma l3_total_nonneg:
  "\<forall>(oid, pos) \<in> set orders. 0 < dec_val D (lp_size pos) \<Longrightarrow> 0 \<le> l3_total D orders key"
  unfolding l3_total_def by (rule sum_list_nonneg) (auto simp: less_imp_le)

lemma l3_total_insert:
  "hm_get orders oid = None \<Longrightarrow>
     l3_total D (hm_insert oid pos orders) key
       = l3_total D orders key + (if pos_key D pos = key then dec_val D (lp_size pos) else 0)"
  by (induction orders) (auto simp: l3_total_def split: if_splits)

lemma l3_total_remove:
  "hm_wf orders \<Longrightarrow> hm_get orders oid = Some pos \<Longrightarrow>
     l3_total D (hm_remove oid orders) key
       = l3_total D orders key - (if pos_key D pos = key then dec_val D (lp_size pos) else 0)"
proof (induction orders)
  case (Cons e orders)
  obtain k q where e: "e = (k, q)" by fastforce
  show ?case
  proof (cases "k = oid")
    case True
    with Cons.prems e have "q = pos" "oid \<notin> fst ` set orders" by (auto simp: hm_wf_def)
    then have "hm_remove oid orders = orders" by (simp add: delete_id)
    with True e \<open>q = pos\<close> show ?thesis by (simp add: l3_total_def AList.delete_eq)
  next
    case False
    with Cons e show ?thesis by (simp add: l3_total_def hm_wf_def AList.delete_eq)
  qed
qed simp

lemma l3_wf_level: "l3_wf D orders levels \<Longrightarrow> hm_get levels key = Some t \<Longrightarrow> dec_val D t = l3_total D orders key \<and> 0 < dec_val D t"
  and l3_wf_no_level: "l3_wf D orders levels \<Longrightarrow> hm_get levels key = None \<Longrightarrow> l3_total D orders key = 0"
  unfolding l3_wf_def by (elim conjE allE [of _ key], simp)+

lemma l3_remove_wf:
  assumes laws: "dec_zero_law D" "dec_exact_sub D" and wf: "l3_wf D orders levels"
    and eq: "l3_remove D oid (orders, levels, touched) = (orders', levels', touched')"
  shows "l3_wf D orders' levels' \<and> hm_get orders' oid = None"
proof (cases "hm_get orders oid")
  case None
  with eq wf show ?thesis by (simp add: l3_remove_def)
next
  case (Some old)
  let ?key = "pos_key D old"
  from eq Some have orders': "orders' = hm_remove oid orders" by (auto simp: l3_remove_def Let_def)
  have wfo: "hm_wf orders" "\<forall>(oid, pos) \<in> set orders. 0 < dec_val D (lp_size pos)"
    using wf by (auto simp: l3_wf_def)
  have pos': "\<forall>(oid, pos) \<in> set orders'. 0 < dec_val D (lp_size pos)"
    using wfo(2) by (auto simp: orders' AList.delete_eq)
  have total: "l3_total D orders' key = l3_total D orders key - (if ?key = key then dec_val D (lp_size old) else 0)" for key
    unfolding orders' by (rule l3_total_remove [OF wfo(1) Some])
  have "(oid, old) \<in> set orders" using Some by (rule map_of_SomeD)
  then have old: "0 < dec_val D (lp_size old)" using wfo(2) by fastforce
  have "0 \<le> l3_total D orders' ?key" using pos' by (rule l3_total_nonneg)
  with total [of ?key] old have "l3_total D orders ?key \<noteq> 0" by simp
  then obtain t where t: "hm_get levels ?key = Some t" using l3_wf_no_level [OF wf] by (cases "hm_get levels ?key") auto
  note lv = l3_wf_level [OF wf t]
  let ?t = "dec_sub D t (lp_size old)"
  have vt: "dec_val D ?t = l3_total D orders' ?key"
    using laws(2) lv total [of ?key] by (simp add: dec_exact_sub_def)
  have levels': "levels' = (if dec_le D ?t (dec_zero D) then hm_remove ?key levels else hm_insert ?key ?t levels)"
    using eq Some t by (auto simp: l3_remove_def Let_def)
  have "case hm_get levels' key of None \<Rightarrow> l3_total D orders' key = 0
      | Some t \<Rightarrow> dec_val D t = l3_total D orders' key \<and> 0 < dec_val D t" for key
  proof (cases "key = ?key")
    case True
    then show ?thesis
      using vt \<open>0 \<le> l3_total D orders' ?key\<close> laws(1) by (auto simp: levels' dec_zero_law_def hm_simps)
  next
    case False
    then show ?thesis
      using l3_wf_level [OF wf, of key] l3_wf_no_level [OF wf, of key] total [of key]
      by (auto simp: levels' hm_simps split: option.splits)
  qed
  moreover have "hm_wf orders'" "hm_get orders' oid = None" using wfo(1) by (simp_all add: orders' hm_simps)
  ultimately show ?thesis using pos' unfolding l3_wf_def by blast
qed

lemma l3_place_wf:
  assumes laws: "dec_zero_law D" "dec_exact_add D" and wf: "l3_wf D orders levels"
    and fresh: "hm_get orders (l3_order_id ord) = None"
    and eq: "l3_place D ord (orders, levels, touched) = (orders', levels', touched')"
  shows "l3_wf D orders' levels'"
proof (cases "orders' = orders \<and> levels' = levels")
  case False
  then obtain price sz where sz: "0 < dec_val D sz"
    and orders': "orders' = hm_insert (l3_order_id ord) \<lparr>lp_is_ask = l3_is_ask ord, lp_price = price, lp_size = sz\<rparr> orders"
    and levels': "levels' = hm_insert (l3_is_ask ord, dec_val D price)
        (dec_add D (unwrap_or (hm_get levels (l3_is_ask ord, dec_val D price)) (dec_zero D)) sz) levels"
    using eq laws(1) unfolding l3_place_def Let_def dec_zero_law_def
    by (simp split: option.splits if_splits) (metis not_le)
  let ?key = "(l3_is_ask ord, dec_val D price)"
  have total: "l3_total D orders' key = l3_total D orders key + (if ?key = key then dec_val D sz else 0)" for key
    using l3_total_insert [OF fresh, of D "\<lparr>lp_is_ask = l3_is_ask ord, lp_price = price, lp_size = sz\<rparr>" key]
    by (simp add: orders')
  have wfo: "hm_wf orders" "\<forall>(oid, pos) \<in> set orders. 0 < dec_val D (lp_size pos)"
    using wf by (auto simp: l3_wf_def)
  have pos': "\<forall>(oid, pos) \<in> set orders'. 0 < dec_val D (lp_size pos)"
    using wfo(2) sz by (auto simp: orders' dest!: hm_insert_set)
  have prev: "dec_val D (unwrap_or (hm_get levels ?key) (dec_zero D)) = l3_total D orders ?key"
    using l3_wf_level [OF wf, of ?key] l3_wf_no_level [OF wf, of ?key] laws(1)
    by (cases "hm_get levels ?key") (auto simp: dec_zero_law_def)
  have "case hm_get levels' key of None \<Rightarrow> l3_total D orders' key = 0
      | Some t \<Rightarrow> dec_val D t = l3_total D orders' key \<and> 0 < dec_val D t" for key
  proof (cases "key = ?key")
    case True
    then show ?thesis
      using laws(2) prev sz l3_total_nonneg [OF wfo(2), of ?key] total [of ?key]
      by (simp add: levels' hm_simps dec_exact_add_def)
  next
    case False
    then show ?thesis
      using l3_wf_level [OF wf, of key] l3_wf_no_level [OF wf, of key] total [of key]
      by (auto simp: levels' hm_simps split: option.splits)
  qed
  moreover have "hm_wf orders'" using wfo(1) by (simp add: orders')
  ultimately show ?thesis using pos' unfolding l3_wf_def by blast
qed (use wf in simp)

lemma l3_step_wf:
  assumes "dec_zero_law D" "dec_exact_add D" "dec_exact_sub D" and "l3_wf D orders levels"
    and "l3_step D ord (orders, levels, touched) = (orders', levels', touched')"
  shows "l3_wf D orders' levels'"
proof -
  obtain o1 l1 t1 where rm: "l3_remove D (l3_order_id ord) (orders, levels, touched) = (o1, l1, t1)"
    by (metis prod_cases3)
  from l3_remove_wf [OF assms(1,3,4) rm] have wf1: "l3_wf D o1 l1" "hm_get o1 (l3_order_id ord) = None" by auto
  show ?thesis
    using assms(5) wf1 l3_place_wf [OF assms(1,2) wf1] by (auto simp: l3_step_def rm Let_def split: if_splits)
qed


text \<open>Only touched keys change their level.\<close>

definition tkeys :: "'d decimal_ops \<Rightarrow> (bool \<times> 'd) list \<Rightarrow> (bool \<times> rat) set" where
  "tkeys D touched = (\<lambda>k. (fst k, dec_val D (snd k))) ` set touched"

lemma tkeys_touch: "tkeys D (touch D key touched) = insert (fst key, dec_val D (snd key)) (tkeys D touched)"
  by (auto simp: tkeys_def touch_def list_ex_iff image_iff)

definition l3_frame :: "'d decimal_ops \<Rightarrow> 'd l3_levels \<Rightarrow> (bool \<times> 'd) list \<Rightarrow> 'd l3_levels \<Rightarrow> (bool \<times> 'd) list \<Rightarrow> bool" where
  "l3_frame D levels touched levels' touched' \<longleftrightarrow>
     tkeys D touched \<subseteq> tkeys D touched'
   \<and> (\<forall>key. key \<notin> tkeys D touched' \<longrightarrow> hm_get levels' key = hm_get levels key)"

lemma l3_frame_refl: "l3_frame D levels touched levels touched"
  by (simp add: l3_frame_def)

lemma l3_frame_untouched: "l3_frame D l t l' t' \<Longrightarrow> key \<notin> tkeys D t' \<Longrightarrow> hm_get l' key = hm_get l key"
  unfolding l3_frame_def by blast

lemma l3_frame_trans: "l3_frame D l t l1 t1 \<Longrightarrow> l3_frame D l1 t1 l2 t2 \<Longrightarrow> l3_frame D l t l2 t2"
  unfolding l3_frame_def by (metis subset_iff)

lemma l3_frame_touch:
  "\<forall>k. k \<noteq> (fst key, dec_val D (snd key)) \<longrightarrow> hm_get levels' k = hm_get levels k \<Longrightarrow>
     l3_frame D levels touched levels' (touch D key touched)"
  unfolding l3_frame_def tkeys_touch by blast

lemma l3_remove_frame:
  "l3_remove D oid (orders, levels, touched) = (orders', levels', touched') \<Longrightarrow> l3_frame D levels touched levels' touched'"
  by (auto simp: l3_remove_def Let_def hm_simps l3_frame_refl split: option.splits if_splits intro!: l3_frame_touch)

lemma l3_place_frame:
  "l3_place D ord (orders, levels, touched) = (orders', levels', touched') \<Longrightarrow> l3_frame D levels touched levels' touched'"
  by (auto simp: l3_place_def Let_def hm_simps l3_frame_refl split: option.splits if_splits intro!: l3_frame_touch)

lemma l3_step_frame:
  assumes "l3_step D ord (orders, levels, touched) = (orders', levels', touched')"
  shows "l3_frame D levels touched levels' touched'"
proof -
  obtain o1 l1 t1 where rm: "l3_remove D (l3_order_id ord) (orders, levels, touched) = (o1, l1, t1)"
    by (metis prod_cases3)
  have "l3_frame D l1 t1 levels' touched'"
    using assms by (auto simp: l3_step_def rm Let_def l3_frame_refl split: if_splits intro: l3_place_frame)
  with l3_remove_frame [OF rm] show ?thesis by (rule l3_frame_trans)
qed

lemma l3_fold:
  assumes "dec_zero_law D" "dec_exact_add D" "dec_exact_sub D" and "l3_wf D orders levels"
    and "fold (l3_step D) os (orders, levels, touched) = (orders', levels', touched')"
  shows "l3_wf D orders' levels' \<and> l3_frame D levels touched levels' touched'"
  using assms(4,5)
proof (induction os arbitrary: orders levels touched)
  case (Cons ord os)
  obtain o1 l1 t1 where st: "l3_step D ord (orders, levels, touched) = (o1, l1, t1)" by (metis prod_cases3)
  from l3_step_wf [OF assms(1-3) Cons.prems(1) st] have wf1: "l3_wf D o1 l1" .
  from Cons.prems(2) st have "fold (l3_step D) os (o1, l1, t1) = (orders', levels', touched')" by simp
  from Cons.IH [OF wf1 this] l3_step_frame [OF st] show ?case by (auto intro: l3_frame_trans)
qed (simp add: l3_frame_refl)

text \<open>The level a side of the book shows at a price, as a number.\<close>

definition book_at :: "'d decimal_ops \<Rightarrow> 'd orderbook_delta \<Rightarrow> bool \<times> rat \<Rightarrow> rat option" where
  "book_at D book = (\<lambda>(is_ask, r).
     map_option (dec_val D) (bt_map (dec_val D) (if is_ask then od_asks book else od_bids book) r))"

definition l3_consistent :: "'d decimal_ops \<Rightarrow> 'd sourced_orderbook \<Rightarrow> bool" where
  "l3_consistent D so \<longleftrightarrow>
     l3_wf D (so_l3_orders so) (so_l3_levels so) \<and> od_wf D (so_book so)
   \<and> (\<forall>key. book_at D (so_book so) key =
        (if l3_total D (so_l3_orders so) key = 0 then None else Some (l3_total D (so_l3_orders so) key)))"

lemma fold_level_write_uniform:
  assumes "\<forall>(p, s) \<in> set es. dec_val D p = r \<longrightarrow> dec_val D s = v"
  shows "map_option (dec_val D) (fold (level_write D) es M r) =
    (if r \<in> dec_val D ` fst ` set es then (if v = dec_val D (dec_zero D) then None else Some v)
     else map_option (dec_val D) (M r))"
  using assms
proof (induction es arbitrary: M)
  case (Cons e es)
  obtain p s where e: "e = (p, s)" by fastforce
  from Cons.prems have "\<forall>(p, s) \<in> set es. dec_val D p = r \<longrightarrow> dec_val D s = v" by simp
  note IH = Cons.IH [OF this, of "level_write D e M"]
  show ?case
  proof (cases "dec_val D p = r")
    case True
    with Cons.prems e have "map_option (dec_val D) (level_write D e M r) =
        (if v = dec_val D (dec_zero D) then None else Some v)"
      by (auto simp: level_write_def)
    moreover have "r \<in> dec_val D ` fst ` set (e # es)" using True e by simp
    ultimately show ?thesis unfolding fold_simps IH by simp
  next
    case False
    then have "r \<in> dec_val D ` fst ` set (e # es) \<longleftrightarrow> r \<in> dec_val D ` fst ` set es" using e by auto
    moreover have "level_write D e M r = M r" using False e by (simp add: level_write_def)
    ultimately show ?thesis unfolding fold_simps IH by simp
  qed
qed simp

definition level_val :: "'d decimal_ops \<Rightarrow> 'd l3_levels \<Rightarrow> bool \<times> rat \<Rightarrow> rat" where
  "level_val D levels key = dec_val D (unwrap_or (hm_get levels key) (dec_zero D))"

lemma level_val_total: "dec_zero_law D \<Longrightarrow> l3_wf D orders levels \<Longrightarrow> level_val D levels key = l3_total D orders key"
  using l3_wf_level [of D orders levels key] l3_wf_no_level [of D orders levels key]
  by (cases "hm_get levels key") (auto simp: level_val_def dec_zero_law_def)

text \<open>The touched rows parse back to their prices and level totals.\<close>

lemma touched_rows_parse:
  assumes "dec_print_parse D"
  obtains es where "parse_rows D (touched_rows D levels is_ask touched) = Some es"
    and "side_vals D es = map (\<lambda>r. (r, level_val D levels (is_ask, r)))
        (map (dec_val D \<circ> snd) (filter (\<lambda>k. fst k = is_ask) touched))"
proof -
  let ?rows = "map (\<lambda>k. (snd k, unwrap_or (hm_get levels (fst k, dec_val D (snd k))) (dec_zero D)))
      (filter (\<lambda>k. fst k = is_ask) touched)"
  have "touched_rows D levels is_ask touched = map (\<lambda>(p, s). (dec_to_string D p, dec_to_string D s)) ?rows"
    by (simp add: touched_rows_def)
  moreover have "side_vals D ?rows = map (\<lambda>r. (r, level_val D levels (is_ask, r)))
        (map (dec_val D \<circ> snd) (filter (\<lambda>k. fst k = is_ask) touched))"
    by (simp add: side_vals_def level_val_def)
  ultimately show thesis using parse_printed_rows [OF assms, of ?rows] that by metis
qed

lemma side_vals_keys: "dec_val D ` fst ` set es = fst ` set (side_vals D es)"
  by (simp add: side_vals_def image_image case_prod_unfold)

lemma side_vals_mem: "(p, s) \<in> set es \<Longrightarrow> (dec_val D p, dec_val D s) \<in> set (side_vals D es)"
  by (auto simp: side_vals_def)

lemma touched_write:
  assumes es: "side_vals D es = map (\<lambda>r. (r, level_val D levels (is_ask, r)))
        (map (dec_val D \<circ> snd) (filter (\<lambda>k. fst k = is_ask) touched))"
  shows "map_option (dec_val D) (fold (level_write D) es M r) =
    (if (is_ask, r) \<in> tkeys D touched
     then (if level_val D levels (is_ask, r) = dec_val D (dec_zero D) then None else Some (level_val D levels (is_ask, r)))
     else map_option (dec_val D) (M r))"
proof -
  have "\<forall>(p, s) \<in> set es. dec_val D p = r \<longrightarrow> dec_val D s = level_val D levels (is_ask, r)"
    using side_vals_mem [of _ _ es D] unfolding es by fastforce
  moreover have "dec_val D ` fst ` set es = {r. (is_ask, r) \<in> tkeys D touched}"
    unfolding side_vals_keys es by (force simp: image_iff tkeys_def)
  ultimately show ?thesis using fold_level_write_uniform [of es D r] by simp
qed


lemma apply_l3_Ok:
  assumes "so_apply D crc so delta = (Ok out, so')" and "so_model so = L3 src"
  obtains orders levels touched u d where
    "fold (l3_step D) (nd_orders delta)
       (if nd_is_snapshot delta then ([], [], []) else (so_l3_orders so, so_l3_levels so, [])) = (orders, levels, touched)"
    "nd_bids d = touched_rows D levels False touched" "nd_asks d = touched_rows D levels True touched"
    "nd_is_snapshot d = nd_is_snapshot delta"
    "process D (so_book so) d = (Ok u, so_book so')"
    "so_l3_orders so' = orders" "so_l3_levels so' = levels"
proof -
  obtain orders levels touched where f: "fold (l3_step D) (nd_orders delta)
       (if nd_is_snapshot delta then ([], [], []) else (so_l3_orders so, so_l3_levels so, [])) = (orders, levels, touched)"
    by (metis prod_cases3)
  let ?d = "\<lparr>nd_symbol = nd_symbol delta,
       nd_bids = touched_rows D levels False touched, nd_asks = touched_rows D levels True touched,
       nd_update_id = nd_update_id delta, nd_sequence = nd_sequence delta,
       nd_source_ts_us = nd_source_ts_us delta, nd_local_ts_us = 0, nd_rtt_us = 0,
       nd_checksum = None, nd_orders = [], nd_is_snapshot = nd_is_snapshot delta\<rparr>"
  have "apply_l3 D so delta = (Ok out, so')"
    using assms by (cases rule: so_apply_cases [of D crc so delta]) (auto simp: apply_model_def gap_def)
  then have "\<exists>u. process D (so_book so) ?d = (Ok u, so_book so') \<and> so_l3_orders so' = orders \<and> so_l3_levels so' = levels"
    using f by (auto simp: apply_l3_def Let_def gap_def process_or_gap_def split: if_splits prod.splits result.splits)
  then show thesis using f by (elim exE conjE) (rule that [of orders levels touched ?d], simp_all)
qed

lemma touched_write_positive:
  assumes law: "dec_zero_law D"
    and es: "side_vals D es = map (\<lambda>r. (r, level_val D levels (is_ask, r)))
        (map (dec_val D \<circ> snd) (filter (\<lambda>k. fst k = is_ask) touched))"
  shows "map_option (dec_val D) (fold (level_write D) (positive_rows D es) Map.empty r) =
    (if (is_ask, r) \<in> tkeys D touched \<and> 0 < level_val D levels (is_ask, r)
     then Some (level_val D levels (is_ask, r)) else None)"
proof -
  let ?v = "level_val D levels (is_ask, r)"
  have uni: "dec_val D s = ?v" if "(p, s) \<in> set es" "dec_val D p = r" for p s
    using side_vals_mem [OF that(1), of D] that(2) unfolding es by auto
  have mem: "r \<in> dec_val D ` fst ` set es \<longleftrightarrow> (is_ask, r) \<in> tkeys D touched"
    unfolding side_vals_keys es by (force simp: image_iff tkeys_def)
  have "r \<in> dec_val D ` fst ` set (positive_rows D es) \<longleftrightarrow> r \<in> dec_val D ` fst ` set es \<and> 0 < ?v"
  proof
    assume "r \<in> dec_val D ` fst ` set (positive_rows D es)"
    then obtain p s where "(p, s) \<in> set es" "dec_val D p = r" "0 < dec_val D s"
      using law by (auto simp: dec_zero_law_def)
    with uni show "r \<in> dec_val D ` fst ` set es \<and> 0 < ?v" by force
  next
    assume "r \<in> dec_val D ` fst ` set es \<and> 0 < ?v"
    then obtain p s where ps: "(p, s) \<in> set es" "dec_val D p = r" "0 < ?v" by auto
    with uni law have "(p, s) \<in> set (positive_rows D es)" by (simp add: dec_zero_law_def)
    with ps show "r \<in> dec_val D ` fst ` set (positive_rows D es)" by force
  qed
  moreover have "\<forall>(p, s) \<in> set (positive_rows D es). dec_val D p = r \<longrightarrow> dec_val D s = ?v"
    using uni by auto
  ultimately show ?thesis
    using fold_level_write_uniform [of "positive_rows D es" D r ?v Map.empty] law mem
    by (simp add: dec_zero_law_def)
qed

lemma l3_wf_Nil: "l3_wf D [] []"
  by (simp add: l3_wf_def l3_total_def)

lemma l3_snapshot_consistent:
  assumes laws: "dec_zero_law D" "dec_exact_add D" "dec_exact_sub D" "dec_print_parse D"
    and wf: "od_wf D (so_book so)" and depth: "od_max_depth (so_book so) = None"
    and model: "so_model so = L3 src" and snap: "nd_is_snapshot delta"
    and run: "so_apply D crc so delta = (Ok out, so')"
  shows "l3_consistent D so'"
proof -
  from run model obtain orders levels touched u d where
    f: "fold (l3_step D) (nd_orders delta) ([], [], []) = (orders, levels, touched)"
    and d: "nd_bids d = touched_rows D levels False touched" "nd_asks d = touched_rows D levels True touched"
      "nd_is_snapshot d"
    and pr: "process D (so_book so) d = (Ok u, so_book so')"
    and so': "so_l3_orders so' = orders" "so_l3_levels so' = levels"
    by (rule apply_l3_Ok) (use snap in simp)
  from l3_fold [OF laws(1-3) l3_wf_Nil f] have l3: "l3_wf D orders levels" "l3_frame D [] [] levels touched" by auto
  from process_snapshot_maps [OF d(3) pr] obtain bs as where
    rows: "parse_rows D (nd_bids d) = Some bs" "parse_rows D (nd_asks d) = Some as"
    and maps: "bt_map (dec_val D) (od_bids (so_book so')) = fold (level_write D) (positive_rows D bs) Map.empty"
      "bt_map (dec_val D) (od_asks (so_book so')) = fold (level_write D) (positive_rows D as) Map.empty"
    by (auto simp: depth highest_def lowest_def)
  have vals: "side_vals D bs = map (\<lambda>r. (r, level_val D levels (False, r))) (map (dec_val D \<circ> snd) (filter (\<lambda>k. fst k = False) touched))"
    "side_vals D as = map (\<lambda>r. (r, level_val D levels (True, r))) (map (dec_val D \<circ> snd) (filter (\<lambda>k. fst k = True) touched))"
    using touched_rows_parse [OF laws(4), of levels False touched]
      touched_rows_parse [OF laws(4), of levels True touched] rows d by (metis option.inject)+
  have total: "level_val D levels key = l3_total D orders key" for key
    by (rule level_val_total [OF laws(1) l3(1)])
  have pos: "0 \<le> l3_total D orders key" for key
    using l3(1) by (intro l3_total_nonneg) (simp add: l3_wf_def)
  have fresh: "l3_total D orders key = 0" if "key \<notin> tkeys D touched" for key
    using l3_frame_untouched [OF l3(2) that] l3_wf_no_level [OF l3(1), of key] by simp
  have "book_at D (so_book so') (a, r) = (if l3_total D orders (a, r) = 0 then None else Some (l3_total D orders (a, r)))" for a r
    using touched_write_positive [OF laws(1) vals(1), of r] touched_write_positive [OF laws(1) vals(2), of r]
      fresh [of "(a, r)"] pos [of "(a, r)"]
    by (cases a) (auto simp: book_at_def maps total)
  with l3(1) process_wf [OF wf pr] show ?thesis by (auto simp: l3_consistent_def so')
qed

lemma l3_delta_consistent:
  assumes laws: "dec_zero_law D" "dec_exact_add D" "dec_exact_sub D" "dec_print_parse D"
    and cons: "l3_consistent D so" and depth: "od_max_depth (so_book so) = None"
    and model: "so_model so = L3 src" and delta: "\<not> nd_is_snapshot delta"
    and run: "so_apply D crc so delta = (Ok out, so')"
  shows "l3_consistent D so'"
proof -
  from cons have wf: "od_wf D (so_book so)" "l3_wf D (so_l3_orders so) (so_l3_levels so)"
    and at: "book_at D (so_book so) key = (if l3_total D (so_l3_orders so) key = 0 then None
        else Some (l3_total D (so_l3_orders so) key))" for key
    unfolding l3_consistent_def by blast+
  from run model obtain orders levels touched u d where
    f: "fold (l3_step D) (nd_orders delta) (so_l3_orders so, so_l3_levels so, []) = (orders, levels, touched)"
    and d: "nd_bids d = touched_rows D levels False touched" "nd_asks d = touched_rows D levels True touched"
      "\<not> nd_is_snapshot d"
    and pr: "process D (so_book so) d = (Ok u, so_book so')"
    and so': "so_l3_orders so' = orders" "so_l3_levels so' = levels"
    by (rule apply_l3_Ok) (use delta in simp)
  from l3_fold [OF laws(1-3) wf(2) f] have l3: "l3_wf D orders levels" "l3_frame D (so_l3_levels so) [] levels touched" by auto
  from process_delta_maps [OF wf(1) d(3) pr] obtain bs as where
    rows: "parse_rows D (nd_bids d) = Some bs" "parse_rows D (nd_asks d) = Some as"
    and maps: "bt_map (dec_val D) (od_bids (so_book so')) = fold (level_write D) bs (bt_map (dec_val D) (od_bids (so_book so)))"
      "bt_map (dec_val D) (od_asks (so_book so')) = fold (level_write D) as (bt_map (dec_val D) (od_asks (so_book so)))"
    by (auto simp: depth highest_def lowest_def)
  have vals: "side_vals D bs = map (\<lambda>r. (r, level_val D levels (False, r))) (map (dec_val D \<circ> snd) (filter (\<lambda>k. fst k = False) touched))"
    "side_vals D as = map (\<lambda>r. (r, level_val D levels (True, r))) (map (dec_val D \<circ> snd) (filter (\<lambda>k. fst k = True) touched))"
    using touched_rows_parse [OF laws(4), of levels False touched]
      touched_rows_parse [OF laws(4), of levels True touched] rows d by (metis option.inject)+
  have total: "level_val D levels key = l3_total D orders key"
    "level_val D (so_l3_levels so) key = l3_total D (so_l3_orders so) key" for key
    by (rule level_val_total [OF laws(1) l3(1)], rule level_val_total [OF laws(1) wf(2)])
  have same: "l3_total D (so_l3_orders so) key = l3_total D orders key" if "key \<notin> tkeys D touched" for key
    using l3_frame_untouched [OF l3(2) that] unfolding total [symmetric] by (simp add: level_val_def)
  have "book_at D (so_book so') (a, r) = (if l3_total D orders (a, r) = 0 then None else Some (l3_total D orders (a, r)))" for a r
    using touched_write [OF vals(1), of "bt_map (dec_val D) (od_bids (so_book so))" r]
      touched_write [OF vals(2), of "bt_map (dec_val D) (od_asks (so_book so))" r]
      same [of "(a, r)"] at [of "(a, r)"] laws(1)
    by (cases a) (auto simp: book_at_def maps total dec_zero_law_def)
  with l3(1) process_wf [OF wf(1) pr] show ?thesis by (auto simp: l3_consistent_def so')
qed



section \<open>The lifecycle state does not gate updates\<close>

lemma process_or_gap_state:
  assumes "\<And>book. k (so\<lparr>so_state := st, so_book := book\<rparr>) = k (so\<lparr>so_book := book\<rparr>)"
  shows "process_or_gap D (so\<lparr>so_state := st\<rparr>) d k = process_or_gap D so d k"
    using assms by (simp add: process_or_gap_def gap_def split: prod.splits result.splits)

text \<open>
  The answer to a delta does not depend on the lifecycle state.  A gapped book takes the next
  delta its model accepts, and a closed book is brought back to synced.
\<close>

lemma so_apply_ignores_lifecycle:
  "so_apply D crc (so\<lparr>so_state := st\<rparr>) delta = so_apply D crc so delta"
proof -
  have "apply_full_refresh D (so\<lparr>so_state := st\<rparr>) delta = apply_full_refresh D so delta"
    by (simp add: apply_full_refresh_def process_or_gap_state)
  moreover have "apply_seq_delta D (so\<lparr>so_state := st\<rparr>) delta p = apply_seq_delta D so delta p" for p
    by (simp add: apply_seq_delta_def gap_def process_or_gap_state split: option.splits)
  moreover have "apply_checksummed D crc (so\<lparr>so_state := st\<rparr>) delta p = apply_checksummed D crc so delta p" for p
    unfolding apply_checksummed_def by (intro process_or_gap_state) (simp add: Let_def gap_def split: option.splits)
  moreover have "apply_l3 D (so\<lparr>so_state := st\<rparr>) delta = apply_l3 D so delta"
    by (cases "nd_is_snapshot delta") (auto simp: apply_l3_def Let_def gap_def process_or_gap_def split: prod.splits result.splits)
  ultimately have "apply_model D crc (so\<lparr>so_state := st\<rparr>) delta = apply_model D crc so delta"
    by (simp add: apply_model_def split: reconstruction_model.splits)
  then show ?thesis by (simp add: so_apply_def)
qed

section \<open>Concrete runs\<close>

definition sample_l3_delta :: "bool \<Rightarrow> l3_order list \<Rightarrow> normalized_delta" where
  "sample_l3_delta snap orders = (sample_delta snap)\<lparr>nd_bids := [], nd_asks := [], nd_orders := orders\<rparr>"

definition sample_l3_orders :: "l3_order list" where
  "sample_l3_orders =
     [\<lparr>l3_order_id = ''a'', l3_is_ask = False, l3_price = ''100'', l3_size = ''1'', l3_removed = False\<rparr>,
      \<lparr>l3_order_id = ''b'', l3_is_ask = False, l3_price = ''100.0'', l3_size = ''2.5'', l3_removed = False\<rparr>,
      \<lparr>l3_order_id = ''c'', l3_is_ask = True, l3_price = ''101'', l3_size = ''4'', l3_removed = False\<rparr>]"

definition sample_pair :: trading_pair where
  "sample_pair = \<lparr>tp_base = ''BTC'', tp_quote = ''USDT''\<rparr>"

lemma sample_l3_run:
  "is_ok (fst (so_apply exact_decimal (\<lambda>_. 0) (so_new sample_pair (L3 RestSnapshot) ActRestSnapshot)
     (sample_l3_delta True sample_l3_orders)))"
proof -
  have p: "xparse ''100'' = Some (100, 0)" "xparse ''1'' = Some (1, 0)" "xparse ''100.0'' = Some (1000, 1)"
    "xparse ''2.5'' = Some (25, 1)" "xparse ''101'' = Some (101, 0)" "xparse ''4'' = Some (4, 0)"
    by code_simp+
  have pr: "parse_decimal exact_decimal (xprint d) = Ok d" for d
    by (simp add: parse_decimal_def xparse_xprint)
  have sy: "pair_from_str ''BTCUSDT'' = Ok \<lparr>tp_base = ''BTC'', tp_quote = ''USDT''\<rparr>" by code_simp
  have len: "\<not> L3_MAX_ORDERS < length [a, b, c]" for a b c by (simp add: L3_MAX_ORDERS_def)
  show ?thesis
    apply (simp add: so_apply_def apply_model_def so_new_def apply_l3_def sample_l3_delta_def sample_l3_orders_def
       Let_def l3_step_def l3_remove_def l3_place_def p xval_def touch_def L3_MAX_ORDERS_def
       process_or_gap_def process_def sample_delta_def sy sample_pair_def od_new_def
       apply_snapshot_def touched_rows_def pr xadd_def)
    by (simp add: prune_to_depth_def od_best_bid_def od_best_ask_def bt_last_def bt_first_def xval_def)
qed

lemma sample_seq_run:
  "\<exists>so'. so_apply_all exact_decimal (\<lambda>_. 0) (so_new sample_pair (SeqDelta ExactPrev WssSelfSeed) ActResubscribe)
     [sample_delta True, (sample_delta False)\<lparr>nd_sequence := 6\<rparr>] = Some so'"
proof -
  have p: "xparse ''101'' = Some (101, 0)" "xparse ''0'' = Some (0, 0)" "xparse ''99.5'' = Some (995, 1)"
    "xparse ''4'' = Some (4, 0)" "xparse ''102.5'' = Some (1025, 1)" "xparse ''1'' = Some (1, 0)"
    "xparse ''103'' = Some (103, 0)" "xparse ''2'' = Some (2, 0)"
    by code_simp+
  have sy: "pair_from_str ''BTCUSDT'' = Ok \<lparr>tp_base = ''BTC'', tp_quote = ''USDT''\<rparr>" by code_simp
  show ?thesis
    by (simp add: so_apply_def apply_model_def so_new_def apply_seq_delta_def Let_def p xval_def
       process_or_gap_def process_def sample_delta_def sy sample_pair_def od_new_def
       apply_snapshot_def apply_delta_def apply_level_def bt_get_def parse_decimal_def prune_to_depth_def
       od_best_bid_def od_best_ask_def bt_last_def bt_first_def)
qed

theorem so_apply_contract_witness:
  "\<exists>out so'. so_apply exact_decimal (\<lambda>_. 0) (so_new sample_pair (L3 RestSnapshot) ActRestSnapshot)
       (sample_l3_delta True sample_l3_orders) = (Ok out, so')
     \<and> so_state so' = Synced \<and> uncrossed exact_decimal (so_book so')"
proof -
  obtain out so' where run: "so_apply exact_decimal (\<lambda>_. 0) (so_new sample_pair (L3 RestSnapshot) ActRestSnapshot)
       (sample_l3_delta True sample_l3_orders) = (Ok out, so')"
    using sample_l3_run by (metis is_ok_iff prod.collapse)
  from so_apply_contract [OF so_new_wf run] run show ?thesis by auto
qed



end
