(* ===== verification/Sourced_Trades.thy ===== *)
theory Sourced_Trades
  imports Feed_Model
begin

text \<open>
  \<open>SourcedTradebook\<close> (\<open>aetelier-connect/src/framework/model.rs\<close>): the per-pair trade log's
  continuity accounting.  The print itself is forwarded by the caller; the book keeps the position
  in the venue's trade sequence and counts prints, breaks and prints lost.
\<close>

record sourced_tradebook =
  tb_pair :: trading_pair
  tb_last_seq :: "u64 option"
  tb_state :: trade_book_state
  tb_count :: u64
  tb_gap_events :: u64
  tb_trades_lost :: u64

definition tb_new :: "trading_pair \<Rightarrow> sourced_tradebook" where
  "tb_new pair =
     \<lparr>tb_pair = pair, tb_last_seq = None, tb_state = TbEmpty, tb_count = 0, tb_gap_events = 0,
      tb_trades_lost = 0\<rparr>"

definition with_last_seq :: "u64 option \<Rightarrow> sourced_tradebook \<Rightarrow> sourced_tradebook" where
  "with_last_seq s tb = tb\<lparr>tb_last_seq := s\<rparr>"

definition tb_close :: "sourced_tradebook \<Rightarrow> sourced_tradebook" where
  "tb_close tb = tb\<lparr>tb_state := TbClosed\<rparr>"

text \<open>The tail of \<open>apply\<close>: move the position, count the print.\<close>

definition tb_append :: "u64 option \<Rightarrow> sourced_tradebook \<Rightarrow> sourced_tradebook" where
  "tb_append sequence tb =
     tb\<lparr>tb_last_seq := (case sequence of Some s \<Rightarrow> Some s | None \<Rightarrow> tb_last_seq tb),
        tb_count := tb_count tb + 1, tb_state := TbSynced\<rparr>"

definition tb_apply :: "u64 option \<Rightarrow> sourced_tradebook \<Rightarrow> trade_apply \<times> sourced_tradebook" where
  "tb_apply sequence tb =
     (case (sequence, tb_last_seq tb) of
        (Some s, Some l) \<Rightarrow>
          if s \<le> l then (Duplicate, tb)
          else if s > l + 1 then
            let missed = s - l - 1 in
            (GappedApplied missed,
             tb_append sequence
               (tb\<lparr>tb_gap_events := tb_gap_events tb + 1, tb_trades_lost := tb_trades_lost tb + missed\<rparr>))
          else (Applied, tb_append sequence tb)
      | _ \<Rightarrow> (Applied, tb_append sequence tb))"

section \<open>Conservation\<close>

text \<open>From a seeded position \<open>l0\<close>: every sequence number up to the current one is counted or lost.\<close>

definition tb_balanced :: "u64 \<Rightarrow> sourced_tradebook \<Rightarrow> bool" where
  "tb_balanced l0 tb \<longleftrightarrow>
     (\<exists>l. tb_last_seq tb = Some l \<and> l0 \<le> l
        \<and> unat (tb_count tb) + unat (tb_trades_lost tb) = unat l - unat l0
        \<and> unat (tb_gap_events tb) \<le> unat (tb_trades_lost tb))"

lemma unat_add_fits: "unat a + unat (b :: u64) < 2 ^ 64 \<Longrightarrow> unat (a + b) = unat a + unat b"
  by (simp add: unat_word_ariths)

lemma unat_missed:
  assumes "l < s"
  shows "unat (s - l - 1 :: u64) = unat s - unat l - 1"
proof -
  have "unat (s - l) = unat s - unat l" using assms by (simp add: unat_sub less_imp_le)
  moreover from this assms have "1 \<le> s - l" by (simp add: word_le_nat_alt word_less_nat_alt)
  ultimately show ?thesis by (simp add: unat_sub)
qed

lemma unat_next: "l < s \<Longrightarrow> unat (l + 1 :: u64) = unat l + 1"
proof -
  assume "l < s"
  moreover have "unat s < 2 ^ 64" using unsigned_less [where 'a = nat, of s] by simp
  ultimately show ?thesis by (subst unat_add_fits) (simp_all add: word_less_nat_alt)
qed

lemma tb_apply_balanced:
  assumes "tb_balanced l0 tb"
  shows "tb_balanced l0 (snd (tb_apply (Some s) tb))"
proof -
  from assms obtain l where l: "tb_last_seq tb = Some l" "l0 \<le> l"
    "unat (tb_count tb) + unat (tb_trades_lost tb) = unat l - unat l0"
    "unat (tb_gap_events tb) \<le> unat (tb_trades_lost tb)"
    by (auto simp: tb_balanced_def)
  have s64: "unat s < 2 ^ 64" using unsigned_less [where 'a = nat, of s] by simp
  have l0: "unat l0 \<le> unat l" using l(2) by (simp add: word_le_nat_alt)
  show ?thesis
  proof (cases "s \<le> l")
    case True
    with assms l show ?thesis by (simp add: tb_apply_def)
  next
    case False
    then have lt: "l < s" "unat l < unat s" by (auto simp: word_le_nat_alt word_less_nat_alt)
    have c1: "unat (tb_count tb + 1) = unat (tb_count tb) + 1"
      by (subst unat_add_fits) (use l lt l0 s64 in simp_all)
    show ?thesis
    proof (cases "s > l + 1")
      case True
      have miss: "unat (s - l - 1) = unat s - unat l - 1" "1 \<le> unat s - unat l - 1"
        using unat_missed [OF lt(1)] True unat_next [OF lt(1)] by (simp_all add: word_less_nat_alt)
      have lost: "unat (tb_trades_lost tb + (s - l - 1)) = unat (tb_trades_lost tb) + unat (s - l - 1)"
        by (subst unat_add_fits) (use l lt l0 s64 miss in simp_all)
      have ev: "unat (tb_gap_events tb + 1) = unat (tb_gap_events tb) + 1"
        by (subst unat_add_fits) (use l lt l0 s64 in simp_all)
      have "l0 \<le> s" using lt l0 by (simp add: word_le_nat_alt)
      moreover have "unat (tb_count tb) + 1 + (unat (tb_trades_lost tb) + unat (s - l - 1)) = unat s - unat l0"
        "unat (tb_gap_events tb) + 1 \<le> unat (tb_trades_lost tb) + unat (s - l - 1)"
        using l(3,4) lt(2) l0 miss by linarith+
      ultimately show ?thesis
        using l(1) True False by (simp add: tb_apply_def tb_append_def tb_balanced_def Let_def lost ev c1)
    next
      case nogap: False
      then have "unat s = unat l + 1" using lt unat_next [OF lt(1)] by (simp add: word_less_nat_alt)
      moreover have "l0 \<le> s" using lt l0 by (simp add: word_le_nat_alt)
      ultimately show ?thesis
        using l l0 nogap False by (simp add: tb_apply_def tb_append_def tb_balanced_def c1)
    qed
  qed
qed

text \<open>
  C30: trade continuity accounting conserves prints.  From a carried position, after any prints with
  venue sequence numbers, duplicates and jumps included, prints counted plus prints lost are
  exactly the sequence numbers passed, and no counter wraps.
\<close>

theorem tradebook_conserves_prints:
  "\<exists>l. tb_last_seq (fold (\<lambda>s tb. snd (tb_apply (Some s) tb)) seqs (with_last_seq (Some l0) (tb_new pair))) = Some l
     \<and> l0 \<le> l
     \<and> (let tb = fold (\<lambda>s tb. snd (tb_apply (Some s) tb)) seqs (with_last_seq (Some l0) (tb_new pair)) in
          unat (tb_count tb) + unat (tb_trades_lost tb) = unat l - unat l0
        \<and> unat (tb_gap_events tb) \<le> unat (tb_trades_lost tb))"
proof -
  have "tb_balanced l0 (fold (\<lambda>s tb. snd (tb_apply (Some s) tb)) seqs tb)" if "tb_balanced l0 tb" for tb
    using that by (induction seqs arbitrary: tb) (simp_all add: tb_apply_balanced)
  moreover have "tb_balanced l0 (with_last_seq (Some l0) (tb_new pair))"
    by (simp add: tb_balanced_def with_last_seq_def tb_new_def)
  ultimately show ?thesis by (auto simp: tb_balanced_def Let_def)
qed

end
