(* ===== verification/Feed.thy ===== *)
theory Feed
  imports Trading_Pair
begin

text \<open>
  The subscription state machine (\<open>aetelier-connect/src/framework/feed.rs\<close>): a \<open>Feed\<close> per
  (venue, instrument, datatype), its legal transition graph, and the \<open>FeedSet\<close> a worker owns for
  one connection.  The setters check the graph with \<open>debug_assert!\<close> only, so in a release build they
  record the state they are told; that is what is modelled.  The \<open>FeedId\<close> (a UUID) is given from
  outside.
\<close>

datatype feed_datatype = Orders | Trades | FundingRates | OpenInterest

datatype feed_state =
    Requested | Subscribing | Live | Stale | Resubscribing | Reconnecting | Draining
  | FsClosed | Rejected | Failed

fun is_terminal :: "feed_state \<Rightarrow> bool" where
  "is_terminal FsClosed = True"
| "is_terminal Rejected = True"
| "is_terminal Failed = True"
| "is_terminal _ = False"

definition can_transition_to :: "feed_state \<Rightarrow> feed_state \<Rightarrow> bool" where
  "can_transition_to s n \<longleftrightarrow>
     (s = Requested \<and> n \<in> {Subscribing, Draining})
   \<or> (s = Subscribing \<and> n \<in> {Live, Resubscribing, Reconnecting, Draining})
   \<or> (s = Live \<and> n \<in> {Stale, Resubscribing, Reconnecting, Draining})
   \<or> (s = Stale \<and> n \<in> {Live, Resubscribing, Reconnecting, Draining})
   \<or> (s = Resubscribing \<and> n \<in> {Live, Reconnecting, Draining})
   \<or> (s = Reconnecting \<and> n \<in> {Subscribing, Rejected, Failed, Draining})
   \<or> (s = Draining \<and> n = FsClosed)"

record feed =
  fd_id :: string
  fd_venue :: exchange
  fd_instrument :: trading_pair
  fd_datatype :: feed_datatype
  fd_state :: feed_state
  fd_closed_partial :: bool
  fd_terminal_reason :: "string option"

definition feed_new :: "string \<Rightarrow> exchange \<Rightarrow> trading_pair \<Rightarrow> feed_datatype \<Rightarrow> feed" where
  "feed_new fid venue instrument ty =
     \<lparr>fd_id = fid, fd_venue = venue, fd_instrument = instrument, fd_datatype = ty,
      fd_state = Requested, fd_closed_partial = False, fd_terminal_reason = None\<rparr>"

definition feed_transition :: "feed_state \<Rightarrow> feed \<Rightarrow> feed" where
  "feed_transition s f = f\<lparr>fd_state := s\<rparr>"

definition to_closed_partial :: "feed \<Rightarrow> feed" where
  "to_closed_partial f = (feed_transition FsClosed f)\<lparr>fd_closed_partial := True\<rparr>"

definition to_rejected :: "string \<Rightarrow> feed \<Rightarrow> feed" where
  "to_rejected reason f = (feed_transition Rejected f)\<lparr>fd_terminal_reason := Some reason\<rparr>"

definition to_failed :: "string \<Rightarrow> feed \<Rightarrow> feed" where
  "to_failed reason f = (feed_transition Failed f)\<lparr>fd_terminal_reason := Some reason\<rparr>"

section \<open>The feed set\<close>

type_synonym feed_set = "feed list"

definition each_live :: "(feed \<Rightarrow> feed) \<Rightarrow> feed_set \<Rightarrow> feed_set" where
  "each_live g fs = map (\<lambda>f. if \<not> is_terminal (fd_state f) then g f else f) fs"

text \<open>\<open>get_mut\<close> finds the first feed of the instrument and datatype; the update is applied to it.\<close>

fun with_feed :: "trading_pair \<Rightarrow> feed_datatype \<Rightarrow> (feed \<Rightarrow> feed) \<Rightarrow> feed_set \<Rightarrow> feed_set" where
  "with_feed i ty g [] = []"
| "with_feed i ty g (f # fs) =
     (if fd_instrument f = i \<and> fd_datatype f = ty then g f # fs else f # with_feed i ty g fs)"

definition mark_all_subscribing :: "feed_set \<Rightarrow> feed_set" where
  "mark_all_subscribing = each_live (feed_transition Subscribing)"

definition mark_all_reconnecting :: "feed_set \<Rightarrow> feed_set" where
  "mark_all_reconnecting = each_live (feed_transition Reconnecting)"

definition mark_live :: "trading_pair \<Rightarrow> feed_datatype \<Rightarrow> feed_set \<Rightarrow> feed_set" where
  "mark_live i ty = with_feed i ty (\<lambda>f.
     if \<not> is_terminal (fd_state f) \<and> fd_state f \<noteq> Live then feed_transition Live f else f)"

definition mark_stale :: "trading_pair \<Rightarrow> feed_datatype \<Rightarrow> feed_set \<Rightarrow> feed_set" where
  "mark_stale i ty = with_feed i ty (\<lambda>f. if fd_state f = Live then feed_transition Stale f else f)"

definition mark_resubscribing :: "trading_pair \<Rightarrow> feed_datatype \<Rightarrow> feed_set \<Rightarrow> feed_set" where
  "mark_resubscribing i ty = with_feed i ty (\<lambda>f.
     if \<not> is_terminal (fd_state f) \<and> fd_state f \<noteq> Resubscribing then feed_transition Resubscribing f else f)"

definition mark_all_draining :: "feed_set \<Rightarrow> feed_set" where
  "mark_all_draining = each_live (feed_transition Draining)"

definition mark_all_closed :: "bool \<Rightarrow> feed_set \<Rightarrow> feed_set" where
  "mark_all_closed partial = each_live (if partial then to_closed_partial else feed_transition FsClosed)"

definition mark_all_rejected :: "string \<Rightarrow> feed_set \<Rightarrow> feed_set" where
  "mark_all_rejected reason = each_live (to_rejected reason)"

definition mark_all_failed :: "string \<Rightarrow> feed_set \<Rightarrow> feed_set" where
  "mark_all_failed reason = each_live (to_failed reason)"

record feed_snapshot =
  sn_id :: string
  sn_instrument :: string
  sn_datatype :: feed_datatype
  sn_state :: feed_state
  sn_partial :: bool
  sn_reason :: "string option"

definition feed_set_snapshot :: "feed_set \<Rightarrow> feed_snapshot list" where
  "feed_set_snapshot = map (\<lambda>f.
     \<lparr>sn_id = fd_id f, sn_instrument = to_canonical (fd_instrument f), sn_datatype = fd_datatype f,
      sn_state = fd_state f, sn_partial = fd_closed_partial f, sn_reason = fd_terminal_reason f\<rparr>)"

section \<open>Steps and reachable sets\<close>

inductive feed_step :: "feed_set \<Rightarrow> feed_set \<Rightarrow> bool" where
  all_subscribing: "feed_step fs (mark_all_subscribing fs)"
| all_reconnecting: "feed_step fs (mark_all_reconnecting fs)"
| live: "feed_step fs (mark_live i ty fs)"
| stale: "feed_step fs (mark_stale i ty fs)"
| resubscribing: "feed_step fs (mark_resubscribing i ty fs)"
| all_draining: "feed_step fs (mark_all_draining fs)"
| all_closed: "feed_step fs (mark_all_closed partial fs)"
| all_rejected: "feed_step fs (mark_all_rejected reason fs)"
| all_failed: "feed_step fs (mark_all_failed reason fs)"

inductive_cases feed_stepE: "feed_step fs fs'"

lemmas mark_defs =
  mark_all_subscribing_def mark_all_reconnecting_def mark_live_def mark_stale_def
  mark_resubscribing_def mark_all_draining_def mark_all_closed_def mark_all_rejected_def mark_all_failed_def

lemmas feed_setter_defs = feed_transition_def to_closed_partial_def to_rejected_def to_failed_def

text \<open>
  The contract all marks share: they act feed by feed, leave terminal feeds alone, and take a live
  feed to a state of its own, with the end-of-life fields set only together with their state.
\<close>

definition end_fields_ok :: "feed \<Rightarrow> bool" where
  "end_fields_ok f \<longleftrightarrow>
     (fd_terminal_reason f \<noteq> None \<longleftrightarrow> fd_state f \<in> {Rejected, Failed})
   \<and> (fd_closed_partial f \<longrightarrow> fd_state f = FsClosed)"

definition feed_moves :: "feed \<Rightarrow> feed \<Rightarrow> bool" where
  "feed_moves f f' \<longleftrightarrow>
     fd_id f' = fd_id f \<and> fd_venue f' = fd_venue f \<and> fd_instrument f' = fd_instrument f
   \<and> fd_datatype f' = fd_datatype f \<and> (is_terminal (fd_state f) \<longrightarrow> f' = f)
   \<and> (end_fields_ok f \<longrightarrow> end_fields_ok f')"

lemma feed_moves_refl [simp]: "feed_moves f f"
  by (simp add: feed_moves_def)

lemma feed_moves_trans: "feed_moves f g \<Longrightarrow> feed_moves g h \<Longrightarrow> feed_moves f h"
  by (auto simp: feed_moves_def)

lemma each_live_moves:
  "(\<And>f. \<not> is_terminal (fd_state f) \<Longrightarrow> feed_moves f (g f)) \<Longrightarrow> list_all2 feed_moves fs (each_live g fs)"
  by (auto simp: each_live_def list_all2_conv_all_nth)

lemma with_feed_moves:
  "(\<And>f. feed_moves f (g f)) \<Longrightarrow> list_all2 feed_moves fs (with_feed i ty g fs)"
  by (induction fs) (auto simp: list_all2_refl)

lemma live_end_fields: "\<not> is_terminal (fd_state f) \<Longrightarrow> end_fields_ok f \<longleftrightarrow> fd_terminal_reason f = None \<and> \<not> fd_closed_partial f"
  by (cases "fd_state f") (auto simp: end_fields_ok_def)

lemma feed_step_moves: "feed_step fs fs' \<Longrightarrow> list_all2 feed_moves fs fs'"
  by (erule feed_stepE)
    (auto simp: mark_defs feed_setter_defs feed_moves_def live_end_fields
      intro!: each_live_moves with_feed_moves, auto simp: end_fields_ok_def)

lemma feed_run_moves: "feed_step\<^sup>*\<^sup>* fs fs' \<Longrightarrow> list_all2 feed_moves fs fs'"
proof (induction rule: rtranclp_induct)
  case (step fs1 fs2)
  from step.IH feed_step_moves [OF step.hyps(2)] show ?case
    by (rule list_all2_trans [rotated 1]) (rule feed_moves_trans)
qed (simp add: list_all2_refl)

text \<open>
  C37: terminal states absorb.  Along every sequence of marks a feed that is closed, rejected or
  failed stays exactly as it is, and no feed ever changes identity, venue, instrument or datatype.
\<close>

theorem terminal_feeds_absorb:
  assumes "feed_step\<^sup>*\<^sup>* fs fs'" and "i < length fs"
  shows "i < length fs' \<and> fd_id (fs' ! i) = fd_id (fs ! i) \<and> fd_instrument (fs' ! i) = fd_instrument (fs ! i)
    \<and> fd_datatype (fs' ! i) = fd_datatype (fs ! i)
    \<and> (is_terminal (fd_state (fs ! i)) \<longrightarrow> fs' ! i = fs ! i)"
  using feed_run_moves [OF assms(1)] assms(2) by (auto simp: list_all2_conv_all_nth feed_moves_def)

text \<open>
  In every feed set reachable from freshly requested feeds, a reason is recorded exactly on
  rejected and failed feeds, and the partial flag only on closed ones.
\<close>

lemma reachable_feeds_report_their_end:
  assumes "feed_step\<^sup>*\<^sup>* (map (\<lambda>(fid, v, i, ty). feed_new fid v i ty) specs) fs" and "f \<in> set fs"
  shows "(fd_terminal_reason f \<noteq> None \<longleftrightarrow> fd_state f = Rejected \<or> fd_state f = Failed)
    \<and> (fd_closed_partial f \<longrightarrow> fd_state f = FsClosed)"
proof -
  let ?init = "map (\<lambda>(fid, v, i, ty). feed_new fid v i ty) specs"
  have "\<forall>f0 \<in> set ?init. end_fields_ok f0" by (auto simp: feed_new_def end_fields_ok_def)
  moreover have "list_all2 feed_moves ?init fs" by (rule feed_run_moves [OF assms(1)])
  ultimately have "end_fields_ok f"
    using assms(2) by (metis (no_types, lifting) feed_moves_def in_set_conv_nth list_all2_conv_all_nth)
  then show ?thesis by (auto simp: end_fields_ok_def)
qed


section \<open>Concrete runs\<close>

definition sample_feeds :: feed_set where
  "sample_feeds = map (\<lambda>(fid, v, i, ty). feed_new fid v i ty)
     [(''f1'', Bybit, \<lparr>tp_base = ''BTC'', tp_quote = ''USDT''\<rparr>, Orders),
      (''f2'', Bybit, \<lparr>tp_base = ''BTC'', tp_quote = ''USDT''\<rparr>, Trades)]"

lemma sample_feeds_failed: "feed_step\<^sup>*\<^sup>* sample_feeds (mark_all_failed ''gone'' (mark_all_subscribing sample_feeds))"
  by (rule rtranclp.rtrancl_into_rtrancl [OF r_into_rtranclp]) (rule feed_step.intros)+

theorem terminal_feeds_absorb_witness:
  "mark_live \<lparr>tp_base = ''BTC'', tp_quote = ''USDT''\<rparr> Orders (mark_all_failed ''gone'' sample_feeds) ! 0 = mark_all_failed ''gone'' sample_feeds ! 0"
proof -
  have "feed_step\<^sup>*\<^sup>* (mark_all_failed ''gone'' sample_feeds) (mark_live \<lparr>tp_base = ''BTC'', tp_quote = ''USDT''\<rparr> Orders (mark_all_failed ''gone'' sample_feeds))"
    by (rule r_into_rtranclp) (rule feed_step.live)
  from terminal_feeds_absorb [OF this, of 0] show ?thesis
    by (simp add: sample_feeds_def mark_all_failed_def each_live_def feed_new_def to_failed_def feed_transition_def)
qed

end
