(* ===== verification/Metrics.thy ===== *)
theory Metrics
  imports Prelude
begin

text \<open>
  The per-source counters (\<open>aetelier-connect/src/framework/budget.rs\<close>) and the connection identity
  they mint.  Each counter is one atomic word updated by \<open>fetch_add\<close>, which wraps; the connection
  epoch is updated by a compare-and-exchange loop whose interference with other threads is explicit:
  the list of values the failed attempts observed.
\<close>

section \<open>Counters\<close>

record source_metrics =
  conn_epoch_us :: u64
  mt_msgs :: u64
  mt_decode_err :: u64
  mt_dropped_frames :: u64
  mt_reconnects :: u64
  mt_gaps :: u64
  mt_resyncs :: u64
  mt_checksum_fail :: u64
  mt_flush_failures :: u64
  mt_trade_gaps :: u64
  mt_trades_lost :: u64
  mt_trade_gap_incidents :: u64
  mt_trade_gap_window_us :: u64
  mt_possible_dropped_trades :: u64
  mt_trade_loss_confidence :: u64
  mt_book_gap_incidents :: u64
  mt_book_gap_window_us :: u64
  mt_deltas_missed_exact :: u64
  mt_trades_recovered :: u64
  mt_reconcile_fetches :: u64
  mt_reconcile_failures :: u64
  mt_reseed_exhausted :: u64
  mt_undeclared_dropped :: u64
  mt_seeds_abandoned :: u64
  mt_ack_timeouts :: u64
  mt_replay_duplicates :: u64
  mt_out_of_order_frames :: u64
  mt_ingest_backpressure :: u64
  mt_source_exhausted :: u64
  mt_gaps_beyond_edge :: u64
  mt_ver_rejected :: u64
  mt_integrity_fail :: u64
  mt_republished :: u64

definition metrics_default :: source_metrics where
  "metrics_default =
          \<lparr>conn_epoch_us = 0, mt_msgs = 0, mt_decode_err = 0, mt_dropped_frames = 0,
      mt_reconnects = 0, mt_gaps = 0, mt_resyncs = 0, mt_checksum_fail = 0, mt_flush_failures =
      0, mt_trade_gaps = 0, mt_trades_lost = 0, mt_trade_gap_incidents = 0,
      mt_trade_gap_window_us = 0, mt_possible_dropped_trades = 0, mt_trade_loss_confidence = 0,
      mt_book_gap_incidents = 0, mt_book_gap_window_us = 0, mt_deltas_missed_exact = 0,
      mt_trades_recovered = 0, mt_reconcile_fetches = 0, mt_reconcile_failures = 0,
      mt_reseed_exhausted = 0, mt_undeclared_dropped = 0, mt_seeds_abandoned = 0,
      mt_ack_timeouts = 0, mt_replay_duplicates = 0, mt_out_of_order_frames = 0,
      mt_ingest_backpressure = 0, mt_source_exhausted = 0, mt_gaps_beyond_edge = 0,
      mt_ver_rejected = 0, mt_integrity_fail = 0, mt_republished = 0\<rparr>"

definition bump_msgs :: "source_metrics \<Rightarrow> source_metrics" where
  "bump_msgs m = m\<lparr>mt_msgs := mt_msgs m + 1\<rparr>"

definition bump_decode_err :: "source_metrics \<Rightarrow> source_metrics" where
  "bump_decode_err m = m\<lparr>mt_decode_err := mt_decode_err m + 1\<rparr>"

definition bump_ack_timeouts :: "source_metrics \<Rightarrow> source_metrics" where
  "bump_ack_timeouts m = m\<lparr>mt_ack_timeouts := mt_ack_timeouts m + 1\<rparr>"

definition bump_replay_duplicates :: "source_metrics \<Rightarrow> source_metrics" where
  "bump_replay_duplicates m = m\<lparr>mt_replay_duplicates := mt_replay_duplicates m + 1\<rparr>"

definition bump_out_of_order_frames :: "source_metrics \<Rightarrow> source_metrics" where
  "bump_out_of_order_frames m = m\<lparr>mt_out_of_order_frames := mt_out_of_order_frames m + 1\<rparr>"

definition bump_ingest_backpressure :: "source_metrics \<Rightarrow> source_metrics" where
  "bump_ingest_backpressure m = m\<lparr>mt_ingest_backpressure := mt_ingest_backpressure m + 1\<rparr>"

definition bump_reconnects :: "source_metrics \<Rightarrow> source_metrics" where
  "bump_reconnects m = m\<lparr>mt_reconnects := mt_reconnects m + 1\<rparr>"

definition bump_gaps :: "source_metrics \<Rightarrow> source_metrics" where
  "bump_gaps m = m\<lparr>mt_gaps := mt_gaps m + 1\<rparr>"

definition bump_resyncs :: "source_metrics \<Rightarrow> source_metrics" where
  "bump_resyncs m = m\<lparr>mt_resyncs := mt_resyncs m + 1\<rparr>"

definition bump_checksum_fail :: "source_metrics \<Rightarrow> source_metrics" where
  "bump_checksum_fail m = m\<lparr>mt_checksum_fail := mt_checksum_fail m + 1\<rparr>"

definition bump_flush_failures :: "source_metrics \<Rightarrow> source_metrics" where
  "bump_flush_failures m = m\<lparr>mt_flush_failures := mt_flush_failures m + 1\<rparr>"

definition bump_gaps_beyond_edge :: "source_metrics \<Rightarrow> source_metrics" where
  "bump_gaps_beyond_edge m = m\<lparr>mt_gaps_beyond_edge := mt_gaps_beyond_edge m + 1\<rparr>"

definition bump_ver_rejected :: "source_metrics \<Rightarrow> source_metrics" where
  "bump_ver_rejected m = m\<lparr>mt_ver_rejected := mt_ver_rejected m + 1\<rparr>"

definition bump_integrity_fail :: "source_metrics \<Rightarrow> source_metrics" where
  "bump_integrity_fail m = m\<lparr>mt_integrity_fail := mt_integrity_fail m + 1\<rparr>"

definition bump_republished :: "source_metrics \<Rightarrow> source_metrics" where
  "bump_republished m = m\<lparr>mt_republished := mt_republished m + 1\<rparr>"

definition bump_trade_gaps :: "source_metrics \<Rightarrow> source_metrics" where
  "bump_trade_gaps m = m\<lparr>mt_trade_gaps := mt_trade_gaps m + 1\<rparr>"

definition bump_reconcile_fetches :: "source_metrics \<Rightarrow> source_metrics" where
  "bump_reconcile_fetches m = m\<lparr>mt_reconcile_fetches := mt_reconcile_fetches m + 1\<rparr>"

definition bump_reconcile_failures :: "source_metrics \<Rightarrow> source_metrics" where
  "bump_reconcile_failures m = m\<lparr>mt_reconcile_failures := mt_reconcile_failures m + 1\<rparr>"

definition bump_undeclared_dropped :: "source_metrics \<Rightarrow> source_metrics" where
  "bump_undeclared_dropped m = m\<lparr>mt_undeclared_dropped := mt_undeclared_dropped m + 1\<rparr>"

definition bump_reseed_exhausted :: "source_metrics \<Rightarrow> source_metrics" where
  "bump_reseed_exhausted m = m\<lparr>mt_reseed_exhausted := mt_reseed_exhausted m + 1\<rparr>"

definition add_dropped_frames :: "u64 \<Rightarrow> source_metrics \<Rightarrow> source_metrics" where
  "add_dropped_frames n m = m\<lparr>mt_dropped_frames := mt_dropped_frames m + n\<rparr>"

definition add_trades_lost :: "u64 \<Rightarrow> source_metrics \<Rightarrow> source_metrics" where
  "add_trades_lost n m = m\<lparr>mt_trades_lost := mt_trades_lost m + n\<rparr>"

definition add_deltas_missed :: "u64 \<Rightarrow> source_metrics \<Rightarrow> source_metrics" where
  "add_deltas_missed n m = m\<lparr>mt_deltas_missed_exact := mt_deltas_missed_exact m + n\<rparr>"

definition add_trades_recovered :: "u64 \<Rightarrow> source_metrics \<Rightarrow> source_metrics" where
  "add_trades_recovered n m = m\<lparr>mt_trades_recovered := mt_trades_recovered m + n\<rparr>"

definition add_seeds_abandoned :: "u64 \<Rightarrow> source_metrics \<Rightarrow> source_metrics" where
  "add_seeds_abandoned n m = m\<lparr>mt_seeds_abandoned := mt_seeds_abandoned m + n\<rparr>"

definition mark_source_exhausted :: "source_metrics \<Rightarrow> source_metrics" where
  "mark_source_exhausted m = m\<lparr>mt_source_exhausted := 1\<rparr>"

definition record_trade_suspicion :: "u64 \<Rightarrow> u64 \<Rightarrow> source_metrics \<Rightarrow> source_metrics" where
  "record_trade_suspicion window_us estimate m =
     m\<lparr>mt_trade_gap_incidents := mt_trade_gap_incidents m + 1,
       mt_trade_gap_window_us := mt_trade_gap_window_us m + window_us,
       mt_possible_dropped_trades := mt_possible_dropped_trades m + estimate\<rparr>"

datatype trade_loss_confidence = Estimated | Exact

definition set_trade_loss_confidence :: "trade_loss_confidence \<Rightarrow> source_metrics \<Rightarrow> source_metrics" where
  "set_trade_loss_confidence c m =
     m\<lparr>mt_trade_loss_confidence := (case c of Estimated \<Rightarrow> 0 | Exact \<Rightarrow> 1)\<rparr>"

definition record_book_gap_incident :: "u64 \<Rightarrow> source_metrics \<Rightarrow> source_metrics" where
  "record_book_gap_incident window_us m =
     m\<lparr>mt_book_gap_incidents := mt_book_gap_incidents m + 1,
       mt_book_gap_window_us := mt_book_gap_window_us m + window_us\<rparr>"

section \<open>The connection epoch\<close>

text \<open>
  One call of \<open>next_conn_epoch_us\<close>: \<open>prev\<close> is the value first loaded and \<open>observed\<close> the values the
  failed exchanges reported, in order.  The last of them is the one the successful exchange
  replaces.
\<close>

fun next_conn_epoch :: "u64 \<Rightarrow> u64 \<Rightarrow> u64 list \<Rightarrow> u64" where
  "next_conn_epoch now prev [] = max now (saturating_add prev 1)"
| "next_conn_epoch now prev (seen # observed) = next_conn_epoch now seen observed"

lemma next_conn_epoch_last: "next_conn_epoch now prev observed = max now (saturating_add (last (prev # observed)) 1)"
  by (induction observed arbitrary: prev) auto

text \<open>
  The shared cell under any interleaving of minting threads: each successful exchange appends the
  value it installed.  \<open>minted\<close> lists the identities handed out, newest first; the cell holds the
  newest one.
\<close>

inductive epochs :: "u64 list \<Rightarrow> bool" where
  initial: "epochs [0]"
| mint: "epochs (cell # older) \<Longrightarrow> last (prev # observed) = cell
    \<Longrightarrow> epochs (next_conn_epoch now prev observed # cell # older)"

lemma saturating_succ_greater: "prev \<noteq> - 1 \<Longrightarrow> prev < saturating_add prev 1"
proof -
  assume "prev \<noteq> - 1"
  then have "unat prev \<noteq> 2 ^ 64 - 1" by (metis unat_minus_one_64 unsigned_word_eqI)
  moreover have "unat prev < 2 ^ 64" using unsigned_less [where 'a = nat, of prev] by simp
  ultimately show ?thesis by (simp add: word_less_nat_alt u64_simps)
qed

text \<open>
  C38: connection identities increase strictly in the order they are installed, whatever the clock
  reads and however minting threads interleave, until the counter is saturated.
\<close>

theorem conn_epochs_strictly_increase:
  assumes "epochs es" and "- 1 \<notin> set (tl es)"
  shows "sorted_wrt (>) es"
  using assms
proof (induction rule: epochs.induct)
  case (mint cell older prev observed now)
  from mint.prems have c: "cell \<noteq> - 1" and t: "- 1 \<notin> set (tl (cell # older))" by auto
  from mint.IH [OF t] have srt: "sorted_wrt (>) (cell # older)" .
  have "cell < next_conn_epoch now prev observed"
    using saturating_succ_greater [OF c] mint.hyps(2)
    by (simp only: next_conn_epoch_last) (simp add: less_max_iff_disj)
  with srt show ?case by (auto intro: less_trans)
qed simp

theorem conn_epochs_strictly_increase_witness:
  "sorted_wrt (>) [next_conn_epoch 5 0 [9], 9, 0]"
proof -
  have "epochs [next_conn_epoch 9 0 [], 0]" by (rule epochs.mint [OF epochs.initial]) simp
  moreover have "next_conn_epoch 9 0 [] = 9" by (simp add: saturating_add_def)
  ultimately have "epochs [9, 0]" by simp
  then have "epochs [next_conn_epoch 5 0 [9], 9, 0]" by (rule epochs.mint) simp
  then show ?thesis by (rule conn_epochs_strictly_increase) simp
qed

end
