(* ===== verification/Runtime.thy ===== *)
theory Runtime
  imports Sourced_Book Sourced_Trades Feed Metrics
begin

text \<open>
  The reconstruction runtime (\<open>aetelier-connect/src/framework/runtime.rs\<close>): per-pair books and trade
  logs driven by an adapter's event stream, with seeding, buffering, replay, re-seeding and
  reconnect requests.

  \<^item> \<open>run\<close>'s \<open>select!\<close> loop is the step relation \<open>run_step\<close>: one rule per branch.
  \<^item> A detached seed fetch (\<open>spawn_seed\<close>) is an entry of \<open>io_pending\<close>; its result arrives as a step.
    Which results arrive and when is not constrained.
  \<^item> \<open>wall n\<close> is the wall-clock reading at the emission of the \<open>n\<close>-th output; \<open>now\<close> the monotonic
    clock at an event.
  \<^item> The feed set and the sequence carry sit behind mutexes shared with the worker; they are fields
    of the state here, and the locks are not poisoned.
\<close>

section \<open>Data\<close>

datatype declared_datatype = DtOrderbook | DtTrades | DtLiquidations | DtFundingRates | DtOpenInterest

datatype 'd reconstructed_event =
    RBook trading_pair u64 "'d orderbook"
  | RTrade "'d trade"
  | RFundingRate "'d funding_rate"
  | ROpenInterest "'d open_interest"
  | RFundingSettlement "'d funding_settlement"

datatype runtime_outcome = Finished | ResyncRequired

definition MAX_BUFFERED_DELTAS :: nat where
  "MAX_BUFFERED_DELTAS = 100000"

definition MAX_RESEEDS :: nat where
  "MAX_RESEEDS = 8"

text \<open>Durations in nanoseconds.\<close>

definition SEED_RETRY_BASE :: duration where
  "SEED_RETRY_BASE = 250000000"

definition SEED_RETRY_CAP :: duration where
  "SEED_RETRY_CAP = 2000000000"

definition IN_BAND_SEED_DEADLINE :: duration where
  "IN_BAND_SEED_DEADLINE = 10000000000"

definition STALE_CADENCE_MULTIPLE :: nat where
  "STALE_CADENCE_MULTIPLE = 2"

datatype phase = Buffering "normalized_delta list" | Passthrough

record 'd pair_book =
  pb_wire :: string
  pb_book :: "'d sourced_orderbook"
  pb_trades :: sourced_tradebook
  pb_phase :: phase
  pb_buffering_since :: "instant option"
  pb_buffer_overflowed :: bool
  pb_seeding :: bool
  pb_reseeds :: nat
  pb_last_ts :: u64
  pb_last_local_ts :: u64
  pb_last_rtt :: u64

type_synonym 'd books = "(trading_pair, 'd pair_book) hash_map"

record 'd source_runtime =
  rt_exchange :: string
  rt_codec :: symbol_codec
  rt_needs_rest :: bool
  rt_seeds_out_of_band :: bool
  rt_declared :: "declared_datatype list"
  rt_undeclared_warned :: "declared_datatype list"
  rt_books :: "'d books"
  rt_metrics :: source_metrics
  rt_feeds :: "feed_set option"
  rt_live_orders :: "trading_pair list"
  rt_live_trades :: "trading_pair list"
  rt_live_funding :: "trading_pair list"
  rt_live_oi :: "trading_pair list"
  rt_trade_seq_carry :: "(trading_pair, u64) hash_map option"
  rt_datatype_cadence :: "(feed_datatype, duration) hash_map"
  rt_last_seen :: "(trading_pair \<times> feed_datatype, instant) hash_map"

text \<open>The channels and the seed fetches of one run.\<close>

record 'd run_io =
  io_out :: "'d reconstructed_event sender"
  io_pending :: "(trading_pair \<times> string \<times> duration) list"
  io_in_flight :: nat

section \<open>Construction\<close>

definition pair_book_new ::
  "instant \<Rightarrow> bool \<Rightarrow> reconstruction_model \<Rightarrow> recovery_action \<Rightarrow> string \<Rightarrow> trading_pair \<Rightarrow> 'd pair_book"
where
  "pair_book_new now buffered model recovery wire pair =
     \<lparr>pb_wire = wire, pb_book = so_new pair model recovery, pb_trades = tb_new pair,
      pb_phase = (if buffered then Buffering [] else Passthrough),
      pb_buffering_since = (if buffered then Some now else None), pb_buffer_overflowed = False,
      pb_seeding = False, pb_reseeds = 0, pb_last_ts = 0, pb_last_local_ts = 0, pb_last_rtt = 0\<rparr>"

definition runtime_new ::
  "instant \<Rightarrow> string \<Rightarrow> symbol_codec \<Rightarrow> string list \<Rightarrow> reconstruction_model \<Rightarrow> recovery_action
     \<Rightarrow> source_metrics \<Rightarrow> declared_datatype list \<Rightarrow> 'd source_runtime"
where
  "runtime_new now exchange codec wires model recovery metrics declared =
     (let book_active = DtOrderbook \<in> set declared;
          nrest = (needs_rest model \<and> book_active);
          oob = (seeds_out_of_band model \<and> book_active);
          bks = fold (\<lambda>wire bks.
                   case codec_decode codec wire of
                     None \<Rightarrow> bks
                   | Some pair \<Rightarrow> hm_insert pair (pair_book_new now oob model recovery wire pair) bks) wires []
      in \<lparr>rt_exchange = exchange, rt_codec = codec, rt_needs_rest = nrest, rt_seeds_out_of_band = oob,
          rt_declared = declared, rt_undeclared_warned = [], rt_books = bks, rt_metrics = metrics,
          rt_feeds = None, rt_live_orders = [], rt_live_trades = [], rt_live_funding = [], rt_live_oi = [],
          rt_trade_seq_carry = None, rt_datatype_cadence = [], rt_last_seen = []\<rparr>)"

definition with_datatype_cadence ::
  "(feed_datatype \<times> duration) list \<Rightarrow> 'd source_runtime \<Rightarrow> 'd source_runtime"
where
  "with_datatype_cadence cs rt =
     rt\<lparr>rt_datatype_cadence := fold (\<lambda>(k, v) m. hm_insert k v m) cs (rt_datatype_cadence rt)\<rparr>"

definition with_feeds :: "feed_set \<Rightarrow> 'd source_runtime \<Rightarrow> 'd source_runtime" where
  "with_feeds fs rt = rt\<lparr>rt_feeds := Some fs\<rparr>"

definition with_trade_seq_carry :: "(trading_pair, u64) hash_map \<Rightarrow> 'd source_runtime \<Rightarrow> 'd source_runtime" where
  "with_trade_seq_carry carry rt =
     rt\<lparr>rt_books := map (\<lambda>(pair, b). (pair, b\<lparr>pb_trades := with_last_seq (hm_get carry pair) (tb_new pair)\<rparr>)) (rt_books rt),
        rt_trade_seq_carry := Some carry\<rparr>"

definition rt_with_max_depth :: "usize option \<Rightarrow> 'd source_runtime \<Rightarrow> 'd source_runtime" where
  "rt_with_max_depth n rt =
     rt\<lparr>rt_books := hm_map_values (\<lambda>b. b\<lparr>pb_book := arm_config_depth n (pb_book b)\<rparr>) (rt_books rt)\<rparr>"

section \<open>Emission\<close>

text \<open>\<open>capture_levels\<close> of \<open>synchronizers/ob_sync.rs\<close>: the ranked levels of both sides, best first.\<close>

definition capture_level_vecs :: "'d orderbook_delta \<Rightarrow> 'd level list \<times> 'd level list" where
  "capture_level_vecs ob =
     (map (\<lambda>(idx, (price, sz)). level_new (of_nat idx) Bids price sz []) (enumerate 0 (od_top_bids ob (length (od_bids ob)))),
      map (\<lambda>(idx, (price, sz)). level_new (of_nat idx) Asks price sz []) (enumerate 0 (od_top_asks ob (length (od_asks ob)))))"

definition book_ts :: "u64 \<Rightarrow> 'd pair_book \<Rightarrow> u64" where
  "book_ts now_us b = (if pb_last_ts b > 0 then pb_last_ts b else now_us)"

definition emit_book ::
  "'d decimal_ops \<Rightarrow> (nat \<Rightarrow> u64) \<Rightarrow> string \<Rightarrow> trading_pair \<Rightarrow> 'd pair_book
     \<Rightarrow> 'd reconstructed_event sender \<Rightarrow> 'd reconstructed_event sender option"
where
  "emit_book D wall exchange pair b out =
     (let ts_us = book_ts (wall (length (sent out))) b;
          (bids, asks) = capture_level_vecs (so_book (pb_book b));
          ob = (ob_from_levels D 0 ts_us pair exchange bids asks)
                 \<lparr>ob_source_ts_us := pb_last_ts b, ob_local_ts_us := pb_last_local_ts b,
                  ob_rtt_us := pb_last_rtt b\<rparr>
      in send (RBook pair ts_us ob) out)"

definition stamp_applied :: "normalized_delta \<Rightarrow> 'd pair_book \<Rightarrow> 'd pair_book" where
  "stamp_applied delta b =
     b\<lparr>pb_last_ts := (if nd_source_ts_us delta > 0 then nd_source_ts_us delta else pb_last_ts b),
       pb_last_local_ts := nd_local_ts_us delta, pb_last_rtt := nd_rtt_us delta\<rparr>"

section \<open>Feed bookkeeping\<close>

definition list_insert :: "'a \<Rightarrow> 'a list \<Rightarrow> 'a list" where
  "list_insert x xs = (if x \<in> set xs then xs else x # xs)"

definition live_set :: "feed_datatype \<Rightarrow> 'd source_runtime \<Rightarrow> trading_pair list" where
  "live_set ty rt = (case ty of Orders \<Rightarrow> rt_live_orders rt | Trades \<Rightarrow> rt_live_trades rt
     | FundingRates \<Rightarrow> rt_live_funding rt | OpenInterest \<Rightarrow> rt_live_oi rt)"

definition add_live :: "feed_datatype \<Rightarrow> trading_pair \<Rightarrow> 'd source_runtime \<Rightarrow> 'd source_runtime" where
  "add_live ty pair rt = (case ty of
       Orders \<Rightarrow> rt\<lparr>rt_live_orders := list_insert pair (rt_live_orders rt)\<rparr>
     | Trades \<Rightarrow> rt\<lparr>rt_live_trades := list_insert pair (rt_live_trades rt)\<rparr>
     | FundingRates \<Rightarrow> rt\<lparr>rt_live_funding := list_insert pair (rt_live_funding rt)\<rparr>
     | OpenInterest \<Rightarrow> rt\<lparr>rt_live_oi := list_insert pair (rt_live_oi rt)\<rparr>)"

definition note_live :: "instant \<Rightarrow> trading_pair \<Rightarrow> feed_datatype \<Rightarrow> 'd source_runtime \<Rightarrow> 'd source_runtime" where
  "note_live now pair ty rt =
     (let watched = (hm_get (rt_datatype_cadence rt) ty \<noteq> None);
          rt = (if watched then rt\<lparr>rt_last_seen := hm_insert (pair, ty) now (rt_last_seen rt)\<rparr> else rt)
      in case rt_feeds rt of
           None \<Rightarrow> rt
         | Some fs \<Rightarrow>
             (let first_data = (pair \<notin> set (live_set ty rt)); rt = add_live ty pair rt
              in if \<not> first_data \<and> \<not> watched then rt
                 else rt\<lparr>rt_feeds := Some (mark_live pair ty fs)\<rparr>))"

definition note_resubscribing :: "trading_pair \<Rightarrow> 'd source_runtime \<Rightarrow> 'd source_runtime" where
  "note_resubscribing pair rt =
     (case rt_feeds rt of
        None \<Rightarrow> rt
      | Some fs \<Rightarrow>
          rt\<lparr>rt_live_orders := filter (\<lambda>p. p \<noteq> pair) (rt_live_orders rt),
             rt_feeds := Some (mark_resubscribing pair Orders fs)\<rparr>)"

definition sweep_stale_datatypes :: "instant \<Rightarrow> 'd source_runtime \<Rightarrow> 'd source_runtime" where
  "sweep_stale_datatypes now rt =
     (case rt_feeds rt of
        None \<Rightarrow> rt
      | Some fs \<Rightarrow>
          if rt_datatype_cadence rt = [] then rt
          else
            let overdue = filter (\<lambda>((pair, ty), seen).
                  case hm_get (rt_datatype_cadence rt) ty of
                    None \<Rightarrow> False
                  | Some cadence \<Rightarrow> now - seen > cadence * STALE_CADENCE_MULTIPLE) (rt_last_seen rt)
            in rt\<lparr>rt_feeds := Some (fold (\<lambda>((pair, ty), _) fs. mark_stale pair ty fs) overdue fs)\<rparr>)"

section \<open>Seeding\<close>

definition update_metrics :: "(source_metrics \<Rightarrow> source_metrics) \<Rightarrow> 'd source_runtime \<Rightarrow> 'd source_runtime" where
  "update_metrics f rt = rt\<lparr>rt_metrics := f (rt_metrics rt)\<rparr>"

definition put_book :: "trading_pair \<Rightarrow> 'd pair_book \<Rightarrow> 'd source_runtime \<Rightarrow> 'd source_runtime" where
  "put_book pair b rt = rt\<lparr>rt_books := hm_insert pair b (rt_books rt)\<rparr>"

definition spawn_seed :: "trading_pair \<Rightarrow> string \<Rightarrow> duration \<Rightarrow> 'd run_io \<Rightarrow> 'd run_io" where
  "spawn_seed pair wire delay io =
     io\<lparr>io_pending := io_pending io @ [(pair, wire, delay)], io_in_flight := io_in_flight io + 1\<rparr>"

definition request_reseed ::
  "trading_pair \<Rightarrow> bool \<Rightarrow> duration \<Rightarrow> 'd source_runtime \<times> 'd run_io \<Rightarrow> 'd source_runtime \<times> 'd run_io"
where
  "request_reseed pair has_seeder delay = (\<lambda>(rt, io).
     if \<not> has_seeder then (rt, io)
     else case hm_get (rt_books rt) pair of
            None \<Rightarrow> (rt, io)
          | Some b \<Rightarrow>
              if \<not> pb_seeding b \<and> pb_reseeds b < MAX_RESEEDS
              then (put_book pair (b\<lparr>pb_seeding := True, pb_reseeds := pb_reseeds b + 1\<rparr>) rt,
                    spawn_seed pair (pb_wire b) delay io)
              else (rt, io))"

text \<open>The replay loop of \<open>apply_seed\<close> over the buffered deltas.\<close>

datatype replay_end = Drained | GappedAt resync_needed "normalized_delta list" | OutClosed

fun replay ::
  "'d decimal_ops \<Rightarrow> (string \<Rightarrow> u32) \<Rightarrow> (nat \<Rightarrow> u64) \<Rightarrow> string \<Rightarrow> trading_pair \<Rightarrow> u64 \<Rightarrow> normalized_delta list
     \<Rightarrow> 'd pair_book \<Rightarrow> 'd reconstructed_event sender
     \<Rightarrow> replay_end \<times> 'd pair_book \<times> 'd reconstructed_event sender"
where
  "replay D crc wall exchange pair snap_id [] b out = (Drained, b, out)"
| "replay D crc wall exchange pair snap_id (delta # rest) b out =
     (if nd_update_id delta \<le> snap_id then replay D crc wall exchange pair snap_id rest b out
      else case so_apply D crc (pb_book b) delta of
             (Ok _, bk) \<Rightarrow>
               (let b = stamp_applied delta (b\<lparr>pb_book := bk\<rparr>) in
                case emit_book D wall exchange pair b out of
                  None \<Rightarrow> (OutClosed, b, out)
                | Some out \<Rightarrow> replay D crc wall exchange pair snap_id rest b out)
           | (Err e, bk) \<Rightarrow> (GappedAt e (delta # rest), b\<lparr>pb_book := bk\<rparr>, out))"

definition count_gap :: "resync_needed \<Rightarrow> source_metrics \<Rightarrow> source_metrics" where
  "count_gap e m = (let m = bump_gaps m in if is_checksum (rs_reason e) then bump_checksum_fail m else m)"

type_synonym 'd handled = "(bool, unit) result \<times> 'd source_runtime \<times> 'd run_io"

text \<open>The closing lines of \<open>apply_seed\<close> and of the book branch of \<open>handle_event\<close>.\<close>

definition settle ::
  "instant \<Rightarrow> trading_pair \<Rightarrow> bool \<Rightarrow> bool \<Rightarrow> bool \<Rightarrow> bool \<Rightarrow> 'd source_runtime \<Rightarrow> 'd run_io \<Rightarrow> 'd handled"
where
  "settle now pair has_seeder applied reseed resync rt io =
     (let rt = (if applied then note_live now pair Orders rt else rt);
          (rt, io) = (if reseed then request_reseed pair has_seeder 0 (note_resubscribing pair rt, io) else (rt, io))
      in (Ok resync, rt, io))"

text \<open>The arm of \<open>apply_seed\<close> for a refused snapshot, and the end of its replay loop.\<close>

definition seed_refused ::
  "instant \<Rightarrow> bool \<Rightarrow> trading_pair \<Rightarrow> 'd pair_book \<Rightarrow> 'd source_runtime \<Rightarrow> 'd run_io \<Rightarrow> 'd handled"
where
  "seed_refused now has_seeder pair b rt io =
     (if has_seeder \<and> pb_reseeds b < MAX_RESEEDS
      then settle now pair has_seeder False True False (update_metrics bump_resyncs (put_book pair b rt)) io
      else settle now pair has_seeder False False True
             (update_metrics (bump_reseed_exhausted \<circ> bump_resyncs) (put_book pair b rt)) io)"

fun replay_finished ::
  "instant \<Rightarrow> bool \<Rightarrow> trading_pair \<Rightarrow> replay_end \<Rightarrow> 'd pair_book \<Rightarrow> 'd source_runtime \<Rightarrow> 'd run_io \<Rightarrow> 'd handled"
where
  "replay_finished now has_seeder pair OutClosed b rt io = (Err (), put_book pair b rt, io)"
| "replay_finished now has_seeder pair Drained b rt io =
     settle now pair has_seeder True False False (put_book pair (b\<lparr>pb_reseeds := 0\<rparr>) rt) io"
| "replay_finished now has_seeder pair (GappedAt e rest) b rt io =
     (if has_seeder \<and> pb_reseeds b < MAX_RESEEDS
      then settle now pair has_seeder True True False
             (update_metrics (bump_resyncs \<circ> count_gap e)
               (put_book pair (b\<lparr>pb_phase := Buffering (drop (length rest - MAX_BUFFERED_DELTAS) rest),
                                  pb_buffering_since := Some now\<rparr>) rt)) io
      else settle now pair has_seeder True False True
             (update_metrics (bump_reseed_exhausted \<circ> bump_resyncs \<circ> count_gap e) (put_book pair b rt)) io)"

definition apply_seed ::
  "'d decimal_ops \<Rightarrow> (string \<Rightarrow> u32) \<Rightarrow> (nat \<Rightarrow> u64) \<Rightarrow> instant \<Rightarrow> bool \<Rightarrow> trading_pair \<Rightarrow> normalized_delta
     \<Rightarrow> 'd source_runtime \<Rightarrow> 'd run_io \<Rightarrow> 'd handled"
where
  "apply_seed D crc wall now has_seeder pair snap rt io =
     (let snap = snap\<lparr>nd_symbol := to_canonical pair\<rparr> in
      case hm_get (rt_books rt) pair of
        None \<Rightarrow> (Ok False, rt, io)
      | Some b \<Rightarrow>
          (case so_apply D crc (pb_book b) snap of
             (Err e, bk) \<Rightarrow> seed_refused now has_seeder pair (b\<lparr>pb_book := bk\<rparr>) rt io
           | (Ok _, bk) \<Rightarrow>
               (let b = stamp_applied snap (b\<lparr>pb_book := bk\<rparr>) in
                case emit_book D wall (rt_exchange rt) pair b (io_out io) of
                  None \<Rightarrow> (Err (), put_book pair b rt, io)
                | Some out \<Rightarrow>
                    (let buffered = (case pb_phase b of Buffering buf \<Rightarrow> buf | Passthrough \<Rightarrow> []);
                         b = b\<lparr>pb_phase := Passthrough, pb_buffering_since := None, pb_buffer_overflowed := False\<rparr>;
                         (fin, b, out) = replay D crc wall (rt_exchange rt) pair (nd_update_id snap) buffered b out
                     in replay_finished now has_seeder pair fin b rt (io\<lparr>io_out := out\<rparr>)))))"

section \<open>Events\<close>

definition drop_undeclared :: "declared_datatype \<Rightarrow> 'd source_runtime \<Rightarrow> 'd source_runtime" where
  "drop_undeclared dt rt =
     (update_metrics bump_undeclared_dropped rt)\<lparr>rt_undeclared_warned := list_insert dt (rt_undeclared_warned rt)\<rparr>"

text \<open>The buffering arm: beyond the cap the oldest delta is dropped.\<close>

definition buffer_delta :: "normalized_delta \<Rightarrow> normalized_delta list \<Rightarrow> 'd pair_book \<Rightarrow> 'd pair_book" where
  "buffer_delta delta buf b =
     (if length buf \<ge> MAX_BUFFERED_DELTAS
      then b\<lparr>pb_buffer_overflowed := True, pb_phase := Buffering (tl buf @ [delta])\<rparr>
      else b\<lparr>pb_phase := Buffering (buf @ [delta])\<rparr>)"

text \<open>The arm of a book that is not waiting for a seed.\<close>

definition passthrough_book ::
  "'d decimal_ops \<Rightarrow> (string \<Rightarrow> u32) \<Rightarrow> (nat \<Rightarrow> u64) \<Rightarrow> instant \<Rightarrow> bool \<Rightarrow> trading_pair \<Rightarrow> normalized_delta
     \<Rightarrow> 'd pair_book \<Rightarrow> 'd source_runtime \<Rightarrow> 'd run_io \<Rightarrow> 'd handled"
where
  "passthrough_book D crc wall now has_seeder pair delta b rt io =
     (case so_apply D crc (pb_book b) delta of
        (Ok _, bk) \<Rightarrow>
          (let b = stamp_applied delta (b\<lparr>pb_book := bk\<rparr>) in
           case emit_book D wall (rt_exchange rt) pair b (io_out io) of
             None \<Rightarrow> (Err (), put_book pair b rt, io)
           | Some out \<Rightarrow>
               settle now pair has_seeder True False False (put_book pair b rt) (io\<lparr>io_out := out\<rparr>))
      | (Err e, bk) \<Rightarrow>
          (let b = b\<lparr>pb_book := bk\<rparr>; m = bump_resyncs \<circ> count_gap e in
           if has_seeder \<and> pb_reseeds b < MAX_RESEEDS
           then settle now pair has_seeder False True False
                  (update_metrics m
                    (put_book pair (b\<lparr>pb_phase := Buffering [delta], pb_buffering_since := Some now\<rparr>) rt)) io
           else settle now pair has_seeder False False True
                  (update_metrics m (put_book pair b rt)) io))"

definition handle_book ::
  "'d decimal_ops \<Rightarrow> (string \<Rightarrow> u32) \<Rightarrow> (nat \<Rightarrow> u64) \<Rightarrow> instant \<Rightarrow> bool \<Rightarrow> normalized_delta
     \<Rightarrow> 'd source_runtime \<Rightarrow> 'd run_io \<Rightarrow> 'd handled"
where
  "handle_book D crc wall now has_seeder delta rt io =
     (if DtOrderbook \<notin> set (rt_declared rt) then (Ok False, drop_undeclared DtOrderbook rt, io)
      else case codec_decode (rt_codec rt) (nd_symbol delta) of
        None \<Rightarrow> (Ok False, rt, io)
      | Some pair \<Rightarrow>
          (let delta = delta\<lparr>nd_symbol := to_canonical pair\<rparr> in
           case hm_get (rt_books rt) pair of
             None \<Rightarrow> (Ok False, rt, io)
           | Some b \<Rightarrow>
               (case pb_phase b of
                  Buffering buf \<Rightarrow>
                    if nd_is_snapshot delta then apply_seed D crc wall now has_seeder pair delta rt io
                    else settle now pair has_seeder False False False (put_book pair (buffer_delta delta buf b) rt) io
                | Passthrough \<Rightarrow> passthrough_book D crc wall now has_seeder pair delta b rt io)))"

definition handle_connection_gap :: "u64 \<Rightarrow> 'd source_runtime \<Rightarrow> 'd run_io \<Rightarrow> 'd handled" where
  "handle_connection_gap dropped rt io =
     (Ok True,
      (update_metrics (add_deltas_missed dropped \<circ> bump_resyncs \<circ> bump_gaps) rt)
        \<lparr>rt_books := hm_map_values (\<lambda>b. b\<lparr>pb_book := force_gap (pb_book b), pb_phase := Passthrough,
                                             pb_buffering_since := None\<rparr>) (rt_books rt)\<rparr>,
      io)"

definition handle_trade ::
  "instant \<Rightarrow> 'd trade \<Rightarrow> u64 option \<Rightarrow> 'd source_runtime \<Rightarrow> 'd run_io \<Rightarrow> 'd handled"
where
  "handle_trade now trade sequence rt io =
     (if DtTrades \<notin> set (rt_declared rt) then (Ok False, drop_undeclared DtTrades rt, io)
      else case hm_get (rt_books rt) (tr_pair trade) of
        None \<Rightarrow> (Ok False, rt, io)
      | Some b \<Rightarrow>
          (let pair = tr_pair trade;
               rt = (if sequence \<noteq> None then update_metrics (set_trade_loss_confidence Exact) rt else rt);
               (answer, tb) = tb_apply sequence (pb_trades b);
               rt = (case answer of
                       GappedApplied missed \<Rightarrow> update_metrics (add_trades_lost missed \<circ> bump_trade_gaps) rt
                     | _ \<Rightarrow> rt);
               rt = put_book pair (b\<lparr>pb_trades := tb\<rparr>) rt;
               rt = (case (rt_trade_seq_carry rt, tb_last_seq tb) of
                       (Some carry, Some l) \<Rightarrow> rt\<lparr>rt_trade_seq_carry := Some (hm_insert pair l carry)\<rparr>
                     | _ \<Rightarrow> rt)
           in case send (RTrade trade) (io_out io) of
                None \<Rightarrow> (Err (), rt, io)
              | Some out \<Rightarrow> (Ok False, note_live now pair Trades rt, io\<lparr>io_out := out\<rparr>)))"

definition forward ::
  "instant \<Rightarrow> declared_datatype \<Rightarrow> 'd reconstructed_event \<Rightarrow> trading_pair \<Rightarrow> feed_datatype
     \<Rightarrow> 'd source_runtime \<Rightarrow> 'd run_io \<Rightarrow> 'd handled"
where
  "forward now dt ev pair ty rt io =
     (if dt \<notin> set (rt_declared rt) then (Ok False, drop_undeclared dt rt, io)
      else case send ev (io_out io) of
        None \<Rightarrow> (Err (), rt, io)
      | Some out \<Rightarrow> (Ok False, note_live now pair ty rt, io\<lparr>io_out := out\<rparr>))"

fun handle_event ::
  "'d decimal_ops \<Rightarrow> (string \<Rightarrow> u32) \<Rightarrow> (nat \<Rightarrow> u64) \<Rightarrow> instant \<Rightarrow> bool \<Rightarrow> 'd domain_event
     \<Rightarrow> 'd source_runtime \<Rightarrow> 'd run_io \<Rightarrow> 'd handled"
where
  "handle_event D crc wall now has_seeder (Book delta) rt io = handle_book D crc wall now has_seeder delta rt io"
| "handle_event D crc wall now has_seeder (ConnectionGap dropped) rt io = handle_connection_gap dropped rt io"
| "handle_event D crc wall now has_seeder (TradeEv trade sequence) rt io = handle_trade now trade sequence rt io"
| "handle_event D crc wall now has_seeder (FundingRateEv fr) rt io =
     forward now DtFundingRates (RFundingRate fr) (fr_pair fr) FundingRates rt io"
| "handle_event D crc wall now has_seeder (OpenInterestEv oi) rt io =
     forward now DtOpenInterest (ROpenInterest oi) (oi_pair oi) OpenInterest rt io"
| "handle_event D crc wall now has_seeder (FundingSettlementEv fs) rt io =
     (if DtFundingRates \<notin> set (rt_declared rt) then (Ok False, update_metrics bump_undeclared_dropped rt, io)
      else case send (RFundingSettlement fs) (io_out io) of
        None \<Rightarrow> (Err (), rt, io)
      | Some out \<Rightarrow> (Ok False, rt, io\<lparr>io_out := out\<rparr>))"

definition in_band_seed_expired :: "instant \<Rightarrow> 'd source_runtime \<Rightarrow> bool" where
  "in_band_seed_expired now rt \<longleftrightarrow>
     list_ex (\<lambda>(pair, b). (case (pb_buffering_since b, pb_phase b) of
         (Some since, Buffering _) \<Rightarrow> now - since > IN_BAND_SEED_DEADLINE
       | _ \<Rightarrow> False)) (rt_books rt)"

section \<open>The loop\<close>

record 'd run_state =
  rs_rt :: "'d source_runtime"
  rs_io :: "'d run_io"
  rs_events_done :: bool
  rs_exit :: "runtime_outcome option"

text \<open>The start of \<open>run\<close>: a seed fetch for every pair, or no buffering when there is no seeder.\<close>

definition run_start :: "bool \<Rightarrow> 'd reconstructed_event sender \<Rightarrow> 'd source_runtime \<Rightarrow> 'd run_state" where
  "run_start has_seeder out rt =
     (let io = \<lparr>io_out = out, io_pending = [], io_in_flight = 0\<rparr> in
      if \<not> rt_needs_rest rt then \<lparr>rs_rt = rt, rs_io = io, rs_events_done = False, rs_exit = None\<rparr>
      else if has_seeder then
        \<lparr>rs_rt = rt\<lparr>rt_books := hm_map_values (\<lambda>b. b\<lparr>pb_seeding := True\<rparr>) (rt_books rt)\<rparr>,
         rs_io = fold (\<lambda>(pair, b). spawn_seed pair (pb_wire b) 0) (rt_books rt) io,
         rs_events_done = False, rs_exit = None\<rparr>
      else
        \<lparr>rs_rt = rt\<lparr>rt_books := hm_map_values (\<lambda>b. b\<lparr>pb_phase := Passthrough\<rparr>) (rt_books rt)\<rparr>,
         rs_io = io, rs_events_done = False, rs_exit = None\<rparr>)"

text \<open>After the loop: seed fetches still in flight are counted as abandoned.\<close>

definition leave :: "runtime_outcome \<Rightarrow> 'd source_runtime \<Rightarrow> 'd run_io \<Rightarrow> 'd run_state \<Rightarrow> 'd run_state" where
  "leave outc rt io st =
     st\<lparr>rs_rt := (if io_in_flight io > 0 then update_metrics (add_seeds_abandoned (of_nat (io_in_flight io))) rt else rt),
        rs_io := io, rs_exit := Some outc\<rparr>"

definition after_handled :: "'d handled \<Rightarrow> 'd run_state \<Rightarrow> 'd run_state" where
  "after_handled h st =
     (case h of
        (Ok True, rt, io) \<Rightarrow> leave ResyncRequired rt io st
      | (Ok False, rt, io) \<Rightarrow> st\<lparr>rs_rt := rt, rs_io := io\<rparr>
      | (Err _, rt, io) \<Rightarrow> st\<lparr>rs_rt := rt, rs_io := io, rs_exit := Some Finished\<rparr>)"

text \<open>A seed result is received: the fetch is no longer in flight and the pair no longer seeding.\<close>

definition take_seed :: "trading_pair \<Rightarrow> 'd run_state \<Rightarrow> 'd source_runtime \<times> 'd run_io" where
  "take_seed pair st =
     ((case hm_get (rt_books (rs_rt st)) pair of
         None \<Rightarrow> rs_rt st
       | Some b \<Rightarrow> put_book pair (b\<lparr>pb_seeding := False\<rparr>) (rs_rt st)),
      (rs_io st)\<lparr>io_in_flight := io_in_flight (rs_io st) - 1\<rparr>)"

definition seed_failed :: "bool \<Rightarrow> trading_pair \<Rightarrow> 'd source_runtime \<Rightarrow> 'd run_io \<Rightarrow> 'd run_state \<Rightarrow> 'd run_state" where
  "seed_failed has_seeder pair rt io st =
     (let rt = update_metrics bump_resyncs rt;
          attempts = (case hm_get (rt_books rt) pair of Some b \<Rightarrow> pb_reseeds b | None \<Rightarrow> MAX_RESEEDS)
      in if attempts < MAX_RESEEDS
         then let delay = min (SEED_RETRY_BASE * (attempts + 1)) SEED_RETRY_CAP;
                  (rt, io) = request_reseed pair has_seeder delay (rt, io)
              in st\<lparr>rs_rt := rt, rs_io := io\<rparr>
         else leave ResyncRequired (update_metrics bump_reseed_exhausted rt) io st)"

inductive run_step ::
  "'d decimal_ops \<Rightarrow> (string \<Rightarrow> u32) \<Rightarrow> (nat \<Rightarrow> u64) \<Rightarrow> bool \<Rightarrow> 'd run_state \<Rightarrow> 'd run_state \<Rightarrow> bool"
  for D crc wall has_seeder
where
  all_done: "rs_exit st = None \<Longrightarrow> rs_events_done st \<Longrightarrow> io_in_flight (rs_io st) = 0
     \<Longrightarrow> run_step D crc wall has_seeder st (leave Finished (rs_rt st) (rs_io st) st)"
| shutdown: "rs_exit st = None
     \<Longrightarrow> run_step D crc wall has_seeder st (leave Finished (rs_rt st) (rs_io st) st)"
| cadence_sweep: "rs_exit st = None
     \<Longrightarrow> run_step D crc wall has_seeder st (st\<lparr>rs_rt := sweep_stale_datatypes now (rs_rt st)\<rparr>)"
| heartbeat: "rs_exit st = None \<Longrightarrow> run_step D crc wall has_seeder st st"
| event: "rs_exit st = None \<Longrightarrow> \<not> rs_events_done st
     \<Longrightarrow> run_step D crc wall has_seeder st
           (after_handled (handle_event D crc wall now has_seeder ev (rs_rt st) (rs_io st)) st)"
| events_closed: "rs_exit st = None \<Longrightarrow> \<not> rs_events_done st
     \<Longrightarrow> run_step D crc wall has_seeder st (st\<lparr>rs_events_done := True\<rparr>)"
| seed_ok: "rs_exit st = None \<Longrightarrow> (pair, wire, delay) \<in> set (io_pending (rs_io st))
     \<Longrightarrow> take_seed pair (st\<lparr>rs_io := (rs_io st)\<lparr>io_pending := remove1 (pair, wire, delay) (io_pending (rs_io st))\<rparr>\<rparr>) = (rt, io)
     \<Longrightarrow> run_step D crc wall has_seeder st
           (after_handled (apply_seed D crc wall now has_seeder pair snap rt io) st)"
| seed_err: "rs_exit st = None \<Longrightarrow> (pair, wire, delay) \<in> set (io_pending (rs_io st))
     \<Longrightarrow> take_seed pair (st\<lparr>rs_io := (rs_io st)\<lparr>io_pending := remove1 (pair, wire, delay) (io_pending (rs_io st))\<rparr>\<rparr>) = (rt, io)
     \<Longrightarrow> run_step D crc wall has_seeder st (seed_failed has_seeder pair rt io st)"
| seed_deadline: "rs_exit st = None \<Longrightarrow> rt_seeds_out_of_band (rs_rt st) \<Longrightarrow> \<not> rt_needs_rest (rs_rt st)
     \<Longrightarrow> in_band_seed_expired now (rs_rt st)
     \<Longrightarrow> run_step D crc wall has_seeder st
           (leave ResyncRequired (update_metrics bump_resyncs (rs_rt st)) (rs_io st) st)"


inductive_cases run_stepE: "run_step D crc wall has_seeder st st'"

section \<open>What is emitted\<close>

definition event_ok :: "'d decimal_ops \<Rightarrow> 'd reconstructed_event \<Rightarrow> bool" where
  "event_ok D ev = (case ev of
       RBook pair ts ob \<Rightarrow>
         bt_wf (dec_val D) (ob_bids ob) \<and> bt_wf (dec_val D) (ob_asks ob)
       \<and> (\<forall>(b, _) \<in> set (ob_bids ob). \<forall>(a, _) \<in> set (ob_asks ob). dec_less D b a)
     | _ \<Rightarrow> True)"

abbreviation out_ok :: "'d decimal_ops \<Rightarrow> 'd reconstructed_event sender \<Rightarrow> bool" where
  "out_ok D out \<equiv> list_all (event_ok D) (sent out)"

lemma captured_ranked:
  "map (\<lambda>l. (level_price l, l)) (map (\<lambda>(idx, (price, sz)). level_new (of_nat idx) side price sz []) (enumerate 0 xs))
     = ranked_levels side xs"
  by (simp add: ranked_levels_def level_new_def comp_def case_prod_unfold)

lemma captured_sides:
  assumes "od_wf D od" and "capture_level_vecs od = (bids, asks)"
  shows "ob_bids (ob_from_levels D oid ts pair exchange bids asks) = rev (ranked_levels Bids (rev (od_bids od)))"
    and "ob_asks (ob_from_levels D oid ts pair exchange bids asks) = ranked_levels Asks (od_asks od)"
proof -
  let ?b = "ranked_levels Bids (rev (od_bids od))" and ?a = "ranked_levels Asks (od_asks od)"
  have lv: "map (\<lambda>l. (level_price l, l)) bids = ?b" "map (\<lambda>l. (level_price l, l)) asks = ?a"
    using assms(2) captured_ranked [of Bids "rev (od_bids od)"] captured_ranked [of Asks "od_asks od"]
    by (auto simp: capture_level_vecs_def od_top_bids_def od_top_asks_def)
  have "bt_wf (dec_val D) (rev ?b)" "bt_wf (dec_val D) ?a"
    using assms(1) bt_wf_keys [of "rev ?b" "od_bids od" "dec_val D"] bt_wf_keys [of ?a "od_asks od" "dec_val D"]
    by (simp_all add: od_wf_def ranked_levels_proj flip: rev_map)
  then show "ob_bids (ob_from_levels D oid ts pair exchange bids asks) = rev ?b"
    "ob_asks (ob_from_levels D oid ts pair exchange bids asks) = ?a"
    using bt_collect_rev_sorted [of "dec_val D" "rev ?b"] bt_collect_sorted [of "dec_val D" ?a]
    by (simp_all add: ob_from_levels_def ob_new_def lv)
qed

lemma emit_book_ok:
  assumes "od_wf D (so_book (pb_book b))" and "uncrossed D (so_book (pb_book b))"
    and "out_ok D out" and "emit_book D wall exchange pair b out = Some out'"
  shows "out_ok D out'"
proof -
  let ?od = "so_book (pb_book b)"
  obtain bids asks where cap: "capture_level_vecs ?od = (bids, asks)" by fastforce
  note sides = captured_sides [OF assms(1) cap]
  have keys: "fst ` set (rev (ranked_levels Bids (rev (od_bids ?od)))) = fst ` set (od_bids ?od)"
    "fst ` set (ranked_levels Asks (od_asks ?od)) = fst ` set (od_asks ?od)"
    using arg_cong [OF ranked_levels_proj(1) [of Bids "rev (od_bids ?od)"], of set]
      arg_cong [OF ranked_levels_proj(1) [of Asks "od_asks ?od"], of set] by simp_all
  have wf: "bt_wf (dec_val D) (rev (ranked_levels Bids (rev (od_bids ?od))))" "bt_wf (dec_val D) (ranked_levels Asks (od_asks ?od))"
    using assms(1) bt_wf_keys [of "rev (ranked_levels Bids (rev (od_bids ?od)))" "od_bids ?od" "dec_val D"]
      bt_wf_keys [of "ranked_levels Asks (od_asks ?od)" "od_asks ?od" "dec_val D"]
    by (simp_all add: od_wf_def ranked_levels_proj flip: rev_map)
  have unc: "\<forall>k \<in> fst ` set (od_bids ?od). \<forall>a \<in> fst ` set (od_asks ?od). dec_less D k a"
    using assms(2) unfolding uncrossed_def by fastforce
  obtain ts ob where out': "sent out' = sent out @ [RBook pair ts ob]"
    and ob: "ob_bids ob = rev (ranked_levels Bids (rev (od_bids ?od)))" "ob_asks ob = ranked_levels Asks (od_asks ?od)"
    using assms(4) sides by (auto simp: emit_book_def Let_def cap dest!: send_Some)
  have "event_ok D (RBook pair ts ob)"
    using wf unc unfolding keys [symmetric] by (simp add: event_ok_def ob) force
  with assms(3) out' show ?thesis by simp
qed

section \<open>The loop invariant\<close>

definition pb_ok :: "'d decimal_ops \<Rightarrow> 'd pair_book \<Rightarrow> bool" where
  "pb_ok D b \<longleftrightarrow>
     so_wf D (pb_book b) \<and> pb_reseeds b \<le> MAX_RESEEDS
   \<and> (case pb_phase b of Buffering buf \<Rightarrow> length buf \<le> MAX_BUFFERED_DELTAS | Passthrough \<Rightarrow> True)"

definition seeding_pairs :: "'d books \<Rightarrow> trading_pair set" where
  "seeding_pairs bks = {p. \<exists>b. hm_get bks p = Some b \<and> pb_seeding b}"

definition core_inv :: "'d decimal_ops \<Rightarrow> 'd books \<Rightarrow> 'd run_io \<Rightarrow> bool" where
  "core_inv D bks io \<longleftrightarrow>
     hm_wf bks \<and> (\<forall>p b. hm_get bks p = Some b \<longrightarrow> pb_ok D b) \<and> out_ok D (io_out io)
   \<and> io_in_flight io = length (io_pending io) \<and> distinct (map fst (io_pending io))
   \<and> fst ` set (io_pending io) = seeding_pairs bks"

text \<open>No book outside \<open>S\<close> waits for a seed that is not being fetched.\<close>

definition unstranded_but :: "trading_pair set \<Rightarrow> 'd books \<Rightarrow> bool" where
  "unstranded_but S bks \<longleftrightarrow>
     (\<forall>p b. hm_get bks p = Some b \<longrightarrow> p \<notin> S \<longrightarrow> pb_phase b \<noteq> Passthrough \<longrightarrow> pb_seeding b)"

lemma rt_books_bookkeeping [simp]:
  "rt_books (note_live now pair ty rt) = rt_books rt"
  "rt_books (note_resubscribing pair rt) = rt_books rt"
  "rt_books (update_metrics f rt) = rt_books rt"
  "rt_books (drop_undeclared dt rt) = rt_books rt"
  "rt_books (sweep_stale_datatypes now rt) = rt_books rt"
  "rt_books (put_book pair b rt) = hm_insert pair b (rt_books rt)"
  by (auto simp: note_live_def note_resubscribing_def update_metrics_def drop_undeclared_def add_live_def
      sweep_stale_datatypes_def put_book_def Let_def split: option.splits feed_datatype.splits)

lemma rt_flags_bookkeeping [simp]:
  "rt_needs_rest (note_live now pair ty rt) = rt_needs_rest rt"
  "rt_needs_rest (note_resubscribing pair rt) = rt_needs_rest rt"
  "rt_needs_rest (update_metrics f rt) = rt_needs_rest rt"
  "rt_needs_rest (drop_undeclared dt rt) = rt_needs_rest rt"
  "rt_needs_rest (sweep_stale_datatypes now rt) = rt_needs_rest rt"
  "rt_needs_rest (put_book pair b rt) = rt_needs_rest rt"
  by (auto simp: note_live_def note_resubscribing_def update_metrics_def drop_undeclared_def add_live_def
      sweep_stale_datatypes_def put_book_def Let_def split: option.splits feed_datatype.splits)

lemma seeding_pairs_same:
  "hm_get bks pair = Some b0 \<Longrightarrow> pb_seeding b = pb_seeding b0 \<Longrightarrow> seeding_pairs (hm_insert pair b bks) = seeding_pairs bks"
  by (auto simp: seeding_pairs_def hm_simps)

lemma core_inv_put:
  assumes "core_inv D bks io" and "hm_get bks pair = Some b0" and "pb_ok D b" and "pb_seeding b = pb_seeding b0"
  shows "core_inv D (hm_insert pair b bks) io"
  using assms seeding_pairs_same [OF assms(2,4)] by (auto simp: core_inv_def hm_simps)

lemma core_inv_out: "core_inv D bks io \<Longrightarrow> out_ok D out \<Longrightarrow> core_inv D bks (io\<lparr>io_out := out\<rparr>)"
  by (simp add: core_inv_def)


lemma request_reseed_cases:
  assumes "request_reseed pair has_seeder delay (rt, io) = (rt', io')"
  obtains (none) "rt' = rt" "io' = io"
  | (spawned) b where "hm_get (rt_books rt) pair = Some b" "\<not> pb_seeding b" "pb_reseeds b < MAX_RESEEDS"
      "rt' = put_book pair (b\<lparr>pb_seeding := True, pb_reseeds := pb_reseeds b + 1\<rparr>) rt"
      "io' = spawn_seed pair (pb_wire b) delay io"
proof (cases "hm_get (rt_books rt) pair")
  case None
  then show ?thesis using assms none by (simp add: request_reseed_def split: if_splits)
next
  case (Some b)
  show ?thesis
  proof (cases "has_seeder \<and> \<not> pb_seeding b \<and> pb_reseeds b < MAX_RESEEDS")
    case True
    with Some assms show ?thesis by (intro spawned [OF Some]) (simp_all add: request_reseed_def)
  next
    case False
    with Some assms show ?thesis by (intro none) (simp_all add: request_reseed_def split: if_splits)
  qed
qed

lemma core_inv_spawn:
  assumes inv: "core_inv D bks io" and b: "hm_get bks pair = Some b0" "\<not> pb_seeding b0"
    and ok: "pb_ok D b" "pb_seeding b"
  shows "core_inv D (hm_insert pair b bks) (spawn_seed pair wire delay io)"
proof -
  have "pair \<notin> fst ` set (io_pending io)" using inv b by (auto simp: core_inv_def seeding_pairs_def)
  moreover have "seeding_pairs (hm_insert pair b bks) = insert pair (seeding_pairs bks)"
    using ok(2) by (auto simp: seeding_pairs_def hm_simps)
  moreover have "\<forall>p b'. hm_get (hm_insert pair b bks) p = Some b' \<longrightarrow> pb_ok D b'"
    using inv ok(1) by (simp add: core_inv_def hm_simps)
  ultimately show ?thesis using inv by (simp add: core_inv_def spawn_seed_def)
qed

lemma request_reseed_inv:
  assumes "core_inv D (rt_books rt) io" and "request_reseed pair has_seeder delay (rt, io) = (rt', io')"
  shows "core_inv D (rt_books rt') io'"
  using assms(2)
proof (cases rule: request_reseed_cases)
  case (spawned b)
  have "pb_ok D b" using assms(1) spawned(1) by (simp add: core_inv_def)
  then have "pb_ok D (b\<lparr>pb_seeding := True, pb_reseeds := pb_reseeds b + 1\<rparr>)"
    using spawned(3) by (simp add: pb_ok_def)
  from core_inv_spawn [OF assms(1) spawned(1,2) this] show ?thesis by (simp add: spawned(4,5))
qed (use assms in simp)

lemma settle_inv:
  assumes "core_inv D (rt_books rt) io" and "settle now pair has_seeder applied reseed resync rt io = (r, rt', io')"
  shows "core_inv D (rt_books rt') io'"
  using assms
  by (auto simp: settle_def Let_def split: if_splits prod.splits dest!: request_reseed_inv [rotated])

text \<open>A pair's book after an accepted and after a refused delta.\<close>

lemma so_apply_pair:
  assumes "pb_ok D b" and "so_apply D crc (pb_book b) delta = (r, bk)"
  shows "pb_ok D (b\<lparr>pb_book := bk\<rparr>)" and "pb_ok D (stamp_applied delta' (b\<lparr>pb_book := bk\<rparr>))"
  using assms so_apply_wf [of D "pb_book b" crc delta] by (simp_all add: pb_ok_def stamp_applied_def)

lemma so_apply_emit:
  assumes "pb_ok D b" and "so_apply D crc (pb_book b) delta = (Ok u, bk)" and "out_ok D out"
    and "emit_book D wall exchange pair (stamp_applied delta' (b\<lparr>pb_book := bk\<rparr>)) out = Some out'"
  shows "out_ok D out'"
proof -
  have wf: "so_wf D (pb_book b)" using assms(1) by (simp add: pb_ok_def)
  then have "od_wf D (so_book bk)" "uncrossed D (so_book bk)"
    using so_apply_wf [OF wf, of crc delta] so_apply_uncrossed [OF wf assms(2)] assms(2) by (simp_all add: so_wf_def)
  then show ?thesis
    by (intro emit_book_ok [OF _ _ assms(3,4)]) (simp_all add: stamp_applied_def)
qed

lemma stamp_applied_sel [simp]:
  "pb_seeding (stamp_applied d b) = pb_seeding b" "pb_reseeds (stamp_applied d b) = pb_reseeds b"
  "pb_phase (stamp_applied d b) = pb_phase b" "pb_book (stamp_applied d b) = pb_book b"
  by (simp_all add: stamp_applied_def)

lemma replay_inv:
  assumes "pb_ok D b" and "out_ok D out" and "replay D crc wall exchange pair snap_id ds b out = (e, b', out')"
  shows "pb_ok D b' \<and> out_ok D out' \<and> pb_seeding b' = pb_seeding b \<and> pb_reseeds b' = pb_reseeds b
    \<and> pb_phase b' = pb_phase b"
  using assms
proof (induction ds arbitrary: b out)
  case (Cons delta rest)
  show ?case
  proof (cases "nd_update_id delta \<le> snap_id")
    case True
    with Cons show ?thesis by simp
  next
    case False
    obtain r bk where ap: "so_apply D crc (pb_book b) delta = (r, bk)" by fastforce
    note ok = so_apply_pair [OF Cons.prems(1) ap]
    show ?thesis
    proof (cases r)
      case (Err er)
      with Cons.prems(2,3) False ap ok show ?thesis by auto
    next
      case (Ok u)
      let ?b = "stamp_applied delta (b\<lparr>pb_book := bk\<rparr>)"
      show ?thesis
      proof (cases "emit_book D wall exchange pair ?b out")
        case None
        with Cons.prems(2,3) False ap Ok ok show ?thesis by (auto simp: Let_def)
      next
        case (Some out1)
        then have "out_ok D out1"
          using so_apply_emit [OF Cons.prems(1) _ Cons.prems(2)] ap Ok by blast
        from Cons.IH [OF ok(2) this] Cons.prems(3) False ap Ok Some show ?thesis by (simp add: Let_def)
      qed
    qed
  qed
qed simp


lemma unstranded_put:
  "unstranded_but {pair} bks \<Longrightarrow> pb_phase b = Passthrough \<or> pb_seeding b \<Longrightarrow> unstranded_but {} (hm_insert pair b bks)"
  by (auto simp: unstranded_but_def hm_simps)

lemma unstranded_put_but: "unstranded_but {pair} bks \<Longrightarrow> unstranded_but {pair} (hm_insert pair b bks)"
  by (auto simp: unstranded_but_def hm_simps)

lemma unstranded_weaken: "unstranded_but {} bks \<Longrightarrow> unstranded_but S bks"
  by (auto simp: unstranded_but_def)

lemma unstranded_absent: "unstranded_but {pair} bks \<Longrightarrow> hm_get bks pair = None \<Longrightarrow> unstranded_but {} bks"
  unfolding unstranded_but_def by (metis insert_iff option.distinct(1))

lemma request_reseed_seeds:
  assumes "request_reseed pair True delay (rt, io) = (rt', io')" and "unstranded_but {pair} (rt_books rt)"
    and "hm_get (rt_books rt) pair = Some b" and "pb_reseeds b < MAX_RESEEDS"
  shows "unstranded_but {} (rt_books rt')"
proof (cases "pb_seeding b")
  case True
  with assms have "rt' = rt" by (simp add: request_reseed_def)
  with assms(2,3) True show ?thesis
    unfolding unstranded_but_def by (metis option.inject singletonD)
next
  case False
  with assms have "rt' = put_book pair (b\<lparr>pb_seeding := True, pb_reseeds := pb_reseeds b + 1\<rparr>) rt"
    by (simp add: request_reseed_def)
  with assms(2) show ?thesis by (simp add: unstranded_put)
qed

lemma settle_reseed:
  assumes "settle now pair True applied True False rt io = (r, rt', io')" and "unstranded_but {pair} (rt_books rt)"
    and "hm_get (rt_books rt) pair = Some b" and "pb_reseeds b < MAX_RESEEDS"
  shows "unstranded_but {} (rt_books rt')"
proof -
  let ?rt = "note_resubscribing pair (if applied then note_live now pair Orders rt else rt)"
  from assms(1) have "request_reseed pair True 0 (?rt, io) = (rt', io')"
    by (auto simp: settle_def Let_def split: prod.splits if_splits)
  moreover have "rt_books ?rt = rt_books rt" by simp
  ultimately show ?thesis using assms(2-4) by (intro request_reseed_seeds [of pair 0 ?rt io rt' io' b]) simp_all
qed

lemma settle_quiet:
  "settle now pair has_seeder applied False resync rt io = (r, rt', io') \<Longrightarrow> rt_books rt' = rt_books rt \<and> r = Ok resync \<and> io' = io"
  by (auto simp: settle_def Let_def split: if_splits)

text \<open>The invariant together with the promise that a continuing run strands no book.\<close>

definition handled_ok :: "'d decimal_ops \<Rightarrow> bool \<Rightarrow> trading_pair set \<Rightarrow> 'd books \<Rightarrow> 'd handled \<Rightarrow> bool" where
  "handled_ok D has_seeder S bks h = (case h of (r, rt', io') \<Rightarrow>
     core_inv D (rt_books rt') io'
   \<and> (has_seeder \<longrightarrow> unstranded_but S bks \<longrightarrow> r = Ok False \<longrightarrow> unstranded_but {} (rt_books rt')))"

lemma handled_ok_settle:
  assumes "core_inv D (rt_books rt) io"
    and "\<not> resync \<Longrightarrow> has_seeder \<Longrightarrow> unstranded_but S bks \<Longrightarrow>
      (if reseed then unstranded_but {pair} (rt_books rt) \<and> (\<exists>b. hm_get (rt_books rt) pair = Some b \<and> pb_reseeds b < MAX_RESEEDS)
       else unstranded_but {} (rt_books rt))"
  shows "handled_ok D has_seeder S bks (settle now pair has_seeder applied reseed resync rt io)"
proof -
  obtain r rt' io' where st: "settle now pair has_seeder applied reseed resync rt io = (r, rt', io')" by (metis prod_cases3)
  have "unstranded_but {} (rt_books rt')" if "has_seeder" "unstranded_but S bks" "r = Ok False"
  proof (cases reseed)
    case True
    moreover have "\<not> resync" using st that(3) by (auto simp: settle_def Let_def split: prod.splits)
    ultimately show ?thesis
      using settle_reseed [of now pair applied rt io r rt' io'] st assms(2) that by auto
  next
    case False
    with st that(3) settle_quiet [of now pair has_seeder applied resync rt io r rt' io'] assms(2) that
    show ?thesis by auto
  qed
  then show ?thesis using settle_inv [OF assms(1) st] by (simp add: handled_ok_def st)
qed

lemma seed_refused_ok:
  assumes "core_inv D (rt_books rt) io" and "hm_get (rt_books rt) pair = Some b0"
    and "pb_ok D b" and "pb_seeding b = pb_seeding b0"
  shows "handled_ok D has_seeder {pair} (rt_books rt) (seed_refused now has_seeder pair b rt io)"
  using core_inv_put [OF assms]
  by (auto simp: seed_refused_def hm_simps intro!: handled_ok_settle unstranded_put_but)

lemma replay_finished_ok:
  assumes inv: "core_inv D (rt_books rt) io" and b0: "hm_get (rt_books rt) pair = Some b0"
    and b: "pb_ok D b" "pb_seeding b = pb_seeding b0" "pb_phase b = Passthrough"
  shows "handled_ok D has_seeder {pair} (rt_books rt) (replay_finished now has_seeder pair fin b rt io)"
proof -
  have put: "core_inv D (hm_insert pair b' (rt_books rt)) io" if "pb_ok D b'" "pb_seeding b' = pb_seeding b" for b'
    using core_inv_put [OF inv b0 that(1)] that(2) b(2) by simp
  have "pb_ok D (b\<lparr>pb_phase := Buffering (drop (length rest - MAX_BUFFERED_DELTAS) rest), pb_buffering_since := Some now\<rparr>)"
    "pb_ok D (b\<lparr>pb_reseeds := 0\<rparr>)" for rest
    using b(1) by (simp_all add: pb_ok_def)
  with put put [OF b(1)] b show ?thesis
    by (cases fin)
      (auto simp: handled_ok_def [of _ _ _ _ "(Err (), _)"] hm_simps
        intro!: handled_ok_settle unstranded_put_but unstranded_put)
qed

lemma apply_seed_ok:
  assumes inv: "core_inv D (rt_books rt) io"
  shows "handled_ok D has_seeder {pair} (rt_books rt) (apply_seed D crc wall now has_seeder pair snap rt io)"
proof (cases "hm_get (rt_books rt) pair")
  case None
  with inv show ?thesis by (auto simp: apply_seed_def handled_ok_def Let_def intro: unstranded_absent)
next
  case b: (Some b)
  have okb: "pb_ok D b" and outok: "out_ok D (io_out io)" using inv b by (simp_all add: core_inv_def)
  let ?snap = "snap\<lparr>nd_symbol := to_canonical pair\<rparr>"
  obtain ar bk where ap: "so_apply D crc (pb_book b) ?snap = (ar, bk)" by fastforce
  note ok1 = so_apply_pair [OF okb ap]
  show ?thesis
  proof (cases ar)
    case (Err e)
    with seed_refused_ok [OF inv b ok1(1)] b ap show ?thesis by (simp add: apply_seed_def Let_def)
  next
    case (Ok u)
    let ?b = "stamp_applied ?snap (b\<lparr>pb_book := bk\<rparr>)"
    show ?thesis
    proof (cases "emit_book D wall (rt_exchange rt) pair ?b (io_out io)")
      case None
      with core_inv_put [OF inv b ok1(2) [of ?snap]] b ap Ok show ?thesis
        by (simp add: apply_seed_def Let_def handled_ok_def)
    next
      case (Some out)
      have out1: "out_ok D out" using so_apply_emit [OF okb _ outok] ap Ok Some by blast
      let ?b1 = "?b\<lparr>pb_phase := Passthrough, pb_buffering_since := None, pb_buffer_overflowed := False\<rparr>"
      have okb1: "pb_ok D ?b1" using ok1(2) [of ?snap] by (simp add: pb_ok_def)
      let ?buf = "case pb_phase ?b of Buffering buf \<Rightarrow> buf | Passthrough \<Rightarrow> []"
      obtain fin b2 out2 where rp: "replay D crc wall (rt_exchange rt) pair (nd_update_id ?snap) ?buf ?b1 out = (fin, b2, out2)"
        by (metis prod_cases3)
      have b2: "pb_ok D b2" "out_ok D out2" "pb_seeding b2 = pb_seeding b" "pb_phase b2 = Passthrough"
        using replay_inv [OF okb1 out1 rp] by simp_all
      from replay_finished_ok [OF core_inv_out [OF inv b2(2)] b b2(1,3,4)] b ap Ok Some rp
      show ?thesis by (simp add: apply_seed_def Let_def)
    qed
  qed
qed

end
