(* ===== verification/Runtime_Loop.thy ===== *)
theory Runtime_Loop
  imports Runtime
begin

text \<open>
  The loop of \<open>SourceRuntime::run\<close> as a whole: every handler keeps the loop invariant of the theory
  \<open>Runtime\<close>, and the properties of every reachable state follow by rule induction over \<open>run_step\<close>.
\<close>

section \<open>The handlers keep the invariant\<close>

lemma handled_ok_weaken: "handled_ok D has_seeder {pair} bks h \<Longrightarrow> handled_ok D has_seeder {} bks h"
  by (auto simp: handled_ok_def intro: unstranded_weaken split: prod.splits)

lemma handled_ok_same:
  "core_inv D (rt_books rt') io' \<Longrightarrow> (unstranded_but {} bks \<Longrightarrow> unstranded_but {} (rt_books rt'))
     \<Longrightarrow> handled_ok D has_seeder {} bks (r, rt', io')"
  by (simp add: handled_ok_def)

lemma buffers_hold_one: "Suc 0 \<le> MAX_BUFFERED_DELTAS"
  by (simp add: MAX_BUFFERED_DELTAS_def)

lemma buffer_delta_sel [simp]:
  "pb_seeding (buffer_delta delta buf b) = pb_seeding b" "pb_reseeds (buffer_delta delta buf b) = pb_reseeds b"
  "pb_book (buffer_delta delta buf b) = pb_book b"
  by (simp_all add: buffer_delta_def)

lemma buffer_delta_phase:
  assumes "length buf \<le> MAX_BUFFERED_DELTAS"
  obtains buf' where "pb_phase (buffer_delta delta buf b) = Buffering buf'" "length buf' \<le> MAX_BUFFERED_DELTAS"
proof (cases "length buf = MAX_BUFFERED_DELTAS")
  case True
  with buffers_hold_one show thesis by (intro that [of "tl buf @ [delta]"]) (simp_all add: buffer_delta_def)
next
  case False
  with assms show thesis by (intro that [of "buf @ [delta]"]) (simp_all add: buffer_delta_def)
qed

lemma buffer_delta_ok:
  assumes "pb_ok D b" and "pb_phase b = Buffering buf"
  shows "pb_ok D (buffer_delta delta buf b)"
proof -
  have "length buf \<le> MAX_BUFFERED_DELTAS" using assms by (simp add: pb_ok_def)
  then obtain buf' where "pb_phase (buffer_delta delta buf b) = Buffering buf'" "length buf' \<le> MAX_BUFFERED_DELTAS"
    by (rule buffer_delta_phase)
  with assms(1) show ?thesis by (simp add: pb_ok_def)
qed

lemma passthrough_book_ok:
  assumes inv: "core_inv D (rt_books rt) io" and b: "hm_get (rt_books rt) pair = Some b"
    and ph: "pb_phase b = Passthrough"
  shows "handled_ok D has_seeder {} (rt_books rt)
    (passthrough_book D crc wall now has_seeder pair delta b rt io)"
proof -
  have okb: "pb_ok D b" and outok: "out_ok D (io_out io)" using inv b by (simp_all add: core_inv_def)
  obtain ar bk where ap: "so_apply D crc (pb_book b) delta = (ar, bk)" by fastforce
  note ok1 = so_apply_pair [OF okb ap]
  show ?thesis
  proof (cases ar)
    case (Err e)
    have okq: "pb_ok D (b\<lparr>pb_book := bk, pb_phase := Buffering [delta], pb_buffering_since := Some now\<rparr>)"
      using ok1(1) buffers_hold_one by (simp add: pb_ok_def)
    let ?rq = "update_metrics (bump_resyncs \<circ> count_gap e)
      (put_book pair (b\<lparr>pb_book := bk, pb_phase := Buffering [delta], pb_buffering_since := Some now\<rparr>) rt)"
    let ?rk = "update_metrics (bump_resyncs \<circ> count_gap e) (put_book pair (b\<lparr>pb_book := bk\<rparr>) rt)"
    have "handled_ok D has_seeder {} (rt_books rt) (settle now pair has_seeder False True False ?rq io)"
      if "pb_reseeds b < MAX_RESEEDS"
      using core_inv_put [OF inv b okq] that
      by (intro handled_ok_settle) (simp_all add: hm_simps unstranded_put_but unstranded_weaken)
    moreover have "handled_ok D has_seeder {} (rt_books rt) (settle now pair has_seeder False False True ?rk io)"
      using core_inv_put [OF inv b ok1(1)] by (intro handled_ok_settle) simp_all
    ultimately show ?thesis by (cases has_seeder) (simp_all add: passthrough_book_def ap Err Let_def)
  next
    case (Ok u)
    let ?b = "stamp_applied delta (b\<lparr>pb_book := bk\<rparr>)"
    note put = core_inv_put [OF inv b ok1(2) [of delta]]
    show ?thesis
    proof (cases "emit_book D wall (rt_exchange rt) pair ?b (io_out io)")
      case None
      with put Ok ap show ?thesis by (simp add: passthrough_book_def Let_def handled_ok_def)
    next
      case (Some out)
      have "out_ok D out" using so_apply_emit [OF okb _ outok] ap Ok Some by blast
      have "handled_ok D has_seeder {} (rt_books rt)
          (settle now pair has_seeder True False False (put_book pair ?b rt) (io\<lparr>io_out := out\<rparr>))"
        using core_inv_out [OF put \<open>out_ok D out\<close>] ph
        by (intro handled_ok_settle) (simp_all add: unstranded_put unstranded_weaken)
      with Ok ap Some show ?thesis by (simp add: passthrough_book_def Let_def)
    qed
  qed
qed

lemma handle_book_ok:
  assumes inv: "core_inv D (rt_books rt) io"
  shows "handled_ok D has_seeder {} (rt_books rt) (handle_book D crc wall now has_seeder delta rt io)"
proof (cases "DtOrderbook \<in> set (rt_declared rt)")
  case False
  with inv show ?thesis by (simp add: handle_book_def handled_ok_def)
next
  case True
  show ?thesis
  proof (cases "codec_decode (rt_codec rt) (nd_symbol delta)")
    case None
    with True inv show ?thesis by (simp add: handle_book_def handled_ok_def)
  next
    case (Some pair)
    let ?delta = "delta\<lparr>nd_symbol := to_canonical pair\<rparr>"
    show ?thesis
    proof (cases "hm_get (rt_books rt) pair")
      case None
      with True inv Some show ?thesis by (simp add: handle_book_def handled_ok_def Let_def)
    next
      case b: (Some b)
      show ?thesis
      proof (cases "pb_phase b")
        case (Buffering buf)
        have okb: "pb_ok D b" using inv b by (simp add: core_inv_def)
        note bd = buffer_delta_ok [OF okb Buffering, of ?delta]
        have "unstranded_but {} (hm_insert pair (buffer_delta ?delta buf b) (rt_books rt))"
          if u: "unstranded_but {} (rt_books rt)"
        proof -
          have "pb_seeding b" using u b Buffering by (auto simp: unstranded_but_def)
          then show ?thesis by (intro unstranded_put unstranded_weaken [OF u]) simp
        qed
        then have "handled_ok D has_seeder {} (rt_books rt)
            (settle now pair has_seeder False False False (put_book pair (buffer_delta ?delta buf b) rt) io)"
          using core_inv_put [OF inv b bd] by (intro handled_ok_settle) simp_all
        with handled_ok_weaken [OF apply_seed_ok [OF inv]] True Some b Buffering show ?thesis
          by (simp add: handle_book_def Let_def)
      next
        case Passthrough
        from passthrough_book_ok [OF inv b this] True Some b Passthrough show ?thesis
          by (simp add: handle_book_def Let_def)
      qed
    qed
  qed
qed

lemma force_gap_wf: "so_wf D (force_gap so)"
  by (simp add: so_wf_def force_gap_def od_wf_def)

lemma seeding_pairs_map_values:
  "(\<And>b. pb_seeding (f b) = pb_seeding b) \<Longrightarrow> seeding_pairs (hm_map_values f bks) = seeding_pairs bks"
  by (auto simp: seeding_pairs_def hm_simps)

lemma core_inv_map_values:
  assumes "core_inv D bks io" and "\<And>b. pb_ok D b \<Longrightarrow> pb_ok D (f b)" and "\<And>b. pb_seeding (f b) = pb_seeding b"
  shows "core_inv D (hm_map_values f bks) io"
  using assms(1) seeding_pairs_map_values [of f bks, OF assms(3)] assms(2)
  by (auto simp: core_inv_def hm_simps)

lemma handle_connection_gap_ok:
  assumes "core_inv D (rt_books rt) io"
  shows "handled_ok D has_seeder {} (rt_books rt) (handle_connection_gap dropped rt io)"
proof -
  let ?f = "\<lambda>b. b\<lparr>pb_book := force_gap (pb_book b), pb_phase := Passthrough, pb_buffering_since := None\<rparr>"
  have "core_inv D (hm_map_values ?f (rt_books rt)) io"
    by (rule core_inv_map_values [OF assms]) (simp_all add: pb_ok_def force_gap_wf)
  then show ?thesis by (simp add: handle_connection_gap_def handled_ok_def)
qed

lemma out_ok_send: "out_ok D out \<Longrightarrow> event_ok D ev \<Longrightarrow> send ev out = Some out' \<Longrightarrow> out_ok D out'"
  by (auto dest!: send_Some)

lemma event_ok_other [simp]:
  "event_ok D (RTrade t)" "event_ok D (RFundingRate f)" "event_ok D (ROpenInterest i)" "event_ok D (RFundingSettlement s)"
  by (simp_all add: event_ok_def)

lemma send_ok:
  assumes "core_inv D bks io" and "event_ok D ev" and "send ev (io_out io) = Some out"
  shows "core_inv D bks (io\<lparr>io_out := out\<rparr>)"
  using assms out_ok_send [OF _ assms(2,3)] by (simp add: core_inv_def)

lemma forward_ok:
  assumes "core_inv D (rt_books rt) io" and "event_ok D ev"
  shows "handled_ok D has_seeder {} (rt_books rt) (forward now dt ev pair ty rt io)"
  using assms(1) send_ok [OF assms(1,2)]
  by (auto simp: forward_def intro!: handled_ok_same split: option.splits)

lemma handle_trade_books:
  assumes "hm_get (rt_books rt) (tr_pair trade) = Some b" and "handle_trade now trade sequence rt io = (r, rt', io')"
    and "DtTrades \<in> set (rt_declared rt)"
  shows "\<exists>tb. rt_books rt' = hm_insert (tr_pair trade) (b\<lparr>pb_trades := tb\<rparr>) (rt_books rt)"
    and "io' = io \<or> (\<exists>out. send (RTrade trade) (io_out io) = Some out \<and> io' = io\<lparr>io_out := out\<rparr>)"
proof -
  obtain answer tb where tb: "tb_apply sequence (pb_trades b) = (answer, tb)" by fastforce
  have "rt_books rt' = hm_insert (tr_pair trade) (b\<lparr>pb_trades := tb\<rparr>) (rt_books rt)"
    using assms tb
    by (cases answer; cases "rt_trade_seq_carry rt"; cases "tb_last_seq tb"; cases sequence;
        cases "send (RTrade trade) (io_out io)")
      (auto simp: handle_trade_def Let_def update_metrics_def put_book_def)
  then show "\<exists>tb. rt_books rt' = hm_insert (tr_pair trade) (b\<lparr>pb_trades := tb\<rparr>) (rt_books rt)" ..
  show "io' = io \<or> (\<exists>out. send (RTrade trade) (io_out io) = Some out \<and> io' = io\<lparr>io_out := out\<rparr>)"
    using assms tb by (cases "send (RTrade trade) (io_out io)") (auto simp: handle_trade_def Let_def)
qed

lemma handle_trade_ok:
  assumes inv: "core_inv D (rt_books rt) io"
  shows "handled_ok D has_seeder {} (rt_books rt) (handle_trade now trade sequence rt io)"
proof (cases "DtTrades \<in> set (rt_declared rt)")
  case False
  with inv show ?thesis by (simp add: handle_trade_def handled_ok_def)
next
  case decl: True
  show ?thesis
  proof (cases "hm_get (rt_books rt) (tr_pair trade)")
    case None
    with inv decl show ?thesis by (simp add: handle_trade_def handled_ok_def)
  next
    case (Some b)
    obtain r rt' io' where h: "handle_trade now trade sequence rt io = (r, rt', io')" by (metis prod_cases3)
    obtain tb where bks: "rt_books rt' = hm_insert (tr_pair trade) (b\<lparr>pb_trades := tb\<rparr>) (rt_books rt)"
      using handle_trade_books(1) [OF Some h decl] by blast
    have "pb_ok D (b\<lparr>pb_trades := tb\<rparr>)" using inv Some by (simp add: core_inv_def pb_ok_def)
    with core_inv_put [OF inv Some this] bks have "core_inv D (rt_books rt') io" by simp
    then have "core_inv D (rt_books rt') io'"
      using handle_trade_books(2) [OF Some h decl] send_ok [OF _ event_ok_other(1)] by metis
    moreover have "unstranded_but {} (rt_books rt')" if u: "unstranded_but {} (rt_books rt)"
    proof -
      have "pb_phase b = Passthrough \<or> pb_seeding b" using u Some by (auto simp: unstranded_but_def)
      then show ?thesis unfolding bks by (intro unstranded_put unstranded_weaken [OF u]) simp
    qed
    ultimately show ?thesis unfolding h by (intro handled_ok_same) simp_all
  qed
qed

lemma handle_event_ok:
  assumes "core_inv D (rt_books rt) io"
  shows "handled_ok D has_seeder {} (rt_books rt) (handle_event D crc wall now has_seeder ev rt io)"
proof (cases ev)
  case (FundingSettlementEv fs)
  with assms send_ok [OF assms event_ok_other(4)] show ?thesis
    by (auto intro!: handled_ok_same split: option.splits)
qed (simp_all add: handle_book_ok handle_connection_gap_ok handle_trade_ok forward_ok assms)

section \<open>Seed results\<close>

lemma distinct_fst_remove1:
  "distinct (map fst xs) \<Longrightarrow> (p, y) \<in> set xs \<Longrightarrow>
     distinct (map fst (remove1 (p, y) xs)) \<and> fst ` set (remove1 (p, y) xs) = fst ` set xs - {p}"
  by (induction xs) (force simp: rev_image_eqI)+

lemma take_seed_ok:
  assumes inv: "core_inv D (rt_books (rs_rt st)) (rs_io st)" and pend: "(pair, wire, delay) \<in> set (io_pending (rs_io st))"
    and ts: "take_seed pair (st\<lparr>rs_io := (rs_io st)\<lparr>io_pending := remove1 (pair, wire, delay) (io_pending (rs_io st))\<rparr>\<rparr>) = (rt, io)"
  shows "core_inv D (rt_books rt) io"
    and "unstranded_but {} (rt_books (rs_rt st)) \<Longrightarrow> unstranded_but {pair} (rt_books rt)"
    and "io_in_flight io + 1 = io_in_flight (rs_io st)"
    and "\<exists>b. hm_get (rt_books (rs_rt st)) pair = Some b \<and> rt = put_book pair (b\<lparr>pb_seeding := False\<rparr>) (rs_rt st)"
proof -
  let ?bks = "rt_books (rs_rt st)"
  from inv have d: "distinct (map fst (io_pending (rs_io st)))" "fst ` set (io_pending (rs_io st)) = seeding_pairs ?bks"
    by (simp_all add: core_inv_def)
  from pend d(2) have "pair \<in> seeding_pairs ?bks" by force
  then obtain b where b: "hm_get ?bks pair = Some b" "pb_seeding b" by (auto simp: seeding_pairs_def)
  have rt: "rt = put_book pair (b\<lparr>pb_seeding := False\<rparr>) (rs_rt st)"
    and io: "io = (rs_io st)\<lparr>io_pending := remove1 (pair, wire, delay) (io_pending (rs_io st)),
                             io_in_flight := io_in_flight (rs_io st) - 1\<rparr>"
    using ts b by (auto simp: take_seed_def)
  have seeding: "seeding_pairs (hm_insert pair (b\<lparr>pb_seeding := False\<rparr>) ?bks) = seeding_pairs ?bks - {pair}"
    by (auto simp: seeding_pairs_def hm_simps)
  have "pb_ok D (b\<lparr>pb_seeding := False\<rparr>)" using inv b by (simp add: core_inv_def pb_ok_def)
  then have "\<forall>p b'. hm_get (hm_insert pair (b\<lparr>pb_seeding := False\<rparr>) ?bks) p = Some b' \<longrightarrow> pb_ok D b'"
    using inv by (auto simp: core_inv_def hm_simps)
  then show "core_inv D (rt_books rt) io"
    using inv distinct_fst_remove1 [OF d(1) pend] pend seeding d(2)
    by (simp add: core_inv_def rt io length_remove1)
  show "unstranded_but {} ?bks \<Longrightarrow> unstranded_but {pair} (rt_books rt)"
    unfolding rt by (simp add: unstranded_put_but unstranded_weaken)
  show "io_in_flight io + 1 = io_in_flight (rs_io st)"
    using inv pend by (cases "io_pending (rs_io st)") (simp_all add: core_inv_def io)
  show "\<exists>b. hm_get ?bks pair = Some b \<and> rt = put_book pair (b\<lparr>pb_seeding := False\<rparr>) (rs_rt st)"
    using b rt by blast
qed

section \<open>Starting states\<close>

text \<open>A runtime as the worker hands it to \<open>run\<close>: constructed, then configured by the builder methods.\<close>

inductive configured :: "'d source_runtime \<Rightarrow> bool" where
  new: "configured (runtime_new now exchange codec wires model recovery metrics declared)"
| cadence: "configured rt \<Longrightarrow> configured (with_datatype_cadence cs rt)"
| feeds: "configured rt \<Longrightarrow> configured (with_feeds fs rt)"
| carry: "configured rt \<Longrightarrow> configured (with_trade_seq_carry carry rt)"
| depth: "configured rt \<Longrightarrow> configured (rt_with_max_depth n rt)"

definition fresh_book :: "'d decimal_ops \<Rightarrow> bool \<Rightarrow> 'd pair_book \<Rightarrow> bool" where
  "fresh_book D buffered b \<longleftrightarrow>
     so_wf D (pb_book b) \<and> \<not> pb_seeding b \<and> pb_reseeds b = 0
   \<and> pb_phase b = (if buffered then Buffering [] else Passthrough)"

definition fresh_books :: "'d decimal_ops \<Rightarrow> 'd source_runtime \<Rightarrow> bool" where
  "fresh_books D rt \<longleftrightarrow>
     hm_wf (rt_books rt) \<and> (\<forall>p b. hm_get (rt_books rt) p = Some b \<longrightarrow> fresh_book D (rt_seeds_out_of_band rt) b)"

lemma so_new_ok: "so_wf D (so_new pair model recovery)"
  by (simp add: so_wf_def so_new_def od_new_def od_with_max_depth_def od_wf_def)

lemma runtime_new_fresh: "fresh_books D (runtime_new now exchange codec wires model recovery metrics declared)"
proof -
  define oob where "oob \<longleftrightarrow> seeds_out_of_band model \<and> DtOrderbook \<in> set declared"
  let ?step = "\<lambda>wire bks. case codec_decode codec wire of
      None \<Rightarrow> bks
    | Some pair \<Rightarrow> hm_insert pair (pair_book_new now oob model recovery wire pair) bks"
  have new: "fresh_book D oob (pair_book_new now oob model recovery wire pair)" for wire pair
    by (simp add: fresh_book_def pair_book_new_def so_new_ok)
  have "hm_wf (fold ?step wires bks) \<and> (\<forall>p b. hm_get (fold ?step wires bks) p = Some b \<longrightarrow> fresh_book D oob b)"
    if "hm_wf bks" "\<forall>p b. hm_get bks p = Some b \<longrightarrow> fresh_book D oob b" for bks
    using that
  proof (induction wires arbitrary: bks)
    case (Cons w ws)
    show ?case
      unfolding fold.simps comp_def using Cons.prems new
      by (intro Cons.IH) (auto simp: hm_simps split: option.splits)
  qed simp
  from this [of "[]"] show ?thesis unfolding fresh_books_def runtime_new_def Let_def oob_def by simp
qed

lemma hm_get_map_keyed: "map_of (map (\<lambda>(k, v). (k, f k v)) m) k = map_option (f k) (map_of m k)"
  by (induction m) auto

lemma arm_config_depth_ok: "so_wf D so \<Longrightarrow> so_wf D (arm_config_depth n so)"
  by (cases "so_model so") (simp_all add: arm_config_depth_def so_wf_def od_with_max_depth_def od_wf_def)

lemma configured_fresh: "configured rt \<Longrightarrow> fresh_books D rt"
proof (induction rule: configured.induct)
  case new
  show ?case by (rule runtime_new_fresh)
next
  case (cadence rt cs)
  then show ?case by (simp add: fresh_books_def with_datatype_cadence_def)
next
  case (feeds rt fs)
  then show ?case by (simp add: fresh_books_def with_feeds_def)
next
  case (carry rt carry)
  then show ?case
    by (auto simp: fresh_books_def with_trade_seq_carry_def hm_wf_def hm_get_map_keyed fresh_book_def
        comp_def case_prod_unfold)
next
  case (depth rt n)
  then show ?case
    by (auto simp: fresh_books_def rt_with_max_depth_def hm_simps fresh_book_def arm_config_depth_ok)
qed

lemma fresh_book_ok: "fresh_book D buffered b \<Longrightarrow> pb_ok D b"
  by (simp add: fresh_book_def pb_ok_def)

lemma fold_spawn:
  "fold (\<lambda>(pair, b). spawn_seed pair (pb_wire b) delay) bks io =
     io\<lparr>io_pending := io_pending io @ map (\<lambda>(pair, b). (pair, pb_wire b, delay)) bks,
        io_in_flight := io_in_flight io + length bks\<rparr>"
  by (induction bks arbitrary: io) (auto simp: spawn_seed_def)

section \<open>The loop invariant along a run\<close>

definition loop_inv :: "'d decimal_ops \<Rightarrow> bool \<Rightarrow> 'd run_state \<Rightarrow> bool" where
  "loop_inv D watch st \<longleftrightarrow>
     core_inv D (rt_books (rs_rt st)) (rs_io st)
   \<and> (watch \<longrightarrow> rs_exit st = None \<longrightarrow> unstranded_but {} (rt_books (rs_rt st)))"

lemma seeding_pairs_all: "seeding_pairs (hm_map_values (\<lambda>b. b\<lparr>pb_seeding := True\<rparr>) bks) = fst ` set bks"
proof -
  have "p \<in> seeding_pairs (hm_map_values (\<lambda>b. b\<lparr>pb_seeding := True\<rparr>) bks) \<longleftrightarrow> map_of bks p \<noteq> None" for p
    by (auto simp: seeding_pairs_def hm_simps)
  then show ?thesis by (auto simp: map_of_eq_None_iff)
qed

lemma seeding_pairs_none: "(\<And>p b. hm_get bks p = Some b \<Longrightarrow> \<not> pb_seeding b) \<Longrightarrow> seeding_pairs bks = {}"
  by (auto simp: seeding_pairs_def)

lemma run_start_inv:
  assumes conf: "configured rt" and out: "out_ok D out"
    and watch: "watch \<Longrightarrow> rt_needs_rest rt \<or> \<not> rt_seeds_out_of_band rt"
  shows "loop_inv D watch (run_start has_seeder out rt)"
proof -
  let ?bks = "rt_books rt"
  from configured_fresh [OF conf, of D] have fr: "hm_wf ?bks"
    "\<And>p b. hm_get ?bks p = Some b \<Longrightarrow> fresh_book D (rt_seeds_out_of_band rt) b"
    by (auto simp: fresh_books_def)
  have ok: "\<And>p b. hm_get ?bks p = Some b \<Longrightarrow> pb_ok D b" using fr(2) fresh_book_ok by blast
  have ns: "\<And>p b. hm_get ?bks p = Some b \<Longrightarrow> \<not> pb_seeding b" using fr(2) by (auto simp: fresh_book_def)
  consider (quiet) "\<not> rt_needs_rest rt" | (seeding) "rt_needs_rest rt" "has_seeder" | (unseeded) "rt_needs_rest rt" "\<not> has_seeder"
    by blast
  then show ?thesis
  proof cases
    case quiet
    moreover have "unstranded_but {} ?bks" if watch
      using fr(2) assms(3) [OF that] quiet by (auto simp: unstranded_but_def fresh_book_def)
    ultimately show ?thesis
      using fr(1) ok out seeding_pairs_none [of ?bks] ns
      by (auto simp: loop_inv_def core_inv_def run_start_def)
  next
    case seeding
    let ?f = "\<lambda>b. b\<lparr>pb_seeding := True\<rparr>"
    have "pb_ok D b" if "hm_get (hm_map_values ?f ?bks) p = Some b" for p b
      using that ok by (auto simp: hm_simps pb_ok_def)
    moreover have "fst ` (\<lambda>(pair, b). (pair, pb_wire b, 0::duration)) ` set ?bks = fst ` set ?bks" by force
    moreover have "distinct (map (fst \<circ> (\<lambda>(pair, b). (pair, pb_wire b, 0::duration))) ?bks)"
      using fr(1) by (simp add: hm_wf_def comp_def case_prod_unfold)
    moreover have "unstranded_but {} (hm_map_values ?f ?bks)" by (auto simp: unstranded_but_def hm_simps)
    ultimately show ?thesis
      using fr(1) out seeding seeding_pairs_all [of ?bks]
      by (auto simp: loop_inv_def core_inv_def run_start_def fold_spawn)
  next
    case unseeded
    let ?f = "\<lambda>b. b\<lparr>pb_phase := Passthrough\<rparr>"
    have "pb_ok D b" if "hm_get (hm_map_values ?f ?bks) p = Some b" for p b
      using that ok by (auto simp: hm_simps pb_ok_def)
    moreover have "seeding_pairs (hm_map_values ?f ?bks) = {}"
      using ns by (intro seeding_pairs_none) (auto simp: hm_simps)
    moreover have "unstranded_but {} (hm_map_values ?f ?bks)" by (auto simp: unstranded_but_def hm_simps)
    ultimately show ?thesis
      using fr(1) out unseeded by (auto simp: loop_inv_def core_inv_def run_start_def)
  qed
qed

lemma rt_books_leave [simp]:
  "rt_books (rs_rt (leave outc rt io st)) = rt_books rt" "rs_io (leave outc rt io st) = io"
  "rs_exit (leave outc rt io st) = Some outc"
  by (simp_all add: leave_def)

lemma leave_inv: "core_inv D (rt_books rt) io \<Longrightarrow> loop_inv D watch (leave outc rt io st)"
  by (simp add: loop_inv_def)

lemma after_handled_inv:
  assumes "handled_ok D has_seeder S (rt_books rt0) h" and "watch \<Longrightarrow> has_seeder \<and> unstranded_but S (rt_books rt0)"
  shows "loop_inv D watch (after_handled h st)"
proof -
  obtain r rt io where h: "h = (r, rt, io)" by (metis prod_cases3)
  then have inv: "core_inv D (rt_books rt) io" and un: "watch \<Longrightarrow> r = Ok False \<Longrightarrow> unstranded_but {} (rt_books rt)"
    using assms by (simp_all add: handled_ok_def)
  consider "r = Ok True" | "r = Ok False" | u where "r = Err u"
    by (cases r) (metis (full_types))+
  then show ?thesis
    by cases (use inv un in \<open>simp_all add: h after_handled_def loop_inv_def\<close>)
qed

lemma seed_failed_inv:
  assumes inv: "core_inv D (rt_books rt) io" and un: "watch \<Longrightarrow> has_seeder \<and> unstranded_but {pair} (rt_books rt)"
  shows "loop_inv D watch (seed_failed has_seeder pair rt io st)"
proof -
  let ?rt = "update_metrics bump_resyncs rt"
  define attempts where "attempts = (case hm_get (rt_books ?rt) pair of Some b \<Rightarrow> pb_reseeds b | None \<Rightarrow> MAX_RESEEDS)"
  show ?thesis
  proof (cases "attempts < MAX_RESEEDS")
    case False
    then have "seed_failed has_seeder pair rt io st = leave ResyncRequired (update_metrics bump_reseed_exhausted ?rt) io st"
      by (simp add: seed_failed_def Let_def attempts_def)
    with inv show ?thesis by (simp add: leave_inv)
  next
    case True
    then obtain b where b: "hm_get (rt_books ?rt) pair = Some b" "pb_reseeds b < MAX_RESEEDS"
      by (auto simp: attempts_def split: option.splits)
    let ?delay = "min (SEED_RETRY_BASE * (attempts + 1)) SEED_RETRY_CAP"
    obtain rt' io' where rq: "request_reseed pair has_seeder ?delay (?rt, io) = (rt', io')" by fastforce
    have st': "seed_failed has_seeder pair rt io st = st\<lparr>rs_rt := rt', rs_io := io'\<rparr>"
      using True rq b by (simp add: seed_failed_def Let_def attempts_def)
    have "core_inv D (rt_books rt') io'" using request_reseed_inv [of D ?rt io, OF _ rq] inv by simp
    moreover have "unstranded_but {} (rt_books rt')" if watch
      using request_reseed_seeds [of pair ?delay ?rt io rt' io' b] rq b un [OF that] by simp
    ultimately show ?thesis by (simp add: st' loop_inv_def)
  qed
qed

lemma run_step_inv:
  assumes "run_step D crc wall has_seeder st st'" and "loop_inv D watch st" and "watch \<Longrightarrow> has_seeder"
  shows "loop_inv D watch st'"
  using assms
proof (induction rule: run_step.induct)
  case (event st now ev)
  show ?case
    by (rule after_handled_inv [OF handle_event_ok]) (use event in \<open>simp_all add: loop_inv_def\<close>)
next
  case (seed_ok st pair wire delay rt io now snap)
  have inv: "core_inv D (rt_books (rs_rt st)) (rs_io st)" using seed_ok.prems by (simp add: loop_inv_def)
  note ts = take_seed_ok [OF inv seed_ok.hyps(2,3)]
  show ?case
    by (rule after_handled_inv [OF apply_seed_ok [OF ts(1)]]) (use seed_ok ts(2) in \<open>simp add: loop_inv_def\<close>)
next
  case (seed_err st pair wire delay rt io)
  have inv: "core_inv D (rt_books (rs_rt st)) (rs_io st)" using seed_err.prems by (simp add: loop_inv_def)
  note ts = take_seed_ok [OF inv seed_err.hyps(2,3)]
  show ?case
    by (rule seed_failed_inv [OF ts(1)]) (use seed_err ts(2) in \<open>simp add: loop_inv_def\<close>)
qed (simp_all add: loop_inv_def)

lemma run_loop_inv:
  assumes "(run_step D crc wall has_seeder)\<^sup>*\<^sup>* (run_start has_seeder out rt) st"
    and "configured rt" and "sent out = []"
    and "watch \<Longrightarrow> has_seeder \<and> (rt_needs_rest rt \<or> \<not> rt_seeds_out_of_band rt)"
  shows "loop_inv D watch st"
  using assms(1)
proof (induction rule: rtranclp_induct)
  case base
  show ?case by (rule run_start_inv [OF assms(2)]) (use assms(3,4) in auto)
next
  case (step st st')
  from run_step_inv [OF step(2,3)] assms(4) show ?case by blast
qed

section \<open>Failing seeds\<close>

text \<open>The step the loop takes when the pending fetch of a pair fails.\<close>

definition fail_seed :: "bool \<Rightarrow> trading_pair \<Rightarrow> 'd run_state \<Rightarrow> 'd run_state" where
  "fail_seed has_seeder pair st =
     (case find (\<lambda>e. fst e = pair) (io_pending (rs_io st)) of
        None \<Rightarrow> st
      | Some e \<Rightarrow>
          (case take_seed pair (st\<lparr>rs_io := (rs_io st)\<lparr>io_pending := remove1 e (io_pending (rs_io st))\<rparr>\<rparr>) of
             (rt, io) \<Rightarrow> seed_failed has_seeder pair rt io st))"

lemma fail_seed_step:
  assumes inv: "core_inv D (rt_books (rs_rt st)) (rs_io st)" and run: "rs_exit st = None"
    and b: "hm_get (rt_books (rs_rt st)) pair = Some b" "pb_seeding b"
  shows "run_step D crc wall True st (fail_seed True pair st)"
    and "if pb_reseeds b < MAX_RESEEDS
         then rs_exit (fail_seed True pair st) = None
            \<and> hm_get (rt_books (rs_rt (fail_seed True pair st))) pair = Some (b\<lparr>pb_reseeds := pb_reseeds b + 1\<rparr>)
         else rs_exit (fail_seed True pair st) = Some ResyncRequired"
proof -
  from b have "pair \<in> seeding_pairs (rt_books (rs_rt st))" by (auto simp: seeding_pairs_def)
  with inv have "\<exists>e \<in> set (io_pending (rs_io st)). fst e = pair" by (force simp: core_inv_def)
  then obtain e where f: "find (\<lambda>e. fst e = pair) (io_pending (rs_io st)) = Some e"
    by (metis (mono_tags, lifting) find_None_iff not_Some_eq)
  then have e: "e \<in> set (io_pending (rs_io st))" "fst e = pair"
    by (auto simp: find_Some_iff)
  then obtain wire delay where ev: "e = (pair, wire, delay)" by (metis prod.collapse)
  obtain rt io where ts: "take_seed pair (st\<lparr>rs_io := (rs_io st)\<lparr>io_pending := remove1 (pair, wire, delay) (io_pending (rs_io st))\<rparr>\<rparr>) = (rt, io)"
    by fastforce
  have fs: "fail_seed True pair st = seed_failed True pair rt io st" using f ts by (simp add: fail_seed_def ev)
  show "run_step D crc wall True st (fail_seed True pair st)"
    unfolding fs by (rule run_step.seed_err [OF run _ ts]) (use e ev in simp)
  have rt: "hm_get (rt_books rt) pair = Some (b\<lparr>pb_seeding := False\<rparr>)"
    using take_seed_ok(4) [OF inv _ ts] e ev b by (auto simp: hm_simps)
  show "if pb_reseeds b < MAX_RESEEDS
         then rs_exit (fail_seed True pair st) = None
            \<and> hm_get (rt_books (rs_rt (fail_seed True pair st))) pair = Some (b\<lparr>pb_reseeds := pb_reseeds b + 1\<rparr>)
         else rs_exit (fail_seed True pair st) = Some ResyncRequired"
    using rt run b(2) unfolding fs by (simp add: seed_failed_def Let_def request_reseed_def hm_simps)
qed

lemma fail_seed_run:
  assumes "loop_inv D False st" and "rs_exit st = None"
    and "hm_get (rt_books (rs_rt st)) pair = Some b" and "pb_seeding b" and "pb_reseeds b + n = MAX_RESEEDS"
  shows "(run_step D crc wall True)\<^sup>*\<^sup>* st ((fail_seed True pair ^^ Suc n) st)
    \<and> rs_exit ((fail_seed True pair ^^ Suc n) st) = Some ResyncRequired"
  using assms
proof (induction n arbitrary: st b)
  case 0
  then have inv: "core_inv D (rt_books (rs_rt st)) (rs_io st)" by (simp add: loop_inv_def)
  from fail_seed_step [OF inv 0(2,3,4)] 0(5) show ?case by auto
next
  case (Suc n)
  let ?st = "fail_seed True pair st"
  from Suc.prems have inv: "core_inv D (rt_books (rs_rt st)) (rs_io st)" by (simp add: loop_inv_def)
  note step = fail_seed_step [OF inv Suc.prems(2,3,4)]
  have nxt: "rs_exit ?st = None" "hm_get (rt_books (rs_rt ?st)) pair = Some (b\<lparr>pb_reseeds := pb_reseeds b + 1\<rparr>)"
    using step(2) Suc.prems(5) by auto
  have "loop_inv D False ?st" using run_step_inv [OF step(1) Suc.prems(1)] by simp
  from Suc.IH [OF this nxt] Suc.prems(4,5)
  have "(run_step D crc wall True)\<^sup>*\<^sup>* ?st ((fail_seed True pair ^^ Suc n) ?st)"
    "rs_exit ((fail_seed True pair ^^ Suc n) ?st) = Some ResyncRequired"
    by simp_all
  with step(1) show ?case
    by (simp only: funpow_Suc_right [of "Suc n"] comp_apply) (meson converse_rtranclp_into_rtranclp)
qed

section \<open>Replaying the buffer\<close>

lemma replay_drained:
  assumes "replay D crc wall exchange pair snap_id ds b out = (Drained, b', out')"
  shows "so_apply_all D crc (pb_book b) (filter (\<lambda>d. snap_id < nd_update_id d) ds) = Some (pb_book b')"
  using assms
proof (induction ds arbitrary: b out)
  case (Cons delta rest)
  obtain r bk where ap: "so_apply D crc (pb_book b) delta = (r, bk)" by fastforce
  show ?case
  proof (cases "nd_update_id delta \<le> snap_id")
    case True
    with Cons show ?thesis by auto
  next
    case False
    then obtain u where r: "r = Ok u" using Cons.prems ap by (cases r) auto
    let ?b = "stamp_applied delta (b\<lparr>pb_book := bk\<rparr>)"
    obtain out1 where "emit_book D wall exchange pair ?b out = Some out1"
      using Cons.prems ap r False by (cases "emit_book D wall exchange pair ?b out") (auto simp: Let_def)
    with Cons.prems ap r False have "replay D crc wall exchange pair snap_id rest ?b out1 = (Drained, b', out')"
      by (simp add: Let_def)
    from Cons.IH [OF this] ap r False show ?thesis by auto
  qed
qed simp

lemma settle_ok_iff: "fst (settle now pair has_seeder applied reseed resync rt io) = Ok resync"
  by (simp add: settle_def Let_def split: prod.splits)

lemma settle_book:
  assumes "settle now pair has_seeder applied reseed resync rt io = (r, rt', io')" and "hm_get (rt_books rt) pair = Some b"
  shows "\<exists>b'. hm_get (rt_books rt') pair = Some b' \<and> pb_phase b' = pb_phase b \<and> pb_book b' = pb_book b"
proof -
  let ?rt = "if applied then note_live now pair Orders rt else rt"
  have eq: "hm_get (rt_books ?rt) pair = Some b" using assms(2) by simp
  show ?thesis
  proof (cases reseed)
    case False
    with settle_quiet [of now pair has_seeder applied resync rt io] assms show ?thesis by simp
  next
    case True
    with assms(1) have "request_reseed pair has_seeder 0 (note_resubscribing pair ?rt, io) = (rt', io')"
      by (simp add: settle_def Let_def split: prod.splits if_splits)
    then show ?thesis
      by (cases rule: request_reseed_cases) (use eq assms(2) in \<open>auto simp: hm_simps split: if_splits\<close>)
  qed
qed

lemma replay_finished_drained:
  assumes "replay_finished now has_seeder pair fin b rt io = (Ok False, rt', io')"
    and "hm_get (rt_books rt') pair = Some b'" and "pb_phase b' = Passthrough"
  shows "fin = Drained \<and> pb_book b' = pb_book b"
proof (cases fin)
  case Drained
  then have "settle now pair has_seeder True False False (put_book pair (b\<lparr>pb_reseeds := 0\<rparr>) rt) io = (Ok False, rt', io')"
    using assms(1) by simp
  from settle_book [OF this] assms(2) Drained show ?thesis by (auto simp: hm_simps)
next
  case (GappedAt e rest)
  show ?thesis
  proof (cases "has_seeder \<and> pb_reseeds b < MAX_RESEEDS")
    case True
    let ?b = "b\<lparr>pb_phase := Buffering (drop (length rest - MAX_BUFFERED_DELTAS) rest), pb_buffering_since := Some now\<rparr>"
    have "settle now pair has_seeder True True False
        (update_metrics (bump_resyncs \<circ> count_gap e) (put_book pair ?b rt)) io = (Ok False, rt', io')"
      using assms(1) GappedAt True by simp
    from settle_book [OF this, of ?b] assms(2,3) show ?thesis by (auto simp: hm_simps)
  next
    case False
    with assms(1) GappedAt settle_ok_iff [of now pair has_seeder True False True
        "update_metrics (bump_reseed_exhausted \<circ> bump_resyncs \<circ> count_gap e) (put_book pair b rt)" io]
    show ?thesis by auto
  qed
qed (use assms(1) in simp)

lemma seed_refused_phase:
  assumes "seed_refused now has_seeder pair b rt io = (Ok False, rt', io')"
  shows "\<exists>b'. hm_get (rt_books rt') pair = Some b' \<and> pb_phase b' = pb_phase b"
proof (cases "has_seeder \<and> pb_reseeds b < MAX_RESEEDS")
  case True
  with assms have "settle now pair has_seeder False True False (update_metrics bump_resyncs (put_book pair b rt)) io
      = (Ok False, rt', io')" by (simp add: seed_refused_def)
  from settle_book [OF this, of b] show ?thesis by (auto simp: hm_simps)
next
  case False
  with assms settle_ok_iff [of now pair has_seeder False False True
      "update_metrics (bump_reseed_exhausted \<circ> bump_resyncs) (put_book pair b rt)" io]
  show ?thesis by (auto simp: seed_refused_def)
qed

section \<open>Properties of every run\<close>

text \<open>
  C1: every book that reaches the output, from a seed, a replayed buffer or a live delta, has both
  sides strictly sorted by price and every bid below every ask, whatever the venue sends, whichever
  fetches fail and however the steps of the loop interleave.
\<close>

theorem emitted_books_sorted_uncrossed:
  assumes "(run_step D crc wall has_seeder)\<^sup>*\<^sup>* (run_start has_seeder out rt) st"
    and "configured rt" and "sent out = []" and "RBook pair ts ob \<in> set (sent (io_out (rs_io st)))"
  shows "sorted_wrt (<) (map (dec_val D \<circ> fst) (ob_bids ob)) \<and> sorted_wrt (<) (map (dec_val D \<circ> fst) (ob_asks ob))
    \<and> (\<forall>(b, _) \<in> set (ob_bids ob). \<forall>(a, _) \<in> set (ob_asks ob). dec_val D b < dec_val D a)"
proof -
  have "event_ok D (RBook pair ts ob)"
    using run_loop_inv [OF assms(1-3), of False] assms(4) by (auto simp: loop_inv_def core_inv_def list_all_iff)
  then show ?thesis by (simp add: event_ok_def bt_wf_def)
qed

text \<open>
  C3: the resources of a run stay bounded and its fetch accounting is exact.  No buffer holds more
  than 100000 deltas and no pair is re-seeded more than eight times without a clean reconcile; the
  in-flight counter is the number of outstanding fetches, at most one per tracked pair, so it never
  underflows and the results always fit the channel of twice the number of pairs plus one.
\<close>

theorem run_resources_bounded:
  assumes "(run_step D crc wall has_seeder)\<^sup>*\<^sup>* (run_start has_seeder out rt) st"
    and "configured rt" and "sent out = []"
  shows "(\<forall>(p, b) \<in> set (rt_books (rs_rt st)). pb_reseeds b \<le> 8
        \<and> (\<forall>buf. pb_phase b = Buffering buf \<longrightarrow> length buf \<le> 100000))
    \<and> io_in_flight (rs_io st) = length (io_pending (rs_io st))
    \<and> distinct (map fst (io_pending (rs_io st)))
    \<and> fst ` set (io_pending (rs_io st)) = {p. \<exists>b. (p, b) \<in> set (rt_books (rs_rt st)) \<and> pb_seeding b}
    \<and> io_in_flight (rs_io st) \<le> length (rt_books (rs_rt st))"
proof -
  let ?bks = "rt_books (rs_rt st)" and ?io = "rs_io st"
  have inv: "core_inv D ?bks ?io" using run_loop_inv [OF assms, of False] by (simp add: loop_inv_def)
  then have wf: "distinct (map fst ?bks)" by (simp add: core_inv_def hm_wf_def)
  then have look: "hm_get ?bks p = Some b \<longleftrightarrow> (p, b) \<in> set ?bks" for p b by simp
  have "pb_ok D b" if "(p, b) \<in> set ?bks" for p b using inv that look by (auto simp: core_inv_def)
  then have bounds: "\<forall>(p, b) \<in> set ?bks. pb_reseeds b \<le> 8 \<and> (\<forall>buf. pb_phase b = Buffering buf \<longrightarrow> length buf \<le> 100000)"
    unfolding pb_ok_def MAX_RESEEDS_def MAX_BUFFERED_DELTAS_def by fastforce
  have sp: "fst ` set (io_pending ?io) = {p. \<exists>b. (p, b) \<in> set ?bks \<and> pb_seeding b}"
    using inv by (simp add: core_inv_def seeding_pairs_def look [symmetric])
  have "length (io_pending ?io) = card (fst ` set (io_pending ?io))"
    using inv distinct_card [of "map fst (io_pending ?io)"] by (simp add: core_inv_def)
  also have "\<dots> \<le> card (fst ` set ?bks)" unfolding sp by (intro card_mono) force+
  also have "\<dots> \<le> length ?bks" using card_length [of "map fst ?bks"] by simp
  finally show ?thesis using inv bounds sp by (simp add: core_inv_def)
qed

text \<open>
  C2: no book is stranded.  When the snapshots come over REST and a seeder is there, a running loop
  never has a book that waits for a seed without a fetch for it being outstanding.
\<close>

theorem no_book_stranded:
  assumes "(run_step D crc wall True)\<^sup>*\<^sup>* (run_start True out rt) st"
    and "configured rt" and "sent out = []" and "rt_needs_rest rt"
    and "rs_exit st = None" and "hm_get (rt_books (rs_rt st)) pair = Some b" and "pb_phase b = Buffering buf"
  shows "\<exists>wire delay. (pair, wire, delay) \<in> set (io_pending (rs_io st))"
proof -
  have inv: "loop_inv D True st" by (rule run_loop_inv [OF assms(1-3)]) (simp add: assms(4))
  then have "pb_seeding b" using assms(5-7) by (auto simp: loop_inv_def unstranded_but_def)
  then have "pair \<in> seeding_pairs (rt_books (rs_rt st))" using assms(6) by (auto simp: seeding_pairs_def)
  with inv have "pair \<in> fst ` set (io_pending (rs_io st))" by (simp add: loop_inv_def core_inv_def)
  then show ?thesis by force
qed


text \<open>
  C5: the buffered start is equivalent to an in-order start.  When a seed turns a buffering book
  live, the book is the one obtained by applying the snapshot and then, in order of arrival,
  exactly the buffered deltas newer than the snapshot, each of which was accepted.
\<close>

theorem seed_replays_buffer:
  assumes "hm_get (rt_books rt) pair = Some b" and "pb_phase b = Buffering buf"
    and "apply_seed D crc wall now has_seeder pair snap rt io = (Ok False, rt', io')"
    and "hm_get (rt_books rt') pair = Some b'" and "pb_phase b' = Passthrough"
  shows "so_apply_all D crc (pb_book b)
      (snap\<lparr>nd_symbol := to_canonical pair\<rparr> # filter (\<lambda>d. nd_update_id snap < nd_update_id d) buf) = Some (pb_book b')"
proof -
  let ?snap = "snap\<lparr>nd_symbol := to_canonical pair\<rparr>"
  obtain r bk where ap: "so_apply D crc (pb_book b) ?snap = (r, bk)" by fastforce
  show ?thesis
  proof (cases r)
    case (Err e)
    with assms(1,3) ap have "seed_refused now has_seeder pair (b\<lparr>pb_book := bk\<rparr>) rt io = (Ok False, rt', io')"
      by (simp add: apply_seed_def Let_def)
    from seed_refused_phase [OF this] assms(2,4,5) show ?thesis by auto
  next
    case (Ok u)
    let ?b = "stamp_applied ?snap (b\<lparr>pb_book := bk\<rparr>)"
    let ?b1 = "?b\<lparr>pb_phase := Passthrough, pb_buffering_since := None, pb_buffer_overflowed := False\<rparr>"
    obtain out where em: "emit_book D wall (rt_exchange rt) pair ?b (io_out io) = Some out"
      using assms(1,3) ap Ok
      by (cases "emit_book D wall (rt_exchange rt) pair ?b (io_out io)") (auto simp: apply_seed_def Let_def)
    obtain fin b2 out2 where rp: "replay D crc wall (rt_exchange rt) pair (nd_update_id snap) buf ?b1 out = (fin, b2, out2)"
      by (metis prod_cases3)
    have "replay_finished now has_seeder pair fin b2 rt (io\<lparr>io_out := out2\<rparr>) = (Ok False, rt', io')"
      using assms(1-3) ap Ok em rp by (simp add: apply_seed_def Let_def)
    from replay_finished_drained [OF this assms(4,5)] replay_drained [of D crc wall _ pair _ buf ?b1 out b2 out2] rp ap Ok
    show ?thesis by simp
  qed
qed

text \<open>
  Every print of a declared datatype and a tracked pair is handed on exactly once and in order,
  including one the tradebook classifies as a duplicate.
\<close>

lemma every_print_forwarded:
  assumes "DtTrades \<in> set (rt_declared rt)" and "hm_get (rt_books rt) (tr_pair trade) = Some b"
    and "closes_after (io_out io) = None"
  shows "\<exists>rt'. handle_trade now trade sequence rt io
      = (Ok False, rt', io\<lparr>io_out := (io_out io)\<lparr>sent := sent (io_out io) @ [RTrade trade]\<rparr>\<rparr>)"
  using assms by (simp add: handle_trade_def Let_def send_def split: prod.splits)

section \<open>Concrete runs\<close>

definition sample_out :: "xdec reconstructed_event sender" where
  "sample_out = \<lparr>sent = [], closes_after = None\<rparr>"

definition sample_runtime :: "reconstruction_model \<Rightarrow> xdec source_runtime" where
  "sample_runtime model =
     runtime_new 0 ''Bybit'' (Concat True) [''BTCUSDT''] model ActResubscribe metrics_default [DtOrderbook, DtTrades]"

definition sample_refresh_run :: "xdec run_state" where
  "sample_refresh_run =
     (let st = run_start False sample_out (sample_runtime FullRefresh)
      in after_handled (handle_event exact_decimal (\<lambda>_. 0) (\<lambda>_. 0) 0 False (Book (sample_delta True)) (rs_rt st) (rs_io st)) st)"

lemma sample_refresh_emits:
  "list_ex (\<lambda>ev. case ev of RBook pair ts ob \<Rightarrow> True | _ \<Rightarrow> False) (sent (io_out (rs_io sample_refresh_run)))"
  by code_simp

lemma sample_configured: "configured (sample_runtime model)"
  unfolding sample_runtime_def by (rule configured.new)

lemma sample_out_empty: "sent sample_out = []"
  by (simp add: sample_out_def)

theorem emitted_books_sorted_uncrossed_witness:
  "\<exists>pair ts ob. RBook pair ts ob \<in> set (sent (io_out (rs_io sample_refresh_run)))
     \<and> sorted_wrt (<) (map (dec_val exact_decimal \<circ> fst) (ob_bids ob))"
proof -
  let ?st = "run_start False sample_out (sample_runtime FullRefresh)"
  have "rs_exit ?st = None \<and> \<not> rs_events_done ?st" by (simp add: run_start_def Let_def)
  then have step: "(run_step exact_decimal (\<lambda>_. 0) (\<lambda>_. 0) False)\<^sup>*\<^sup>* ?st sample_refresh_run"
    unfolding sample_refresh_run_def Let_def by (intro r_into_rtranclp run_step.event) simp_all
  obtain ev0 where ev0: "ev0 \<in> set (sent (io_out (rs_io sample_refresh_run)))"
    "case ev0 of RBook pair ts ob \<Rightarrow> True | _ \<Rightarrow> False"
    using sample_refresh_emits unfolding list_ex_iff by blast
  then obtain pair ts ob where ev: "RBook pair ts ob \<in> set (sent (io_out (rs_io sample_refresh_run)))"
    by (cases ev0 rule: reconstructed_event.exhaust) auto
  from emitted_books_sorted_uncrossed [OF step sample_configured sample_out_empty ev] ev show ?thesis by blast
qed

definition sample_rest_start :: "xdec run_state" where
  "sample_rest_start = run_start True sample_out (sample_runtime (SeqDelta RangeInclusive RestSnapshot))"

lemma sample_rest_start_reached:
  "(run_step exact_decimal (\<lambda>_. 0) (\<lambda>_. 0) True)\<^sup>*\<^sup>*
     (run_start True sample_out (sample_runtime (SeqDelta RangeInclusive RestSnapshot))) sample_rest_start"
  by (simp add: sample_rest_start_def)

lemma sample_rest_start_book:
  "\<exists>b. hm_get (rt_books (rs_rt sample_rest_start)) sample_pair = Some b
     \<and> pb_phase b = Buffering [] \<and> pb_seeding b \<and> pb_reseeds b = 0"
proof -
  have "map_option (\<lambda>b. (pb_phase b, pb_seeding b, pb_reseeds b)) (hm_get (rt_books (rs_rt sample_rest_start)) sample_pair)
      = Some (Buffering [], True, 0)"
    by code_simp
  then show ?thesis by auto
qed

lemma sample_rest_start_running: "rs_exit sample_rest_start = None"
  by code_simp

theorem run_resources_bounded_witness:
  "io_in_flight (rs_io sample_rest_start) = 1 \<and> io_in_flight (rs_io sample_rest_start) \<le> length (rt_books (rs_rt sample_rest_start))"
proof -
  have "io_in_flight (rs_io sample_rest_start) = 1" by code_simp
  with run_resources_bounded [OF sample_rest_start_reached sample_configured sample_out_empty] show ?thesis by blast
qed

theorem no_book_stranded_witness:
  "\<exists>wire delay. (sample_pair, wire, delay) \<in> set (io_pending (rs_io sample_rest_start))"
proof -
  obtain b where b: "hm_get (rt_books (rs_rt sample_rest_start)) sample_pair = Some b" "pb_phase b = Buffering []"
    using sample_rest_start_book by blast
  have "rt_needs_rest (sample_runtime (SeqDelta RangeInclusive RestSnapshot))" by code_simp
  from no_book_stranded [OF sample_rest_start_reached sample_configured sample_out_empty this sample_rest_start_running b]
  show ?thesis .
qed


text \<open>The sample runtime has buffered a delta when its snapshot arrives.\<close>

definition sample_buffered :: "xdec source_runtime" where
  "sample_buffered = (rs_rt sample_rest_start)\<lparr>rt_books :=
     hm_map_values (\<lambda>b. b\<lparr>pb_phase := Buffering [(sample_delta False)\<lparr>nd_symbol := ''BTC/USDT'', nd_update_id := 7, nd_sequence := 7\<rparr>]\<rparr>)
       (rt_books (rs_rt sample_rest_start))\<rparr>"

definition sample_seeded :: "xdec handled" where
  "sample_seeded = apply_seed exact_decimal (\<lambda>_. 0) (\<lambda>_. 0) 0 True sample_pair (sample_delta True) sample_buffered
     (rs_io sample_rest_start)"

theorem seed_replays_buffer_witness:
  "\<exists>b so'. hm_get (rt_books sample_buffered) sample_pair = Some b \<and> pb_phase b \<noteq> Buffering []
     \<and> so_apply_all exact_decimal (\<lambda>_. 0) (pb_book b)
       [(sample_delta True)\<lparr>nd_symbol := ''BTC/USDT''\<rparr>,
        (sample_delta False)\<lparr>nd_symbol := ''BTC/USDT'', nd_update_id := 7, nd_sequence := 7\<rparr>] = Some so'"
proof -
  have sym: "to_canonical sample_pair = ''BTC/USDT''" by code_simp
  have "map_option pb_phase (hm_get (rt_books sample_buffered) sample_pair)
      = Some (Buffering [(sample_delta False)\<lparr>nd_symbol := ''BTC/USDT'', nd_update_id := 7, nd_sequence := 7\<rparr>])"
    by code_simp
  then obtain b where b: "hm_get (rt_books sample_buffered) sample_pair = Some b"
    "pb_phase b = Buffering [(sample_delta False)\<lparr>nd_symbol := ''BTC/USDT'', nd_update_id := 7, nd_sequence := 7\<rparr>]"
    by auto
  have ok: "fst sample_seeded = Ok False" by code_simp
  have "map_option pb_phase (hm_get (rt_books (fst (snd sample_seeded))) sample_pair) = Some Passthrough" by code_simp
  then obtain b' where b': "hm_get (rt_books (fst (snd sample_seeded))) sample_pair = Some b'" "pb_phase b' = Passthrough"
    by auto
  have run: "apply_seed exact_decimal (\<lambda>_. 0) (\<lambda>_. 0) 0 True sample_pair (sample_delta True) sample_buffered
     (rs_io sample_rest_start) = (Ok False, fst (snd sample_seeded), snd (snd sample_seeded))"
    using ok by (simp add: sample_seeded_def [symmetric] prod_eq_iff)
  from seed_replays_buffer [OF b run b'] b show ?thesis by (simp add: sym sample_delta_def)
qed

end
