(* ===== verification/Event_Sync.thy ===== *)
theory Event_Sync
  imports Orderbook_Core
begin

text \<open>
  The event-driven sampler of \<open>synchronizers/event_sync.rs\<close>: a market snapshot is produced when a
  reference event arrives; trades and liquidations since the last snapshot are moved into it, the
  book, the funding rate and the open interest are carried forward.
\<close>

section \<open>State and operations\<close>

datatype reference_event_type = RefOrderbook | RefTrade | RefLiquidation

record 'd event_synchronizer =
  es_reference_events :: "reference_event_type list"
  es_initialized :: bool
  es_last_orderbook :: "'d orderbook option"
  es_current_trades :: "'d trade list"
  es_current_liquidations :: "'d liquidation list"
  es_current_funding_rates :: "'d funding_rate list"
  es_current_open_interests :: "'d open_interest list"
  es_buffer :: "'d market_snapshot list"
  es_total_captured :: usize

text \<open>\<open>None\<close>: the assertion that a reference event is given fails.\<close>

definition es_new :: "reference_event_type list \<Rightarrow> 'd event_synchronizer option" where
  "es_new reference_events =
     (if reference_events = [] then None
      else Some \<lparr>es_reference_events = reference_events, es_initialized = False, es_last_orderbook = None,
                 es_current_trades = [], es_current_liquidations = [], es_current_funding_rates = [],
                 es_current_open_interests = [], es_buffer = [], es_total_captured = 0\<rparr>)"

definition is_reference :: "reference_event_type \<Rightarrow> 'd event_synchronizer \<Rightarrow> bool" where
  "is_reference ty s \<longleftrightarrow> ty \<in> set (es_reference_events s)"

definition emit_snapshot :: "u64 \<Rightarrow> 'd event_synchronizer \<Rightarrow> 'd event_synchronizer" where
  "emit_snapshot ts s =
     (let snap = \<lparr>ms_ts_us = ts,
                  ms_orderbook = map_option (\<lambda>ob. ob\<lparr>ob_ts_us := ts\<rparr>) (es_last_orderbook s),
                  ms_trades = es_current_trades s, ms_liquidations = es_current_liquidations s,
                  ms_funding_rate = es_current_funding_rates s, ms_open_interest = es_current_open_interests s,
                  ms_funding_settlements = []\<rparr>
      in s\<lparr>es_current_trades := [], es_current_liquidations := [],
           es_buffer := es_buffer s @ [snap], es_total_captured := es_total_captured s + 1\<rparr>)"

definition es_on_orderbook :: "u64 \<Rightarrow> 'd orderbook \<Rightarrow> 'd event_synchronizer \<Rightarrow> usize \<times> 'd event_synchronizer" where
  "es_on_orderbook ts snapshot s =
     (let s = s\<lparr>es_last_orderbook := Some snapshot, es_initialized := True\<rparr> in
      if is_reference RefOrderbook s then (1, emit_snapshot ts s) else (0, s))"

definition es_on_trade :: "'d trade \<Rightarrow> 'd event_synchronizer \<Rightarrow> usize \<times> 'd event_synchronizer" where
  "es_on_trade trade s =
     (let s = s\<lparr>es_current_trades := es_current_trades s @ [trade]\<rparr> in
      if es_initialized s \<and> is_reference RefTrade s then (1, emit_snapshot (source_trade_ts_us trade) s) else (0, s))"

definition es_on_liquidation :: "'d liquidation \<Rightarrow> 'd event_synchronizer \<Rightarrow> usize \<times> 'd event_synchronizer" where
  "es_on_liquidation liq s =
     (let s = s\<lparr>es_current_liquidations := es_current_liquidations s @ [liq]\<rparr> in
      if es_initialized s \<and> is_reference RefLiquidation s then (1, emit_snapshot (liquidation_ts_us liq) s) else (0, s))"

definition es_on_funding :: "'d funding_rate \<Rightarrow> 'd event_synchronizer \<Rightarrow> usize \<times> 'd event_synchronizer" where
  "es_on_funding fr s = (0, s\<lparr>es_current_funding_rates := [fr]\<rparr>)"

definition es_on_open_interest :: "'d open_interest \<Rightarrow> 'd event_synchronizer \<Rightarrow> usize \<times> 'd event_synchronizer" where
  "es_on_open_interest oi s = (0, s\<lparr>es_current_open_interests := [oi]\<rparr>)"

definition es_finalize :: "'d event_synchronizer \<Rightarrow> 'd event_synchronizer" where
  "es_finalize s =
     (if \<not> es_initialized s then s
      else if es_current_trades s \<noteq> [] \<or> es_current_liquidations s \<noteq> []
      then emit_snapshot (case es_last_orderbook s of Some ob \<Rightarrow> ob_ts_us ob | None \<Rightarrow> 0) s
      else s)"

definition es_drain :: "'d event_synchronizer \<Rightarrow> 'd market_snapshot list \<times> 'd event_synchronizer" where
  "es_drain s = (es_buffer s, s\<lparr>es_buffer := []\<rparr>)"

section \<open>Conservation\<close>

datatype 'd sync_input =
    InBook u64 "'d orderbook"
  | InTrade "'d trade"
  | InLiquidation "'d liquidation"
  | InFunding "'d funding_rate"
  | InOpenInterest "'d open_interest"

fun es_feed :: "'d sync_input \<Rightarrow> 'd event_synchronizer \<Rightarrow> 'd event_synchronizer" where
  "es_feed (InBook ts ob) s = snd (es_on_orderbook ts ob s)"
| "es_feed (InTrade t) s = snd (es_on_trade t s)"
| "es_feed (InLiquidation l) s = snd (es_on_liquidation l s)"
| "es_feed (InFunding f) s = snd (es_on_funding f s)"
| "es_feed (InOpenInterest i) s = snd (es_on_open_interest i s)"

definition trades_of :: "'d sync_input list \<Rightarrow> 'd trade list" where
  "trades_of ins = List.map_filter (\<lambda>i. case i of InTrade t \<Rightarrow> Some t | _ \<Rightarrow> None) ins"

definition liquidations_of :: "'d sync_input list \<Rightarrow> 'd liquidation list" where
  "liquidations_of ins = List.map_filter (\<lambda>i. case i of InLiquidation l \<Rightarrow> Some l | _ \<Rightarrow> None) ins"

definition seen_trades :: "'d event_synchronizer \<Rightarrow> 'd trade list" where
  "seen_trades s = concat (map ms_trades (es_buffer s)) @ es_current_trades s"

definition seen_liquidations :: "'d event_synchronizer \<Rightarrow> 'd liquidation list" where
  "seen_liquidations s = concat (map ms_liquidations (es_buffer s)) @ es_current_liquidations s"

lemma emit_snapshot_seen [simp]:
  "seen_trades (emit_snapshot ts s) = seen_trades s"
  "seen_liquidations (emit_snapshot ts s) = seen_liquidations s"
  "es_initialized (emit_snapshot ts s) = es_initialized s"
  "es_total_captured (emit_snapshot ts s) = Suc (es_total_captured s)"
  "length (es_buffer (emit_snapshot ts s)) = Suc (length (es_buffer s))"
  by (simp_all add: emit_snapshot_def seen_trades_def seen_liquidations_def Let_def)

lemmas es_ops = es_on_orderbook_def es_on_trade_def es_on_liquidation_def es_on_funding_def es_on_open_interest_def

lemma es_feed_seen:
  "seen_trades (es_feed i s) = seen_trades s @ trades_of [i]"
  "seen_liquidations (es_feed i s) = seen_liquidations s @ liquidations_of [i]"
  by (cases i; simp add: es_ops Let_def trades_of_def liquidations_of_def List.map_filter_def;
      simp add: seen_trades_def seen_liquidations_def)+

lemma inputs_snoc:
  "trades_of (ins @ [i]) = trades_of ins @ trades_of [i]"
  "liquidations_of (ins @ [i]) = liquidations_of ins @ liquidations_of [i]"
  by (simp_all add: trades_of_def liquidations_of_def List.map_filter_def)

lemma es_run_seen:
  "seen_trades (fold es_feed ins s) = seen_trades s @ trades_of ins"
  "seen_liquidations (fold es_feed ins s) = seen_liquidations s @ liquidations_of ins"
  by (induction ins rule: rev_induct)
    (simp_all add: es_feed_seen inputs_snoc, simp_all add: trades_of_def liquidations_of_def List.map_filter_def)

lemma es_run_initialized:
  "es_initialized (fold es_feed ins s) \<longleftrightarrow> es_initialized s \<or> (\<exists>ts ob. InBook ts ob \<in> set ins)"
proof (induction ins rule: rev_induct)
  case (snoc i ins)
  have "es_initialized (es_feed i s) \<longleftrightarrow> es_initialized s \<or> (\<exists>ts ob. i = InBook ts ob)" for s :: "'a event_synchronizer"
    by (cases i) (simp_all add: es_ops Let_def)
  with snoc show ?case by auto
qed simp

text \<open>
  The event-driven sampler neither loses nor repeats nor reorders events.  Once a book has been
  seen, after the stream is finalized the trades of the snapshots put end to end are exactly the
  trades that were fed, in order, and so are the liquidations.
\<close>

lemma event_sync_conserves_events:
  assumes "es_new refs = Some s0" and "InBook ts ob \<in> set ins"
  shows "concat (map ms_trades (es_buffer (es_finalize (fold es_feed ins s0)))) = trades_of ins
    \<and> concat (map ms_liquidations (es_buffer (es_finalize (fold es_feed ins s0)))) = liquidations_of ins"
proof -
  let ?s = "fold es_feed ins s0"
  have new: "seen_trades s0 = []" "seen_liquidations s0 = []"
    using assms(1) by (auto simp: es_new_def seen_trades_def seen_liquidations_def split: if_splits)
  have init: "es_initialized ?s" using assms(2) by (auto simp: es_run_initialized)
  then have "es_current_trades (es_finalize ?s) = []" "es_current_liquidations (es_finalize ?s) = []"
    "seen_trades (es_finalize ?s) = seen_trades ?s" "seen_liquidations (es_finalize ?s) = seen_liquidations ?s"
    by (auto simp: es_finalize_def) (auto simp: emit_snapshot_def Let_def)
  then show ?thesis
    using es_run_seen [of ins s0] new by (simp add: seen_trades_def seen_liquidations_def)
qed

end
