(* ===== verification/Reconnect.thy ===== *)
theory Reconnect
  imports Exact_Decimal
begin

text \<open>
  Reconnection: \<open>clients/disconnect.rs\<close> (why a connection ended and whether to retry),
  \<open>clients/reconnect.rs\<close> (jittered exponential backoff with a circuit breaker, staleness monitor)
  and \<open>clients/connection_state.rs\<close>, \<open>clients/connection_manager.rs\<close> (the lifecycle record).

  The errors of the third-party \<open>tungstenite\<close> crate are a type parameter with two functions: the
  message of a protocol error and the printed form.  The random draw of the jitter is a function
  \<open>rng\<close> of the upper bound of its range; \<open>jitter_draw\<close> states what \<open>random_range\<close> documents.
  Backoff arithmetic on \<open>f64\<close> is exact here (\<open>rat\<close>); the delays are whole milliseconds times
  0, 1 or 2, which \<open>f64\<close> represents exactly.  A failed assertion and an empty random range are
  the error value \<open>Panic\<close>.
\<close>

section \<open>Disconnect reasons\<close>

type_synonym u16 = "16 word"

datatype disconnect_reason =
    CleanClose
  | GoingAway string
  | ProtocolRejection u16 string
  | TransportError string
  | StaleConnection duration
  | ReceiverDropped
  | HeartbeatFailed string

fun is_retryable :: "disconnect_reason \<Rightarrow> bool" where
  "is_retryable (ProtocolRejection _ _) = False"
| "is_retryable ReceiverDropped = False"
| "is_retryable _ = True"

fun suggested_delay_factor :: "disconnect_reason \<Rightarrow> nat" where
  "suggested_delay_factor CleanClose = 0"
| "suggested_delay_factor (GoingAway _) = 1"
| "suggested_delay_factor (ProtocolRejection _ _) = 0"
| "suggested_delay_factor (TransportError _) = 2"
| "suggested_delay_factor (StaleConnection _) = 1"
| "suggested_delay_factor ReceiverDropped = 0"
| "suggested_delay_factor (HeartbeatFailed _) = 1"

text \<open>\<open>show_dur\<close> is the \<open>Debug\<close> form of a \<open>Duration\<close>.\<close>

fun disconnect_display :: "(duration \<Rightarrow> string) \<Rightarrow> disconnect_reason \<Rightarrow> string" where
  "disconnect_display show_dur CleanClose = ''server closed normally (1000)''"
| "disconnect_display show_dur (GoingAway r) = ''server going away (1001): '' @ r"
| "disconnect_display show_dur (ProtocolRejection c r) = ''protocol rejection ('' @ nat_digits (unat c) @ ''): '' @ r"
| "disconnect_display show_dur (TransportError s) = ''transport error: '' @ s"
| "disconnect_display show_dur (StaleConnection d) = ''stale connection (no data for '' @ show_dur d @ '')''"
| "disconnect_display show_dur ReceiverDropped = ''receiver dropped (intentional shutdown)''"
| "disconnect_display show_dur (HeartbeatFailed s) = ''heartbeat write failed: '' @ s"

definition contains :: "string \<Rightarrow> string \<Rightarrow> bool" where
  "contains s pat = list_ex (prefix pat) (suffixes s)"

definition is_reset_text :: "string \<Rightarrow> bool" where
  "is_reset_text s \<longleftrightarrow> contains s ''reset without closing'' \<or> contains s ''Connection reset''"

record close_frame =
  cf_code :: u16
  cf_reason :: string

definition classify_close_frame :: "close_frame option \<Rightarrow> disconnect_reason" where
  "classify_close_frame frame =
     (case frame of
        None \<Rightarrow> TransportError ''server closed without a close frame''
      | Some f \<Rightarrow>
          let code = cf_code f; reason = cf_reason f in
          if code = 1000 then CleanClose
          else if code = 1001 then GoingAway reason
          else if code = 1002 then
            (if is_reset_text reason then TransportError (''server closed with code 1002: '' @ reason)
             else ProtocolRejection code reason)
          else if code = 1003 \<or> code = 1008 then ProtocolRejection code reason
          else TransportError (''server closed with code '' @ nat_digits (unat code) @ '': '' @ reason))"

text \<open>The two functions of a \<open>tungstenite::Error\<close> the code uses.\<close>

record 'e tungstenite_ops =
  protocol_msg :: "'e \<Rightarrow> string option"
  error_string :: "'e \<Rightarrow> string"

definition classify_tungstenite_error :: "'e tungstenite_ops \<Rightarrow> 'e \<Rightarrow> disconnect_reason" where
  "classify_tungstenite_error W e =
     (case protocol_msg W e of
        Some msg \<Rightarrow>
          if is_reset_text msg then TransportError (error_string W e)
          else ProtocolRejection 1002 msg
      | None \<Rightarrow> TransportError (error_string W e))"

datatype 'e wss_exit_reason =
    WStreamEnded
  | WReceiverDropped
  | WServerClose "close_frame option"
  | WTransport 'e
  | WHeartbeatWriteFailed 'e
  | WConnectionFailed string
  | WSubscriptionRejected string
  | WStale duration
  | WPlannedRotation duration

fun disconnect_of_exit :: "'e tungstenite_ops \<Rightarrow> 'e wss_exit_reason \<Rightarrow> disconnect_reason" where
  "disconnect_of_exit W WStreamEnded = classify_close_frame None"
| "disconnect_of_exit W WReceiverDropped = ReceiverDropped"
| "disconnect_of_exit W (WServerClose frame) = classify_close_frame frame"
| "disconnect_of_exit W (WTransport e) = classify_tungstenite_error W e"
| "disconnect_of_exit W (WHeartbeatWriteFailed e) = HeartbeatFailed (error_string W e)"
| "disconnect_of_exit W (WConnectionFailed msg) = TransportError msg"
| "disconnect_of_exit W (WSubscriptionRejected reason) = ProtocolRejection 0 reason"
| "disconnect_of_exit W (WStale silence) = StaleConnection silence"
| "disconnect_of_exit W (WPlannedRotation _) = CleanClose"

section \<open>The reconnect policy\<close>

datatype circuit_state = CircuitClosed | CircuitOpened | CircuitHalfOpen

datatype reconnect_action =
    RetryAfter duration
  | RetryImmediately
  | GiveUp string
  | CircuitOpen instant

datatype panic = Panic

record reconnect_policy =
  rp_initial_delay :: duration
  rp_max_delay :: duration
  rp_max_attempts :: "u32 option"
  rp_jitter_factor :: rat
  rp_current_delay :: duration
  rp_consecutive_failures :: u32
  rp_circuit_state :: circuit_state
  rp_cooldown_until :: "instant option"
  rp_cooldown_duration :: duration
  rp_data_ever_received :: bool

definition policy_build :: "duration \<Rightarrow> duration \<Rightarrow> u32 option \<Rightarrow> rat \<Rightarrow> (reconnect_policy, panic) result" where
  "policy_build initial_delay max_delay max_attempts jitter =
     (if \<not> initial_delay \<le> max_delay then Err Panic
      else Ok \<lparr>rp_initial_delay = initial_delay, rp_max_delay = max_delay, rp_max_attempts = max_attempts,
               rp_jitter_factor = max jitter 0, rp_current_delay = initial_delay,
               rp_consecutive_failures = 0, rp_circuit_state = CircuitClosed, rp_cooldown_until = None,
               rp_cooldown_duration = max_delay * 4, rp_data_ever_received = False\<rparr>)"

definition as_millis :: "duration \<Rightarrow> nat" where
  "as_millis d = d div 1000000"

definition from_millis :: "nat \<Rightarrow> duration" where
  "from_millis n = n * 1000000"

fun post_data_protocol_close :: "disconnect_reason \<Rightarrow> reconnect_policy \<Rightarrow> bool" where
  "post_data_protocol_close (ProtocolRejection code _) p \<longleftrightarrow> rp_data_ever_received p \<and> code \<noteq> 0"
| "post_data_protocol_close _ p \<longleftrightarrow> False"

text \<open>The tail of \<open>next_action\<close> for a closed circuit and a delay factor that is not zero.\<close>

definition backoff ::
  "(rat \<Rightarrow> rat) \<Rightarrow> nat \<Rightarrow> reconnect_policy \<Rightarrow> (reconnect_action, panic) result \<times> reconnect_policy"
where
  "backoff rng factor p =
     (let base_ms = of_nat (as_millis (rp_current_delay p) * factor) :: rat;
          width = base_ms * rp_jitter_factor p
      in if rp_jitter_factor p > 0 \<and> \<not> width > 0 then (Err Panic, p)
         else
           let jitter_ms = (if rp_jitter_factor p > 0 then rng width else 0);
               delay = from_millis (nat \<lfloor>base_ms + jitter_ms\<rfloor>)
           in (Ok (RetryAfter delay), p\<lparr>rp_current_delay := min (rp_current_delay p * 2) (rp_max_delay p)\<rparr>))"

definition open_circuit :: "instant \<Rightarrow> duration \<Rightarrow> reconnect_policy \<Rightarrow> (reconnect_action, panic) result \<times> reconnect_policy" where
  "open_circuit now cooldown p =
     (Ok (CircuitOpen (now + cooldown)),
      p\<lparr>rp_cooldown_duration := cooldown, rp_cooldown_until := Some (now + cooldown),
        rp_circuit_state := CircuitOpened\<rparr>)"

definition next_action ::
  "(rat \<Rightarrow> rat) \<Rightarrow> (duration \<Rightarrow> string) \<Rightarrow> instant \<Rightarrow> disconnect_reason \<Rightarrow> reconnect_policy
     \<Rightarrow> (reconnect_action, panic) result \<times> reconnect_policy"
where
  "next_action rng show_dur now reason p =
     (if \<not> is_retryable reason \<and> \<not> post_data_protocol_close reason p
      then (Ok (GiveUp (disconnect_display show_dur reason)), p)
      else case rp_circuit_state p of
        CircuitOpened \<Rightarrow>
          (case rp_cooldown_until p of
             Some until \<Rightarrow>
               if now < until then (Ok (CircuitOpen until), p)
               else (Ok (RetryAfter (rp_initial_delay p)), p\<lparr>rp_circuit_state := CircuitHalfOpen\<rparr>)
           | None \<Rightarrow> (Ok (RetryAfter (rp_initial_delay p)), p\<lparr>rp_circuit_state := CircuitHalfOpen\<rparr>))
      | CircuitHalfOpen \<Rightarrow>
          open_circuit now (min (rp_cooldown_duration p * 2) (rp_max_delay p * 8)) p
      | CircuitClosed \<Rightarrow>
          (let factor = suggested_delay_factor reason in
           if factor = 0 then (Ok RetryImmediately, p)
           else
             let p = p\<lparr>rp_consecutive_failures := rp_consecutive_failures p + 1\<rparr> in
             case rp_max_attempts p of
               Some m \<Rightarrow>
                 if rp_consecutive_failures p \<ge> m then open_circuit now (rp_max_delay p * 4) p
                 else backoff rng factor p
             | None \<Rightarrow> backoff rng factor p))"

definition policy_on_connected :: "reconnect_policy \<Rightarrow> reconnect_policy" where
  "policy_on_connected p =
     p\<lparr>rp_consecutive_failures := 0, rp_current_delay := rp_initial_delay p, rp_cooldown_until := None,
       rp_cooldown_duration := rp_max_delay p * 4, rp_circuit_state := CircuitClosed\<rparr>"

definition policy_on_message_received :: "reconnect_policy \<Rightarrow> reconnect_policy" where
  "policy_on_message_received p = p\<lparr>rp_current_delay := rp_initial_delay p, rp_data_ever_received := True\<rparr>"

section \<open>Staleness\<close>

record health_monitor =
  hl_timeout :: duration
  hl_last_activity :: instant

definition health_new :: "instant \<Rightarrow> duration \<Rightarrow> health_monitor" where
  "health_new now timeout = \<lparr>hl_timeout = timeout, hl_last_activity = now\<rparr>"

definition record_activity :: "instant \<Rightarrow> health_monitor \<Rightarrow> health_monitor" where
  "record_activity now h = h\<lparr>hl_last_activity := now\<rparr>"

definition health_deadline :: "health_monitor \<Rightarrow> instant" where
  "health_deadline h = hl_last_activity h + hl_timeout h"

definition is_stale :: "instant \<Rightarrow> health_monitor \<Rightarrow> bool" where
  "is_stale now h \<longleftrightarrow> now > health_deadline h"

section \<open>The connection manager\<close>

datatype connection_state =
  Disconnected | Connecting | Authenticating | CSubscribing | Streaming | Paused | CReconnecting u32

record state_transition =
  st_at :: instant
  st_from :: connection_state
  st_to :: connection_state
  st_reason :: string
  st_duration_in_prev :: duration

record connection_manager =
  cm_state :: connection_state
  cm_state_entered_at :: instant
  cm_policy :: reconnect_policy
  cm_transitions :: "state_transition list"
  cm_label :: string

definition cm_new :: "instant \<Rightarrow> string \<Rightarrow> duration \<Rightarrow> duration \<Rightarrow> u32 option \<Rightarrow> rat \<Rightarrow> (connection_manager, panic) result" where
  "cm_new now label initial_delay max_delay max_attempts jitter =
     (case policy_build initial_delay max_delay max_attempts jitter of
        Err e \<Rightarrow> Err e
      | Ok policy \<Rightarrow> Ok \<lparr>cm_state = Disconnected, cm_state_entered_at = now, cm_policy = policy,
                        cm_transitions = [], cm_label = label\<rparr>)"

definition cm_transition :: "instant \<Rightarrow> connection_state \<Rightarrow> string \<Rightarrow> connection_manager \<Rightarrow> connection_manager" where
  "cm_transition now new_state reason m =
     m\<lparr>cm_transitions := cm_transitions m @
          [\<lparr>st_at = now, st_from = cm_state m, st_to = new_state, st_reason = reason,
            st_duration_in_prev = now - cm_state_entered_at m\<rparr>],
       cm_state := new_state, cm_state_entered_at := now\<rparr>"

definition cm_on_connected :: "connection_manager \<Rightarrow> connection_manager" where
  "cm_on_connected m = m\<lparr>cm_policy := policy_on_connected (cm_policy m)\<rparr>"

definition pause :: "instant \<Rightarrow> connection_manager \<Rightarrow> connection_manager" where
  "pause now m = (if cm_state m \<noteq> Paused then cm_transition now Paused ''user requested pause'' m else m)"

definition resume :: "instant \<Rightarrow> connection_manager \<Rightarrow> connection_manager" where
  "resume now m = (if cm_state m = Paused then cm_transition now Streaming ''user requested resume'' m else m)"

definition on_disconnect ::
  "(rat \<Rightarrow> rat) \<Rightarrow> (duration \<Rightarrow> string) \<Rightarrow> instant \<Rightarrow> instant \<Rightarrow> disconnect_reason \<Rightarrow> connection_manager
     \<Rightarrow> (reconnect_action, panic) result \<times> connection_manager"
where
  "on_disconnect rng show_dur now now' reason m =
     (let m = cm_transition now (CReconnecting (rp_consecutive_failures (cm_policy m) + 1))
                (disconnect_display show_dur reason) m;
          (act, p) = next_action rng show_dur now' reason (cm_policy m)
      in (act, m\<lparr>cm_policy := p\<rparr>))"

section \<open>Bounds on the delays\<close>

text \<open>What \<open>random_range(0.0..x)\<close> documents, for a range that is not empty.\<close>

definition jitter_draw :: "(rat \<Rightarrow> rat) \<Rightarrow> bool" where
  "jitter_draw rng \<longleftrightarrow> (\<forall>x > 0. 0 \<le> rng x \<and> rng x < x)"

definition policy_wf :: "reconnect_policy \<Rightarrow> bool" where
  "policy_wf p \<longleftrightarrow>
     rp_initial_delay p \<le> rp_current_delay p \<and> rp_current_delay p \<le> rp_max_delay p
   \<and> rp_cooldown_duration p \<le> rp_max_delay p * 8 \<and> 0 \<le> rp_jitter_factor p
   \<and> (rp_circuit_state p = CircuitOpened \<longrightarrow> rp_cooldown_until p \<noteq> None)"

inductive policy_step :: "(rat \<Rightarrow> rat) \<Rightarrow> (duration \<Rightarrow> string) \<Rightarrow> reconnect_policy \<Rightarrow> reconnect_policy \<Rightarrow> bool"
  for rng show_dur
where
  disconnect: "policy_step rng show_dur p (snd (next_action rng show_dur now reason p))"
| connected: "policy_step rng show_dur p (policy_on_connected p)"
| message: "policy_step rng show_dur p (policy_on_message_received p)"

lemma backoff_wf: "policy_wf p \<Longrightarrow> policy_wf (snd (backoff rng factor p))"
  by (auto simp: policy_wf_def backoff_def Let_def)

lemma open_circuit_wf: "policy_wf p \<Longrightarrow> cooldown \<le> rp_max_delay p * 8 \<Longrightarrow> policy_wf (snd (open_circuit now cooldown p))"
  by (auto simp: policy_wf_def open_circuit_def)

lemma counted_wf: "policy_wf p \<Longrightarrow> policy_wf (p\<lparr>rp_consecutive_failures := n\<rparr>)"
  by (simp add: policy_wf_def)

lemma half_open_wf: "policy_wf p \<Longrightarrow> policy_wf (p\<lparr>rp_circuit_state := CircuitHalfOpen\<rparr>)"
  by (simp add: policy_wf_def)

lemma next_action_wf: "policy_wf p \<Longrightarrow> policy_wf (snd (next_action rng show_dur now reason p))"
  by (auto simp: next_action_def Let_def intro!: open_circuit_wf backoff_wf counted_wf half_open_wf
      split: circuit_state.splits option.splits)

lemma policy_step_wf: "policy_step rng show_dur p p' \<Longrightarrow> policy_wf p \<Longrightarrow> policy_wf p'"
proof (induction rule: policy_step.induct)
  case (disconnect p now reason)
  then show ?case by (rule next_action_wf)
qed (auto simp: policy_on_connected_def policy_on_message_received_def policy_wf_def)

lemma policy_build_wf: "policy_build initial_delay max_delay max_attempts jitter = Ok p \<Longrightarrow> policy_wf p"
  by (auto simp: policy_build_def policy_wf_def split: if_splits)

interpretation policy: step_invariant "policy_step rng show_dur" policy_wf for rng show_dur
  by unfold_locales (rule policy_step_wf)

lemma policy_run_wf:
  assumes "(policy_step rng show_dur)\<^sup>*\<^sup>* p0 p" and "policy_wf p0"
  shows "policy_wf p"
  using policy.reach_keeps [OF assms] .

lemma delay_factor_le: "suggested_delay_factor reason \<le> 2"
  by (cases reason) auto

lemma next_action_retry_cases:
  assumes "next_action rng show_dur now reason p = (Ok (RetryAfter d), p')"
  obtains (probe) "rp_circuit_state p = CircuitOpened" "d = rp_initial_delay p"
  | (backed_off) q where "rp_circuit_state p = CircuitClosed" "q = p\<lparr>rp_consecutive_failures := rp_consecutive_failures p + 1\<rparr>"
      "backoff rng (suggested_delay_factor reason) q = (Ok (RetryAfter d), p')"
proof (cases "rp_circuit_state p")
  case CircuitClosed
  with assms show thesis
    by (intro backed_off) (auto simp: next_action_def Let_def open_circuit_def split: if_splits option.splits)
next
  case CircuitOpened
  with assms show thesis
    by (intro probe) (auto simp: next_action_def split: if_splits option.splits)
next
  case CircuitHalfOpen
  with assms show thesis by (auto simp: next_action_def open_circuit_def split: if_splits)
qed

lemma backoff_delay:
  assumes "jitter_draw rng" and "0 \<le> rp_jitter_factor q" and "backoff rng factor q = (Ok (RetryAfter d), p')"
  shows "as_millis (rp_current_delay q) * factor * 1000000 \<le> d"
    and "rat_of_nat d \<le> of_nat (rp_current_delay q * factor) * (1 + rp_jitter_factor q)"
proof -
  let ?base = "of_nat (as_millis (rp_current_delay q) * factor) :: rat"
  define jit where "jit = (if rp_jitter_factor q > 0 then rng (?base * rp_jitter_factor q) else 0)"
  have d: "d = nat \<lfloor>?base + jit\<rfloor> * 1000000"
    using assms(3) by (auto simp: backoff_def Let_def jit_def from_millis_def split: if_splits)
  have jit: "0 \<le> jit" "jit \<le> ?base * rp_jitter_factor q"
    using assms(1,2,3) unfolding jit_def jitter_draw_def
    by (auto simp: backoff_def Let_def less_imp_le not_less split: if_splits)
  have fl: "as_millis (rp_current_delay q) * factor \<le> nat \<lfloor>?base + jit\<rfloor>"
  proof -
    have "int (as_millis (rp_current_delay q) * factor) \<le> \<lfloor>?base + jit\<rfloor>"
      unfolding le_floor_iff using jit(1) by simp
    then show ?thesis by linarith
  qed
  then show "as_millis (rp_current_delay q) * factor * 1000000 \<le> d" by (simp add: d)
  have "0 \<le> \<lfloor>?base + jit\<rfloor>" using jit(1) by simp
  then have "of_nat (nat \<lfloor>?base + jit\<rfloor>) = rat_of_int \<lfloor>?base + jit\<rfloor>" by simp
  also have "\<dots> \<le> ?base + jit" by (rule of_int_floor_le)
  also have "\<dots> \<le> ?base * (1 + rp_jitter_factor q)" using jit(2) by (simp add: distrib_left)
  finally have "rat_of_nat d \<le> ?base * (1 + rp_jitter_factor q) * 1000000" by (simp add: d)
  also have "\<dots> = of_nat (as_millis (rp_current_delay q) * 1000000 * factor) * (1 + rp_jitter_factor q)" by simp
  also have "\<dots> \<le> of_nat (rp_current_delay q * factor) * (1 + rp_jitter_factor q)"
  proof (rule mult_right_mono)
    have "as_millis (rp_current_delay q) * 1000000 \<le> rp_current_delay q" by (simp add: as_millis_def)
    then show "rat_of_nat (as_millis (rp_current_delay q) * 1000000 * factor) \<le> of_nat (rp_current_delay q * factor)"
      by (simp only: of_nat_le_iff mult_le_mono1)
  qed (use assms(2) in simp)
  finally show "rat_of_nat d \<le> of_nat (rp_current_delay q * factor) * (1 + rp_jitter_factor q)" .
qed

section \<open>Properties of the policy\<close>


text \<open>
  C35: the circuit breaker holds.  The failure that reaches the attempt limit opens the circuit for
  four maximal delays, and until then every disconnect that could be retried is answered with the
  same deadline and changes nothing, so no connection attempt is released early.
\<close>

theorem breaker_opens_and_holds:
  assumes "rp_circuit_state p = CircuitClosed" and "rp_max_attempts p = Some m"
    and "rp_consecutive_failures p + 1 \<ge> m" and "is_retryable reason" and "suggested_delay_factor reason \<noteq> 0"
  shows "\<exists>p'. next_action rng show_dur now reason p = (Ok (CircuitOpen (now + 4 * rp_max_delay p)), p')
    \<and> (\<forall>now' reason'. now' < now + 4 * rp_max_delay p \<longrightarrow> is_retryable reason' \<longrightarrow>
         next_action rng show_dur now' reason' p' = (Ok (CircuitOpen (now + 4 * rp_max_delay p)), p'))"
  using assms by (simp add: next_action_def Let_def open_circuit_def mult.commute)

text \<open>
  A connection that has delivered data and is closed with a protocol code is retried at once,
  for ever: the policy answers without delay, counts no failure and is left as it was, so neither
  the backoff nor the breaker ever engages.
\<close>

lemma post_data_close_retried_without_backoff:
  assumes "rp_circuit_state p = CircuitClosed" and "rp_data_ever_received p" and "code \<noteq> 0"
  shows "next_action rng show_dur now (ProtocolRejection code msg) p = (Ok RetryImmediately, p)"
  using assms by (simp add: next_action_def)

section \<open>The transition log\<close>

definition log_chain :: "connection_state \<Rightarrow> state_transition list \<Rightarrow> connection_manager \<Rightarrow> bool" where
  "log_chain s0 ts m \<longleftrightarrow>
     cm_state m = (if ts = [] then s0 else st_to (last ts))
   \<and> map st_from ts = butlast (s0 # map st_to ts)"

inductive manager_step :: "(rat \<Rightarrow> rat) \<Rightarrow> (duration \<Rightarrow> string) \<Rightarrow> connection_manager \<Rightarrow> connection_manager \<Rightarrow> bool"
  for rng show_dur
where
  m_transition: "manager_step rng show_dur m (cm_transition now new_state reason m)"
| m_connected: "manager_step rng show_dur m (cm_on_connected m)"
| m_pause: "manager_step rng show_dur m (pause now m)"
| m_resume: "manager_step rng show_dur m (resume now m)"
| m_disconnect: "manager_step rng show_dur m (snd (on_disconnect rng show_dur now now' reason m))"

lemma log_chain_transition:
  "log_chain s0 (cm_transitions m) m \<Longrightarrow> log_chain s0 (cm_transitions (cm_transition now s reason m)) (cm_transition now s reason m)"
  by (cases "cm_transitions m" rule: rev_cases) (auto simp: log_chain_def cm_transition_def butlast_append)

lemma log_chain_policy: "log_chain s0 ts (m\<lparr>cm_policy := p\<rparr>) = log_chain s0 ts m"
  by (simp add: log_chain_def)

lemma manager_step_chain:
  "manager_step rng show_dur m m' \<Longrightarrow> log_chain s0 (cm_transitions m) m \<Longrightarrow> log_chain s0 (cm_transitions m') m'"
  by (induction rule: manager_step.induct)
    (auto simp: cm_on_connected_def pause_def resume_def on_disconnect_def Let_def log_chain_policy
      intro: log_chain_transition split: prod.splits)

text \<open>
  The recorded transitions form an unbroken path.  Whatever the worker does, each transition
  starts in the state the one before it ended in, the first starts disconnected, and the manager
  is in the state the last one ended in.
\<close>

lemma transition_log_is_a_path:
  assumes "cm_new now label initial_delay max_delay max_attempts jitter = Ok m0"
    and "(manager_step rng show_dur)\<^sup>*\<^sup>* m0 m"
  shows "map st_from (cm_transitions m) = butlast (Disconnected # map st_to (cm_transitions m))
    \<and> cm_state m = last (Disconnected # map st_to (cm_transitions m))"
proof -
  have "log_chain Disconnected (cm_transitions m) m"
    using assms(2)
  proof (induction rule: rtranclp_induct)
    case base
    show ?case using assms(1) by (auto simp: cm_new_def log_chain_def split: result.splits)
  qed (rule manager_step_chain)
  then show ?thesis by (simp add: log_chain_def last_map)
qed

section \<open>Concrete runs\<close>

definition sample_policy :: reconnect_policy where
  "sample_policy =
     \<lparr>rp_initial_delay = from_millis 100, rp_max_delay = from_millis 10000, rp_max_attempts = Some 1,
      rp_jitter_factor = 1 / 2, rp_current_delay = from_millis 100, rp_consecutive_failures = 0,
      rp_circuit_state = CircuitClosed, rp_cooldown_until = None, rp_cooldown_duration = from_millis 40000,
      rp_data_ever_received = True\<rparr>"


theorem breaker_opens_and_holds_witness:
  "\<exists>p'. next_action (\<lambda>x. 0) (\<lambda>_. []) 5 (GoingAway []) sample_policy = (Ok (CircuitOpen (5 + 4 * rp_max_delay sample_policy)), p')"
  using breaker_opens_and_holds [of sample_policy 1 "GoingAway []" "\<lambda>x. 0" "\<lambda>_. []" 5]
  by (auto simp: sample_policy_def)

end
