(* ===== verification/Transport.thy ===== *)
theory Transport
  imports Runtime Reconnect
begin

text \<open>
  The venue connection: the protocol seam (\<open>framework/protocol.rs\<close>) and the generic socket pump
  (\<open>framework/transport.rs\<close>).  The pump is generic over the venue's hooks and decoder; both are
  records of functions here.  The gzip decoder (crate \<open>flate2\<close>), the URL parser, the socket and the
  clock are arguments.  The \<open>select!\<close> loop, the heartbeat task, the RTT ping task and the task that
  sends the held-back frames run concurrently: each arm and each task iteration is one rule of
  \<open>transport_step\<close>.
\<close>

section \<open>Frames\<close>

type_synonym byte = "8 word"

datatype message =
    MText string | MBinary "byte list" | MPing "byte list" | MPong "byte list"
  | MClose "close_frame option" | MFrame

datatype heartbeat =
    HbNone | HbWsPong duration | HbText duration "nat \<Rightarrow> string" | HbResubscribe duration message

datatype control_action = Ignore | Reply message

datatype ack_outcome = AckAccepted | AckRejected "int option" string | NotAck

datatype frame_codec = PlainText | Gzip

datatype frame_payload = PText string | PBinary "byte list"

definition MAX_INFLATED_FRAME_BYTES :: nat where
  "MAX_INFLATED_FRAME_BYTES = 64 * 2 ^ 20"

text \<open>
  \<open>String::from_utf8\<close>: the well-formed byte sequences of the Unicode standard.  A string of the
  model is its sequence of bytes.
\<close>

definition cont_byte :: "byte \<Rightarrow> bool" where
  "cont_byte b \<longleftrightarrow> 0x80 \<le> b \<and> b \<le> 0xBF"

definition utf8_second :: "byte \<Rightarrow> byte \<Rightarrow> bool" where
  "utf8_second a b \<longleftrightarrow>
     (if a = 0xE0 then 0xA0 \<le> b \<and> b \<le> 0xBF
      else if a = 0xED then 0x80 \<le> b \<and> b \<le> 0x9F
      else if a = 0xF0 then 0x90 \<le> b \<and> b \<le> 0xBF
      else if a = 0xF4 then 0x80 \<le> b \<and> b \<le> 0x8F
      else cont_byte b)"

fun utf8_valid :: "byte list \<Rightarrow> bool" where
  "utf8_valid [] \<longleftrightarrow> True"
| "utf8_valid (a # bs) \<longleftrightarrow>
     (if a \<le> 0x7F then utf8_valid bs
      else if 0xC2 \<le> a \<and> a \<le> 0xDF then
        (case bs of b # r \<Rightarrow> cont_byte b \<and> utf8_valid r | _ \<Rightarrow> False)
      else if 0xE0 \<le> a \<and> a \<le> 0xEF then
        (case bs of b # c # r \<Rightarrow> utf8_second a b \<and> cont_byte c \<and> utf8_valid r | _ \<Rightarrow> False)
      else if 0xF0 \<le> a \<and> a \<le> 0xF4 then
        (case bs of b # c # d # r \<Rightarrow> utf8_second a b \<and> cont_byte c \<and> cont_byte d \<and> utf8_valid r | _ \<Rightarrow> False)
      else False)"

definition from_utf8 :: "byte list \<Rightarrow> (string, string) result" where
  "from_utf8 bs = (if utf8_valid bs then Ok (map (\<lambda>b. char_of (unat b)) bs) else Err ''invalid utf-8'')"

text \<open>
  \<open>gz limit bytes\<close> is the gzip decoder read to its end through \<open>take(limit)\<close>: the first
  \<open>limit\<close> bytes of the inflated stream, or an error.
\<close>

definition gunzip :: "(nat \<Rightarrow> byte list \<Rightarrow> (byte list, string) result) \<Rightarrow> byte list \<Rightarrow> (string, string) result" where
  "gunzip gz bytes =
     result_bind (gz (MAX_INFLATED_FRAME_BYTES + 1) bytes) (\<lambda>out.
       if length out > MAX_INFLATED_FRAME_BYTES then Err ''gzip frame inflates past the cap''
       else from_utf8 out)"

fun inflate ::
  "(nat \<Rightarrow> byte list \<Rightarrow> (byte list, string) result) \<Rightarrow> frame_codec \<Rightarrow> frame_payload \<Rightarrow> (string, string) result"
where
  "inflate gz PlainText (PText t) = Ok t"
| "inflate gz PlainText (PBinary b) = from_utf8 b"
| "inflate gz Gzip (PBinary b) = gunzip gz b"
| "inflate gz Gzip (PText t) = Ok t"

section \<open>The venue's hooks\<close>

record prepared =
  pr_endpoint_override :: "string option"
  pr_heartbeat_override :: "heartbeat option"
  pr_extra_frames :: "message list"
  pr_extra_frames_delay :: "duration option"

definition prepared_default :: prepared where
  "prepared_default =
     \<lparr>pr_endpoint_override = None, pr_heartbeat_override = None, pr_extra_frames = [], pr_extra_frames_delay = None\<rparr>"

record protocol_hooks =
  ph_endpoint :: string
  ph_subscribe_frames :: "string list \<Rightarrow> declared_datatype list \<Rightarrow> message list"
  ph_heartbeat :: heartbeat
  ph_on_inbound_control :: "string \<Rightarrow> control_action"
  ph_classify_ack :: "string \<Rightarrow> ack_outcome"
  ph_subscribe_ack_deadline :: "duration option"
  ph_unsubscribe_frames :: "string list \<Rightarrow> declared_datatype list \<Rightarrow> message list"
  ph_connection_lifetime :: "duration option"
  ph_stale_after :: duration
  ph_frame_codec :: frame_codec
  ph_prepare :: "(prepared, string) result"

definition DEFAULT_STALE_AFTER :: duration where
  "DEFAULT_STALE_AFTER = 60 * 10 ^ 9"

text \<open>The default methods of the trait, for a venue that only names its endpoint and its frames.\<close>

definition default_hooks :: "string \<Rightarrow> (string list \<Rightarrow> declared_datatype list \<Rightarrow> message list) \<Rightarrow> protocol_hooks" where
  "default_hooks endpoint frames =
     \<lparr>ph_endpoint = endpoint, ph_subscribe_frames = frames, ph_heartbeat = HbNone,
      ph_on_inbound_control = (\<lambda>_. Ignore), ph_classify_ack = (\<lambda>_. NotAck), ph_subscribe_ack_deadline = None,
      ph_unsubscribe_frames = (\<lambda>_ _. []), ph_connection_lifetime = None, ph_stale_after = DEFAULT_STALE_AFTER,
      ph_frame_codec = PlainText, ph_prepare = Ok prepared_default\<rparr>"

section \<open>Deadlines, acks and round-trip times\<close>

definition RTT_PING_SECS :: nat where
  "RTT_PING_SECS = 10"

definition CONNECT_TIMEOUT :: duration where
  "CONNECT_TIMEOUT = 15 * 10 ^ 9"

definition CLOSE_GRACE :: duration where
  "CLOSE_GRACE = 500 * 10 ^ 6"

definition ROTATION_HEADROOM_MULTIPLE :: nat where
  "ROTATION_HEADROOM_MULTIPLE = 2"

definition rotation_headroom :: duration where
  "rotation_headroom = (CONNECT_TIMEOUT + CLOSE_GRACE) * ROTATION_HEADROOM_MULTIPLE"

definition rotation_deadline :: "instant \<Rightarrow> duration option \<Rightarrow> instant option" where
  "rotation_deadline start lifetime = map_option (\<lambda>l. start + max (l - rotation_headroom) 0) lifetime"

definition ack_rejection_exit :: "bool \<Rightarrow> string \<Rightarrow> 'e wss_exit_reason" where
  "ack_rejection_exit streamed reason =
     (if streamed then WConnectionFailed (''stream error after data: '' @ reason)
      else WSubscriptionRejected reason)"

definition u64_to_le_bytes :: "u64 \<Rightarrow> byte list" where
  "u64_to_le_bytes w = map (\<lambda>i. of_nat (unat w div 256 ^ i)) [0..<8]"

fun le_value :: "byte list \<Rightarrow> nat" where
  "le_value [] = 0"
| "le_value (b # bs) = unat b + 256 * le_value bs"

definition decode_ping_send_us :: "byte list \<Rightarrow> u64 option" where
  "decode_ping_send_us payload = (if length payload = 8 then Some (of_nat (le_value payload)) else None)"

definition rtt_ewma_us :: "u64 \<Rightarrow> u64 \<Rightarrow> u64" where
  "rtt_ewma_us prev_us sample_us = (if prev_us = 0 then sample_us else (sample_us + 4 * prev_us) div 5)"

fun hb_every :: "heartbeat \<Rightarrow> duration option" where
  "hb_every HbNone = None"
| "hb_every (HbWsPong every) = Some every"
| "hb_every (HbText every _) = Some every"
| "hb_every (HbResubscribe every _) = Some every"

fun hb_frame :: "heartbeat \<Rightarrow> nat \<Rightarrow> message option" where
  "hb_frame HbNone tick = None"
| "hb_frame (HbWsPong _) tick = Some (MPong [])"
| "hb_frame (HbText _ payload) tick = Some (MText (payload tick))"
| "hb_frame (HbResubscribe _ frame) tick = Some frame"

section \<open>The state of one connection\<close>

text \<open>
  \<open>ws_exit\<close> is the reason the pump returned with, \<open>ws_out\<close> the sending half of the ingest buffer,
  \<open>ws_written\<close> what was put on the socket, by the pump and its tasks, in order.
\<close>

record ('e, 'ev) wss_state =
  ws_exit :: "'e wss_exit_reason option"
  ws_streamed :: bool
  ws_acked :: nat
  ws_expected_acks :: nat
  ws_ack_deadline :: "instant option"
  ws_rotate_at :: "instant option"
  ws_health :: health_monitor
  ws_rtt :: u64
  ws_metrics :: source_metrics
  ws_out :: "('ev \<times> u64) sender"
  ws_written :: "message list"
  ws_heartbeat :: heartbeat
  ws_hb_ticks :: nat
  ws_hb_running :: bool
  ws_hb_dead :: bool
  ws_pinging :: bool
  ws_held_extras :: "message list"

definition wss_update_metrics :: "(source_metrics \<Rightarrow> source_metrics) \<Rightarrow> ('e, 'ev) wss_state \<Rightarrow> ('e, 'ev) wss_state" where
  "wss_update_metrics f st = st\<lparr>ws_metrics := f (ws_metrics st)\<rparr>"

definition wss_leave :: "'e wss_exit_reason \<Rightarrow> ('e, 'ev) wss_state \<Rightarrow> ('e, 'ev) wss_state" where
  "wss_leave r st = st\<lparr>ws_exit := Some r\<rparr>"

text \<open>Writing a frame, with the error of the socket if it fails.\<close>

definition wss_write :: "message \<Rightarrow> 'e option \<Rightarrow> ('e, 'ev) wss_state \<Rightarrow> ('e option) \<times> ('e, 'ev) wss_state" where
  "wss_write frame werr st =
     (case werr of None \<Rightarrow> (None, st\<lparr>ws_written := ws_written st @ [frame]\<rparr>) | Some e \<Rightarrow> (Some e, st))"

section \<open>Opening\<close>

datatype 'e connect_outcome = Connected | ConnectError 'e | ConnectTimedOut

text \<open>The frames in order until the first write that fails; \<open>werr k\<close> is the error of the \<open>k\<close>-th write.\<close>

fun send_frames ::
  "(nat \<Rightarrow> 'e option) \<Rightarrow> nat \<Rightarrow> message list \<Rightarrow> ('e, 'ev) wss_state \<Rightarrow> ('e option) \<times> ('e, 'ev) wss_state"
where
  "send_frames werr k [] st = (None, st)"
| "send_frames werr k (frame # frames) st =
     (case wss_write frame (werr k) st of
        (Some e, st) \<Rightarrow> (Some e, st)
      | (None, st) \<Rightarrow> send_frames werr (Suc k) frames st)"

text \<open>
  The state before the socket is there.  The epoch of the connection is minted once the handshake
  completed, from the wall clock and the values other threads installed meanwhile.
\<close>

definition wss_init :: "source_metrics \<Rightarrow> ('ev \<times> u64) sender \<Rightarrow> ('e, 'ev) wss_state" where
  "wss_init metrics out =
     \<lparr>ws_exit = None, ws_streamed = False, ws_acked = 0, ws_expected_acks = 0, ws_ack_deadline = None,
      ws_rotate_at = None, ws_health = health_new 0 0, ws_rtt = 0, ws_metrics = metrics, ws_out = out,
      ws_written = [], ws_heartbeat = HbNone, ws_hb_ticks = 0, ws_hb_running = False, ws_hb_dead = False,
      ws_pinging = False, ws_held_extras = []\<rparr>"

text \<open>Steps 3 to 5 up to the read loop: subscribe, start the tasks, set the deadlines.\<close>

definition wss_subscribe ::
  "protocol_hooks \<Rightarrow> string list \<Rightarrow> declared_datatype list \<Rightarrow> (nat \<Rightarrow> 'e option) \<Rightarrow> (nat \<Rightarrow> instant) \<Rightarrow> duration
     \<Rightarrow> prepared \<Rightarrow> ('e, 'ev) wss_state \<Rightarrow> ('e, 'ev) wss_state"
where
  "wss_subscribe H symbols declared werr clock stale_after prep st =
     (let frames = ph_subscribe_frames H symbols declared;
          expected_acks = length frames;
          (held, frames) =
            (if pr_extra_frames_delay prep \<noteq> None \<and> pr_extra_frames prep \<noteq> []
             then (pr_extra_frames prep, frames) else ([], frames @ pr_extra_frames prep))
      in case send_frames werr 0 frames st of
           (Some e, st) \<Rightarrow> wss_leave (WTransport e) st
         | (None, st) \<Rightarrow>
             (let heartbeat = unwrap_or (pr_heartbeat_override prep) (ph_heartbeat H)
              in st\<lparr>ws_expected_acks := expected_acks,
                    ws_ack_deadline := map_option (\<lambda>d. clock 0 + d) (ph_subscribe_ack_deadline H),
                    ws_held_extras := held, ws_heartbeat := heartbeat,
                    ws_hb_running := (hb_every heartbeat \<noteq> None), ws_pinging := True,
                    ws_health := health_new (clock 1) stale_after,
                    ws_rotate_at := rotation_deadline (clock 2) (ph_connection_lifetime H)\<rparr>))"

definition wss_open ::
  "protocol_hooks \<Rightarrow> (string \<Rightarrow> string option) \<Rightarrow> 'e connect_outcome \<Rightarrow> string list \<Rightarrow> declared_datatype list
     \<Rightarrow> (nat \<Rightarrow> 'e option) \<Rightarrow> (nat \<Rightarrow> instant) \<Rightarrow> u64 \<Rightarrow> u64 list \<Rightarrow> source_metrics \<Rightarrow> ('ev \<times> u64) sender
     \<Rightarrow> ('e, 'ev) wss_state"
where
  "wss_open H url_error connect symbols declared werr clock now_us observed metrics out =
     (let st = wss_init metrics out in
      case ph_prepare H of
        Err e \<Rightarrow> wss_leave (WConnectionFailed (''prepare: '' @ e)) st
      | Ok prep \<Rightarrow>
          (let endpoint = unwrap_or (pr_endpoint_override prep) (ph_endpoint H) in
           case url_error endpoint of
             Some e \<Rightarrow> wss_leave (WConnectionFailed (''url parse: '' @ e)) st
           | None \<Rightarrow>
               (case connect of
                  ConnectError e \<Rightarrow> wss_leave (WTransport e) st
                | ConnectTimedOut \<Rightarrow> wss_leave (WConnectionFailed ''connect timed out'') st
                | Connected \<Rightarrow>
                    wss_subscribe H symbols declared werr clock (ph_stale_after H) prep
                      (wss_update_metrics
                        (\<lambda>m. m\<lparr>conn_epoch_us := next_conn_epoch now_us (conn_epoch_us m) observed\<rparr>) st))))"

section \<open>Reading\<close>

text \<open>
  An inflated text frame: ack, control, decode.  \<open>full\<close> tells whether the ingest buffer has no free
  slot, \<open>werr\<close> the error of the reply's write.
\<close>

definition forward_event :: "bool \<Rightarrow> u64 \<Rightarrow> 'ev \<Rightarrow> ('e, 'ev) wss_state \<Rightarrow> ('e, 'ev) wss_state" where
  "forward_event full receipt_us ev st =
     (let st = (wss_update_metrics bump_msgs st)\<lparr>ws_streamed := True\<rparr>;
          st = (if full then wss_update_metrics bump_ingest_backpressure st else st)
      in case send (ev, receipt_us) (ws_out st) of
           None \<Rightarrow> wss_leave WReceiverDropped st
         | Some out \<Rightarrow> st\<lparr>ws_out := out\<rparr>)"

definition handle_text ::
  "protocol_hooks \<Rightarrow> (string \<Rightarrow> ('ev option, string) result) \<Rightarrow> bool \<Rightarrow> 'e option \<Rightarrow> u64 \<Rightarrow> string
     \<Rightarrow> ('e, 'ev) wss_state \<Rightarrow> ('e, 'ev) wss_state"
where
  "handle_text H decode full werr receipt_us text st =
     (case ph_classify_ack H text of
        AckRejected _ reason \<Rightarrow> wss_leave (ack_rejection_exit (ws_streamed st) reason) st
      | AckAccepted \<Rightarrow> st\<lparr>ws_acked := ws_acked st + 1\<rparr>
      | NotAck \<Rightarrow>
          (case ph_on_inbound_control H text of
             Reply frame \<Rightarrow>
               (case wss_write frame werr st of
                  (Some e, st) \<Rightarrow> wss_leave (WHeartbeatWriteFailed e) st
                | (None, st) \<Rightarrow> st)
           | Ignore \<Rightarrow>
               (case decode text of
                  Ok (Some ev) \<Rightarrow> forward_event full receipt_us ev st
                | Ok None \<Rightarrow> st
                | Err _ \<Rightarrow> wss_update_metrics bump_decode_err st)))"

definition handle_pong :: "u64 \<Rightarrow> byte list \<Rightarrow> ('e, 'ev) wss_state \<Rightarrow> ('e, 'ev) wss_state" where
  "handle_pong receipt_us p st =
     (case decode_ping_send_us p of
        None \<Rightarrow> st
      | Some send_us \<Rightarrow>
          (let rtt = saturating_sub receipt_us send_us
           in if rtt > 0 then st\<lparr>ws_rtt := rtt_ewma_us (ws_rtt st) (max rtt 1)\<rparr> else st))"

fun frame_payload_of :: "message \<Rightarrow> frame_payload option" where
  "frame_payload_of (MText t) = Some (PText t)"
| "frame_payload_of (MBinary b) = Some (PBinary b)"
| "frame_payload_of _ = None"

fun handle_message ::
  "protocol_hooks \<Rightarrow> (string \<Rightarrow> ('ev option, string) result) \<Rightarrow> (nat \<Rightarrow> byte list \<Rightarrow> (byte list, string) result)
     \<Rightarrow> bool \<Rightarrow> 'e option \<Rightarrow> u64 \<Rightarrow> message \<Rightarrow> ('e, 'ev) wss_state \<Rightarrow> ('e, 'ev) wss_state"
where
  "handle_message H decode gz full werr receipt_us (MPing p) st = snd (wss_write (MPong p) werr st)"
| "handle_message H decode gz full werr receipt_us (MClose f) st = wss_leave (WServerClose f) st"
| "handle_message H decode gz full werr receipt_us (MPong p) st = handle_pong receipt_us p st"
| "handle_message H decode gz full werr receipt_us MFrame st = st"
| "handle_message H decode gz full werr receipt_us (MText t) st =
     (case inflate gz (ph_frame_codec H) (PText t) of
        Ok text \<Rightarrow> handle_text H decode full werr receipt_us text st
      | Err _ \<Rightarrow> wss_update_metrics (add_dropped_frames 1) st)"
| "handle_message H decode gz full werr receipt_us (MBinary b) st =
     (case inflate gz (ph_frame_codec H) (PBinary b) of
        Ok text \<Rightarrow> handle_text H decode full werr receipt_us text st
      | Err _ \<Rightarrow> wss_update_metrics (add_dropped_frames 1) st)"

text \<open>One item of the socket stream: activity is recorded first, whatever the item is.\<close>

definition on_read ::
  "protocol_hooks \<Rightarrow> (string \<Rightarrow> ('ev option, string) result) \<Rightarrow> (nat \<Rightarrow> byte list \<Rightarrow> (byte list, string) result)
     \<Rightarrow> bool \<Rightarrow> 'e option \<Rightarrow> u64 \<Rightarrow> instant \<Rightarrow> (message, 'e) result \<Rightarrow> ('e, 'ev) wss_state \<Rightarrow> ('e, 'ev) wss_state"
where
  "on_read H decode gz full werr receipt_us now item st =
     (let st = st\<lparr>ws_health := record_activity now (ws_health st)\<rparr> in
      case item of
        Err e \<Rightarrow> wss_leave (WTransport e) st
      | Ok msg \<Rightarrow> handle_message H decode gz full werr receipt_us msg st)"

definition ack_timeout :: "('e, 'ev) wss_state \<Rightarrow> ('e, 'ev) wss_state" where
  "ack_timeout st =
     wss_leave (ack_rejection_exit (ws_streamed st)
        (''only '' @ nat_digits (ws_acked st) @ '' of '' @ nat_digits (ws_expected_acks st)
           @ '' subscriptions acked before deadline''))
      (wss_update_metrics bump_ack_timeouts st)"

text \<open>The farewell of a shutdown: the unsubscribe frames until a write fails, then the close frame.\<close>

definition farewell :: "message list \<Rightarrow> (nat \<Rightarrow> 'e option) \<Rightarrow> ('e, 'ev) wss_state \<Rightarrow> ('e, 'ev) wss_state" where
  "farewell frames werr st =
     (if frames = [] then st
      else snd (wss_write (MClose None) (werr (length frames)) (snd (send_frames werr 0 frames st))))"

inductive transport_step ::
  "protocol_hooks \<Rightarrow> (string \<Rightarrow> ('ev option, string) result) \<Rightarrow> (nat \<Rightarrow> byte list \<Rightarrow> (byte list, string) result)
     \<Rightarrow> string list \<Rightarrow> declared_datatype list \<Rightarrow> ('e, 'ev) wss_state \<Rightarrow> ('e, 'ev) wss_state \<Rightarrow> bool"
  for H decode gz symbols declared
where
  read_item: "ws_exit st = None
     \<Longrightarrow> transport_step H decode gz symbols declared st (on_read H decode gz full werr receipt_us now item st)"
| read_end: "ws_exit st = None
     \<Longrightarrow> transport_step H decode gz symbols declared st (wss_leave WStreamEnded st)"
| stale: "ws_exit st = None \<Longrightarrow> health_deadline (ws_health st) \<le> now
     \<Longrightarrow> transport_step H decode gz symbols declared st (wss_leave (WStale (ph_stale_after H)) st)"
| rotate: "ws_exit st = None \<Longrightarrow> ws_rotate_at st = Some dl \<Longrightarrow> dl \<le> now
     \<Longrightarrow> transport_step H decode gz symbols declared st
           (wss_leave (WPlannedRotation (unwrap_or (ph_connection_lifetime H) 0)) (snd (wss_write (MClose None) we st)))"
| shutdown_signaled: "ws_exit st = None
     \<Longrightarrow> transport_step H decode gz symbols declared st
           (wss_leave WStreamEnded (farewell (ph_unsubscribe_frames H symbols declared) werrs st))"
| ack_deadline: "ws_exit st = None \<Longrightarrow> ws_ack_deadline st = Some dl \<Longrightarrow> dl \<le> now \<Longrightarrow> ws_acked st < ws_expected_acks st
     \<Longrightarrow> transport_step H decode gz symbols declared st (ack_timeout st)"
| heartbeat_dead: "ws_exit st = None \<Longrightarrow> ws_hb_dead st
     \<Longrightarrow> transport_step H decode gz symbols declared st
           (wss_leave (WConnectionFailed ''heartbeat write failed - socket write half dead'') st)"
| heartbeat_sent: "ws_exit st = None \<Longrightarrow> ws_hb_running st \<Longrightarrow> hb_frame (ws_heartbeat st) (ws_hb_ticks st) = Some frame
     \<Longrightarrow> transport_step H decode gz symbols declared st
           (st\<lparr>ws_written := ws_written st @ [frame], ws_hb_ticks := ws_hb_ticks st + 1\<rparr>)"
| heartbeat_failed: "ws_exit st = None \<Longrightarrow> ws_hb_running st
     \<Longrightarrow> transport_step H decode gz symbols declared st (st\<lparr>ws_hb_running := False, ws_hb_dead := True\<rparr>)"
| ping_sent: "ws_exit st = None \<Longrightarrow> ws_pinging st
     \<Longrightarrow> transport_step H decode gz symbols declared st
           (st\<lparr>ws_written := ws_written st @ [MPing (u64_to_le_bytes now_us)]\<rparr>)"
| ping_failed: "ws_exit st = None \<Longrightarrow> ws_pinging st
     \<Longrightarrow> transport_step H decode gz symbols declared st (st\<lparr>ws_pinging := False\<rparr>)"
| extra_sent: "ws_exit st = None \<Longrightarrow> ws_held_extras st = frame # rest
     \<Longrightarrow> transport_step H decode gz symbols declared st
           (st\<lparr>ws_written := ws_written st @ [frame], ws_held_extras := rest\<rparr>)"
| extra_failed: "ws_exit st = None \<Longrightarrow> ws_held_extras st \<noteq> []
     \<Longrightarrow> transport_step H decode gz symbols declared st (st\<lparr>ws_held_extras := []\<rparr>)"

inductive_cases transport_stepE: "transport_step H decode gz symbols declared st st'"

section \<open>Frames, round trips and round-trip times\<close>

lemma le_value_digits: "le_value (map (\<lambda>i. of_nat (n div 256 ^ i)) [k..<k + m]) = n div 256 ^ k mod 256 ^ m"
proof (induction m arbitrary: k)
  case (Suc m)
  let ?f = "\<lambda>i. of_nat (n div 256 ^ i) :: byte"
  have up: "[k..<k + Suc m] = k # [Suc k..<Suc k + m]" by (simp add: upt_rec)
  have "le_value (map ?f [Suc k..<Suc k + m]) = n div 256 ^ Suc k mod 256 ^ m" by (rule Suc.IH)
  moreover have "unat (?f k) = n div 256 ^ k mod 256" by (simp add: unat_of_nat)
  moreover have "n div 256 ^ Suc k = n div 256 ^ k div 256" by (simp add: power_Suc2 div_mult2_eq del: power_Suc)
  ultimately show ?case
    unfolding up by (simp add: mod_mult2_eq [of "n div 256 ^ k" 256 "256 ^ m"])
qed simp

lemma ping_roundtrip: "decode_ping_send_us (u64_to_le_bytes w) = Some w"
proof -
  have "unat w < 256 ^ 8" using unsigned_less [where 'a = nat, of w] by simp
  then show ?thesis using le_value_digits [of "unat w" 0 8] by (simp add: decode_ping_send_us_def u64_to_le_bytes_def)
qed

lemma unat_rtt_ewma:
  assumes "prev \<noteq> 0" and "unat sample + 4 * unat prev < 2 ^ 64"
  shows "unat (rtt_ewma_us prev sample) = (unat sample + 4 * unat prev) div 5"
proof -
  have "unat (4 * prev) = 4 * unat prev" using assms(2) by (simp add: unat_word_ariths)
  then have "unat (sample + 4 * prev) = unat sample + 4 * unat prev" using assms(2) by (simp add: unat_word_ariths)
  then show ?thesis using assms(1) by (simp add: rtt_ewma_us_def unat_div)
qed

lemma rtt_ewma_between:
  assumes "unat prev \<le> m" "unat sample \<le> m" "5 * m < 2 ^ 64"
  shows "min (unat prev) (unat sample) \<le> unat (rtt_ewma_us prev sample)" "unat (rtt_ewma_us prev sample) \<le> m"
proof -
  have "unat sample + 4 * unat prev < 2 ^ 64" using assms by linarith
  note e = unat_rtt_ewma [OF _ this]
  show "min (unat prev) (unat sample) \<le> unat (rtt_ewma_us prev sample)"
    by (cases "prev = 0") (auto simp: e min_def)
  show "unat (rtt_ewma_us prev sample) \<le> m"
    using assms by (cases "prev = 0") (auto simp: e, simp add: rtt_ewma_us_def)
qed

lemma from_utf8_length: "from_utf8 bs = Ok t \<Longrightarrow> length t = length bs"
  by (auto simp: from_utf8_def split: if_splits)

text \<open>A frame never inflates past the cap, whatever the compressed bytes are.\<close>

lemma gunzip_bounded: "gunzip gz b = Ok t \<Longrightarrow> length t \<le> MAX_INFLATED_FRAME_BYTES"
  by (cases "gz (MAX_INFLATED_FRAME_BYTES + 1) b") (auto simp: gunzip_def dest: from_utf8_length split: if_splits)

section \<open>What a read does\<close>

lemmas wss_defs = wss_update_metrics_def wss_leave_def wss_write_def

lemmas bump_defs = bump_msgs_def bump_ingest_backpressure_def bump_decode_err_def bump_ack_timeouts_def
  add_dropped_frames_def

text \<open>
  The invariant of the pump, relative to the counters and the ingest buffer it started with: the
  message counter counts the forwarded events, nothing was forwarded before the stream counts as
  streaming, and a rejected subscription is reported only then.
\<close>

definition wss_inv :: "source_metrics \<Rightarrow> ('ev \<times> u64) sender \<Rightarrow> ('e, 'ev) wss_state \<Rightarrow> bool" where
  "wss_inv m0 out0 st \<longleftrightarrow>
     (\<exists>new. sent (ws_out st) = sent out0 @ new
       \<and> mt_msgs (ws_metrics st) = mt_msgs m0 + of_nat (length new) + (if ws_exit st = Some WReceiverDropped then 1 else 0)
       \<and> (\<not> ws_streamed st \<longrightarrow> new = []))
     \<and> closes_after (ws_out st) = closes_after out0
     \<and> ((\<exists>reason. ws_exit st = Some (WSubscriptionRejected reason)) \<longrightarrow> \<not> ws_streamed st)"

lemma wss_inv_keep:
  assumes "wss_inv m0 out0 st" and "ws_exit st = None"
    and "ws_out st' = ws_out st" "ws_streamed st' = ws_streamed st" "mt_msgs (ws_metrics st') = mt_msgs (ws_metrics st)"
    and "ws_exit st' \<noteq> Some WReceiverDropped" "\<And>r. ws_exit st' = Some (WSubscriptionRejected r) \<Longrightarrow> \<not> ws_streamed st"
  shows "wss_inv m0 out0 st'"
  using assms by (auto simp: wss_inv_def)

lemma send_frames_fields:
  "send_frames werr k frames st = (r, st') \<Longrightarrow>
     ws_out st' = ws_out st \<and> ws_streamed st' = ws_streamed st \<and> ws_metrics st' = ws_metrics st \<and> ws_exit st' = ws_exit st
       \<and> ws_rtt st' = ws_rtt st"
  by (induction werr k frames st rule: send_frames.induct) (auto simp: wss_write_def split: option.splits)

lemma farewell_fields:
  "ws_out (farewell fs werr st) = ws_out st \<and> ws_streamed (farewell fs werr st) = ws_streamed st
     \<and> ws_metrics (farewell fs werr st) = ws_metrics st \<and> ws_exit (farewell fs werr st) = ws_exit st
     \<and> ws_rtt (farewell fs werr st) = ws_rtt st"
  using send_frames_fields [of werr 0 fs st, OF surjective_pairing]
  by (simp add: farewell_def wss_write_def split: option.splits)

lemma forward_event_inv:
  assumes "wss_inv m0 out0 st" and "ws_exit st = None"
  shows "wss_inv m0 out0 (forward_event full receipt ev st)"
proof -
  from assms obtain new where new: "sent (ws_out st) = sent out0 @ new" "mt_msgs (ws_metrics st) = mt_msgs m0 + of_nat (length new)"
    by (auto simp: wss_inv_def)
  let ?f = "\<lambda>m. if full then bump_ingest_backpressure (bump_msgs m) else bump_msgs m"
  have m: "mt_msgs (?f m) = mt_msgs m + 1" for m by (simp add: bump_defs)
  show ?thesis
  proof (cases "send (ev, receipt) (ws_out st)")
    case None
    with new assms show ?thesis by (auto simp: wss_inv_def forward_event_def wss_defs bump_defs Let_def)
  next
    case (Some out)
    from send_Some [OF this] new have "sent out = sent out0 @ (new @ [(ev, receipt)])" "closes_after out = closes_after out0"
      using assms(1) by (auto simp: wss_inv_def)
    with Some new assms show ?thesis
      by (auto simp: wss_inv_def forward_event_def wss_defs bump_defs Let_def intro!: exI [of _ "new @ [(ev, receipt)]"])
  qed
qed

lemma handle_text_inv:
  assumes "wss_inv m0 out0 st" and "ws_exit st = None"
  shows "wss_inv m0 out0 (handle_text H decode full werr receipt text st)"
proof -
  have keep: "wss_inv m0 out0 (wss_leave (ack_rejection_exit (ws_streamed st) reason) st)"
    "wss_inv m0 out0 (st\<lparr>ws_acked := n\<rparr>)" "wss_inv m0 out0 (st\<lparr>ws_written := w\<rparr>)"
    "wss_inv m0 out0 (wss_leave (WHeartbeatWriteFailed e) st)" "wss_inv m0 out0 (wss_update_metrics bump_decode_err st)"
    for reason n w e
    by (rule wss_inv_keep [OF assms]; auto simp: wss_defs ack_rejection_exit_def bump_defs assms(2) split: if_splits)+
  then show ?thesis using forward_event_inv [OF assms] assms(1)
    by (auto simp: handle_text_def wss_write_def split: ack_outcome.splits control_action.splits option.splits result.splits)
qed

lemma handle_message_inv:
  assumes "wss_inv m0 out0 st" and "ws_exit st = None"
  shows "wss_inv m0 out0 (handle_message H decode gz full werr receipt msg st)"
proof -
  have keep: "wss_inv m0 out0 (st\<lparr>ws_written := w\<rparr>)" "wss_inv m0 out0 (wss_leave (WServerClose f) st)"
    "wss_inv m0 out0 (handle_pong receipt p st)" "wss_inv m0 out0 (wss_update_metrics (add_dropped_frames 1) st)"
    for w f p
    by (rule wss_inv_keep [OF assms]; auto simp: wss_defs bump_defs handle_pong_def assms(2) Let_def split: option.splits if_splits)+
  then show ?thesis using handle_text_inv [OF assms] assms(1)
    by (cases msg) (auto simp: wss_write_def split: option.splits result.splits)
qed

lemma transport_step_inv:
  assumes "transport_step H decode gz symbols declared st st'" and "wss_inv m0 out0 st"
  shows "wss_inv m0 out0 st'"
  using assms
proof (induction rule: transport_step.induct)
  case (read_item st full werr receipt_us now item)
  let ?st = "st\<lparr>ws_health := record_activity now (ws_health st)\<rparr>"
  have i: "wss_inv m0 out0 ?st" and x: "ws_exit ?st = None" using read_item by (auto simp: wss_inv_def)
  have "wss_inv m0 out0 (wss_leave (WTransport e) ?st)" for e
    by (rule wss_inv_keep [OF i x]) (auto simp: wss_defs)
  with handle_message_inv [OF i x] show ?case by (auto simp: on_read_def Let_def split: result.splits)
next
  case (shutdown_signaled st werrs)
  show ?case
    by (rule wss_inv_keep [OF shutdown_signaled(2,1)]) (auto simp: wss_defs farewell_fields)
next
  case (ack_deadline st dl now)
  show ?case
    by (rule wss_inv_keep [OF ack_deadline(5,1)])
      (auto simp: ack_timeout_def wss_defs ack_rejection_exit_def bump_defs split: if_splits)
qed (rule wss_inv_keep, assumption, assumption, auto simp: wss_defs split: option.splits)+

lemma wss_open_inv: "wss_inv m0 out0 (wss_open H url connect symbols declared werr clock now_us observed m0 out0)"
proof -
  have init: "wss_inv m0 out0 (wss_leave r (wss_init m0 out0))" if "r \<noteq> WReceiverDropped" for r
    using that by (auto simp: wss_inv_def wss_leave_def wss_init_def)
  have sub: "wss_inv m0 out0 (wss_subscribe H symbols declared werr clock stale prep
      (wss_update_metrics (\<lambda>m. m\<lparr>conn_epoch_us := ep m\<rparr>) (wss_init m0 out0)))" for stale prep ep
    by (auto simp: wss_inv_def wss_subscribe_def wss_defs wss_init_def Let_def dest: send_frames_fields
        split: prod.splits option.splits if_splits)
  show ?thesis by (auto simp: wss_open_def init sub Let_def split: result.splits option.splits connect_outcome.splits)
qed

interpretation wss: step_invariant "transport_step H decode gz symbols declared" "wss_inv m0 out0"
  for H decode gz symbols declared m0 out0
  by unfold_locales (rule transport_step_inv)

lemma transport_run_inv:
  assumes "(transport_step H decode gz symbols declared)\<^sup>*\<^sup>*
      (wss_open H url connect symbols declared werr clock now_us observed m0 out0) st"
  shows "wss_inv m0 out0 st"
  using wss.reach_keeps [OF assms wss_open_inv] .

section \<open>A run of reads\<close>

text \<open>
  The read arm alone, item after item until the pump exits.  An item comes with the state of the
  buffer, the error of a reply's write, the receipt time and the clock.
\<close>

type_synonym 'e read_item = "bool \<times> 'e option \<times> u64 \<times> instant \<times> (message, 'e) result"

fun pump ::
  "protocol_hooks \<Rightarrow> (string \<Rightarrow> ('ev option, string) result) \<Rightarrow> (nat \<Rightarrow> byte list \<Rightarrow> (byte list, string) result)
     \<Rightarrow> 'e read_item list \<Rightarrow> ('e, 'ev) wss_state \<Rightarrow> ('e, 'ev) wss_state"
where
  "pump H decode gz [] st = st"
| "pump H decode gz ((full, werr, receipt_us, now, item) # items) st =
     (if ws_exit st \<noteq> None then st
      else pump H decode gz items (on_read H decode gz full werr receipt_us now item st))"

text \<open>What a frame means: an event if it inflates, is neither an ack nor a control frame, and decodes to one.\<close>

definition frame_event ::
  "protocol_hooks \<Rightarrow> (string \<Rightarrow> ('ev option, string) result) \<Rightarrow> (nat \<Rightarrow> byte list \<Rightarrow> (byte list, string) result)
     \<Rightarrow> (message, 'e) result \<Rightarrow> 'ev option"
where
  "frame_event H decode gz item =
     (case item of
        Err _ \<Rightarrow> None
      | Ok msg \<Rightarrow>
          (case frame_payload_of msg of
             None \<Rightarrow> None
           | Some p \<Rightarrow>
               (case inflate gz (ph_frame_codec H) p of
                  Err _ \<Rightarrow> None
                | Ok text \<Rightarrow>
                    if ph_classify_ack H text = NotAck \<and> ph_on_inbound_control H text = Ignore
                    then (case decode text of Ok ev \<Rightarrow> ev | Err _ \<Rightarrow> None) else None)))"

lemma forward_event_sent:
  "ws_exit (forward_event full receipt ev st) = None
    \<Longrightarrow> sent (ws_out (forward_event full receipt ev st)) = sent (ws_out st) @ [(ev, receipt)]"
  by (cases full) (auto simp: forward_event_def wss_defs Let_def dest: send_Some split: option.splits)

lemma handle_text_sent:
  assumes "ws_exit (handle_text H decode full werr receipt text st) = None"
  shows "sent (ws_out (handle_text H decode full werr receipt text st)) = sent (ws_out st) @
    (if ph_classify_ack H text = NotAck \<and> ph_on_inbound_control H text = Ignore
     then (case decode text of Ok (Some ev) \<Rightarrow> [(ev, receipt)] | _ \<Rightarrow> []) else [])"
  using assms
  by (auto simp: handle_text_def wss_defs forward_event_sent
      split: ack_outcome.splits control_action.splits option.splits result.splits)

lemma on_read_sent:
  assumes "ws_exit (on_read H decode gz full werr receipt now item st) = None"
  shows "sent (ws_out (on_read H decode gz full werr receipt now item st))
    = sent (ws_out st) @ (case frame_event H decode gz item of None \<Rightarrow> [] | Some ev \<Rightarrow> [(ev, receipt)])"
proof (cases item)
  case (Ok msg)
  show ?thesis
    using assms Ok handle_text_sent [of H decode full werr receipt _ "st\<lparr>ws_health := record_activity now (ws_health st)\<rparr>"]
    by (cases msg) (auto simp: on_read_def frame_event_def wss_defs handle_pong_def Let_def
        split: option.splits result.splits)
next
  case (Err e)
  then show ?thesis using assms by (simp add: on_read_def wss_leave_def)
qed

text \<open>No operation of the read path touches the activity clock but the reading itself.\<close>

lemma on_read_health: "hl_last_activity (ws_health (on_read H decode gz full werr receipt now item st)) = now"
proof -
  have t: "ws_health (handle_text H decode full werr receipt body st') = ws_health st'" for body st'
    by (auto simp: handle_text_def wss_defs forward_event_def Let_def
        split: ack_outcome.splits control_action.splits option.splits result.splits)
  have m: "ws_health (handle_message H decode gz full werr receipt msg st') = ws_health st'" for msg st'
    by (cases msg) (auto simp: t wss_defs handle_pong_def Let_def split: option.splits result.splits)
  show ?thesis by (cases item) (simp_all add: on_read_def m wss_leave_def record_activity_def Let_def)
qed

lemma pump_exited: "ws_exit st \<noteq> None \<Longrightarrow> pump H decode gz items st = st"
  by (cases "(H, decode, gz, items, st)" rule: pump.cases) auto

lemma pump_snoc:
  "ws_exit (pump H decode gz items st) = None \<Longrightarrow>
    pump H decode gz (items @ [(full, werr, receipt, now, item)]) st
      = on_read H decode gz full werr receipt now item (pump H decode gz items st)"
  by (induction H decode gz items st rule: pump.induct) (auto split: if_splits)

lemma pump_snoc_exited:
  "ws_exit (pump H decode gz items st) \<noteq> None \<Longrightarrow> pump H decode gz (items @ [it]) st = pump H decode gz items st"
  by (induction H decode gz items st rule: pump.induct) (auto split: if_splits, cases it, auto)

section \<open>Properties of a connection\<close>

text \<open>
  C13: the pump forwards exactly the data frames.  While a connection is up, the ingest buffer has
  received, in the order of arrival and each with its receipt time, one event for every frame that
  inflates, is neither an acknowledgement nor a control frame and decodes to an event, and nothing
  else; and every item read, control frames included, has restarted the staleness clock.
\<close>

theorem pump_forwards_the_data_frames:
  assumes "ws_exit (pump H decode gz items st) = None"
  shows "sent (ws_out (pump H decode gz items st)) = sent (ws_out st) @
      List.map_filter (\<lambda>(full, werr, receipt, now, item).
        map_option (\<lambda>ev. (ev, receipt)) (frame_event H decode gz item)) items
    \<and> (items \<noteq> [] \<longrightarrow> hl_last_activity (ws_health (pump H decode gz items st)) = (case last items of (_, _, _, now, _) \<Rightarrow> now))"
  using assms
proof (induction items rule: rev_induct)
  case (snoc it items)
  obtain full werr receipt now item where it: "it = (full, werr, receipt, now, item)" by (metis prod_cases5)
  have up: "ws_exit (pump H decode gz items st) = None"
    using snoc.prems pump_snoc_exited by metis
  note step = pump_snoc [OF up, of full werr receipt now item]
  from snoc.prems have "ws_exit (on_read H decode gz full werr receipt now item (pump H decode gz items st)) = None"
    by (simp add: it step)
  from on_read_sent [OF this] show ?case
    using snoc.IH [OF up] by (simp add: it step on_read_health List.map_filter_def split: option.splits)
qed (simp add: List.map_filter_def)

text \<open>
  C14: the accounting of a connection is exact under every interleaving of reads, deadlines,
  heartbeats and shutdown.  The message counter grows by the number of events handed on, plus one
  for the event that found the receiver gone; and a rejected subscription, which is terminal, is
  reported only on a connection that has handed on nothing.
\<close>

theorem transport_accounts_for_events:
  assumes "(transport_step H decode gz symbols declared)\<^sup>*\<^sup>*
      (wss_open H url connect symbols declared werr clock now_us observed m0 out0) st"
  shows "(\<exists>new. sent (ws_out st) = sent out0 @ new
      \<and> mt_msgs (ws_metrics st) = mt_msgs m0 + of_nat (length new) + (if ws_exit st = Some WReceiverDropped then 1 else 0))
    \<and> (ws_exit st = Some (WSubscriptionRejected reason) \<longrightarrow> sent (ws_out st) = sent out0)"
  using transport_run_inv [OF assms] by (auto simp: wss_inv_def)

text \<open>
  A lifetime within the headroom of thirty-one seconds rotates the connection at the moment it
  opens; the documentation says that it rotates at the lifetime itself.
\<close>

lemma short_lifetime_rotates_at_once:
  "l \<le> 31 * 10 ^ 9 \<Longrightarrow> rotation_deadline start (Some l) = Some start"
  by (simp add: rotation_deadline_def rotation_headroom_def CONNECT_TIMEOUT_def CLOSE_GRACE_def
      ROTATION_HEADROOM_MULTIPLE_def)

lemma long_lifetime_rotates_early:
  "31 * 10 ^ 9 < l \<Longrightarrow> rotation_deadline start (Some l) = Some (start + l - 31 * 10 ^ 9)"
  by (simp add: rotation_deadline_def rotation_headroom_def CONNECT_TIMEOUT_def CLOSE_GRACE_def
      ROTATION_HEADROOM_MULTIPLE_def)

section \<open>Witnesses\<close>

definition sample_hooks :: protocol_hooks where
  "sample_hooks = (default_hooks ''ws'' (\<lambda>_ _. [MText ''sub'']))
     \<lparr>ph_classify_ack := (\<lambda>t. if t = ''ok'' then AckAccepted else NotAck),
      ph_on_inbound_control := (\<lambda>t. if t = ''ping'' then Reply (MText ''pong'') else Ignore)\<rparr>"

definition sample_decode :: "string \<Rightarrow> (nat option, string) result" where
  "sample_decode t = (if t = [] then Err ''empty'' else if hd t = CHR ''d'' then Ok (Some (length t)) else Ok None)"

definition sample_gz :: "nat \<Rightarrow> byte list \<Rightarrow> (byte list, string) result" where
  "sample_gz limit bs = Ok (take limit bs)"

definition sample_open :: "(string, nat) wss_state" where
  "sample_open = wss_open sample_hooks (\<lambda>_. None) Connected [''BTC''] [DtTrades] (\<lambda>_. None) (\<lambda>_. 0) 7 []
     metrics_default \<lparr>sent = [], closes_after = None\<rparr>"

definition sample_items :: "string read_item list" where
  "sample_items = [(False, None, 10, 1, Ok (MText ''ok'')), (False, None, 11, 2, Ok (MText ''d1'')),
     (False, None, 12, 3, Ok (MText ''ping'')), (False, None, 13, 4, Ok (MText [])), (True, None, 14, 5, Ok (MText ''d23''))]"

lemmas sample_transport_defs = sample_hooks_def sample_decode_def sample_gz_def sample_open_def sample_items_def
  wss_open_def wss_subscribe_def wss_init_def wss_defs bump_defs default_hooks_def prepared_default_def
  on_read_def handle_text_def forward_event_def send_def record_activity_def health_new_def

lemma sample_pump_up: "ws_exit (pump sample_hooks sample_decode sample_gz sample_items sample_open) = None"
  by (simp add: sample_transport_defs Let_def)

theorem pump_forwards_the_data_frames_witness:
  "sent (ws_out (pump sample_hooks sample_decode sample_gz sample_items sample_open)) = [(2, 11), (3, 14)]"
  using pump_forwards_the_data_frames [OF sample_pump_up]
  by (simp add: sample_transport_defs Let_def List.map_filter_def frame_event_def)

theorem transport_accounts_for_events_witness:
  "mt_msgs (ws_metrics (on_read sample_hooks sample_decode sample_gz False None 9 5 (Ok (MText ''d1'')) sample_open)) = 1"
proof -
  let ?st = "on_read sample_hooks sample_decode sample_gz False None 9 5 (Ok (MText ''d1'')) sample_open"
  have x: "ws_exit sample_open = None" by (simp add: sample_transport_defs Let_def)
  have r: "(transport_step sample_hooks sample_decode sample_gz [''BTC''] [DtTrades])\<^sup>*\<^sup>*
      (wss_open sample_hooks (\<lambda>_. None) Connected [''BTC''] [DtTrades] (\<lambda>_. None) (\<lambda>_. 0) 7 []
        metrics_default \<lparr>sent = [], closes_after = None\<rparr>) ?st"
    using transport_step.read_item [OF x] by (simp add: sample_open_def r_into_rtranclp)
  have s: "sent (ws_out ?st) = [(2, 9)]" "ws_exit ?st = None" by (simp_all add: sample_transport_defs Let_def)
  from transport_accounts_for_events [OF r] s show ?thesis by (auto simp: metrics_default_def)
qed

end
