(* ===== verification/Driver.thy ===== *)
theory Driver
  imports Transport
begin

text \<open>
  One venue connection end to end (\<open>framework/driver.rs\<close>): the transport decodes events into an
  in-process buffer, the drive loop normalises and stamps them and hands them to the caller, and a
  graceful stop flushes what is buffered.  The venue's normaliser is an argument.  The buffer is the
  transport's history of sent events together with the number the loop has taken from it.
\<close>

section \<open>The drive loop\<close>

datatype task_exit = TaskCompleted | TaskDrainTimedOut | TaskFailed disconnect_reason | TaskExhausted

text \<open>How the transport task was joined: its exit reason, or a panic.\<close>

datatype 'e joined = Joined "'e wss_exit_reason" | JoinPanicked

fun exit_to_task :: "'e tungstenite_ops \<Rightarrow> 'e joined \<Rightarrow> task_exit" where
  "exit_to_task W (Joined reason) =
     (case disconnect_of_exit W reason of
        CleanClose \<Rightarrow> TaskCompleted
      | ReceiverDropped \<Rightarrow> TaskCompleted
      | other \<Rightarrow> TaskFailed other)"
| "exit_to_task W JoinPanicked = TaskFailed (TransportError ''transport task panicked'')"

text \<open>
  The inner loop over the events of one message: the receive number goes up by one for each, and a
  failed send ends it.
\<close>

fun emit_stamped ::
  "u64 \<Rightarrow> u64 \<Rightarrow> u64 \<Rightarrow> 'd domain_event list \<Rightarrow> u64 \<Rightarrow> 'd domain_event sender \<Rightarrow> bool \<times> u64 \<times> 'd domain_event sender"
where
  "emit_stamped receipt_us rtt epoch [] recv_seq out = (True, recv_seq, out)"
| "emit_stamped receipt_us rtt epoch (de # des) recv_seq out =
     (let recv_seq = recv_seq + 1 in
      case send (stamp_local receipt_us rtt recv_seq epoch de) out of
        None \<Rightarrow> (False, recv_seq, out)
      | Some out \<Rightarrow> emit_stamped receipt_us rtt epoch des recv_seq out)"

fun drain_buffered ::
  "('ev \<Rightarrow> 'd domain_event list) \<Rightarrow> u64 \<Rightarrow> u64 \<Rightarrow> ('ev \<times> u64) list \<Rightarrow> u64 \<Rightarrow> 'd domain_event sender \<Rightarrow> 'd domain_event sender"
where
  "drain_buffered normaliser rtt epoch [] recv_seq out = out"
| "drain_buffered normaliser rtt epoch ((ev, receipt_us) # raw) recv_seq out =
     (case emit_stamped receipt_us rtt epoch (normaliser ev) recv_seq out of
        (False, recv_seq, out) \<Rightarrow> out
      | (True, recv_seq, out) \<Rightarrow> drain_buffered normaliser rtt epoch raw recv_seq out)"

record ('e, 'ev, 'd) drive_state =
  dv_wss :: "('e, 'ev) wss_state"
  dv_taken :: nat
  dv_recv_seq :: u64
  dv_out :: "'d domain_event sender"
  dv_exit :: "task_exit option"

definition dv_pending :: "('e, 'ev, 'd) drive_state \<Rightarrow> ('ev \<times> u64) list" where
  "dv_pending st = drop (dv_taken st) (sent (ws_out (dv_wss st)))"

abbreviation dv_epoch :: "('e, 'ev, 'd) drive_state \<Rightarrow> u64" where
  "dv_epoch st \<equiv> conn_epoch_us (ws_metrics (dv_wss st))"

definition drive_start :: "('e, 'ev) wss_state \<Rightarrow> 'd domain_event sender \<Rightarrow> ('e, 'ev, 'd) drive_state" where
  "drive_start wss out = \<lparr>dv_wss = wss, dv_taken = 0, dv_recv_seq = 0, dv_out = out, dv_exit = None\<rparr>"

definition drive_recv :: "('ev \<Rightarrow> 'd domain_event list) \<Rightarrow> 'ev \<times> u64 \<Rightarrow> ('e, 'ev, 'd) drive_state \<Rightarrow> ('e, 'ev, 'd) drive_state" where
  "drive_recv normaliser msg st =
     (case emit_stamped (snd msg) (ws_rtt (dv_wss st)) (dv_epoch st) (normaliser (fst msg)) (dv_recv_seq st) (dv_out st) of
        (alive, recv_seq, out) \<Rightarrow>
          st\<lparr>dv_taken := dv_taken st + 1, dv_recv_seq := recv_seq, dv_out := out,
             dv_exit := (if alive then None else Some TaskCompleted)\<rparr>)"

definition drive_flush :: "('ev \<Rightarrow> 'd domain_event list) \<Rightarrow> ('e, 'ev, 'd) drive_state \<Rightarrow> 'd domain_event sender" where
  "drive_flush normaliser st =
     drain_buffered normaliser (ws_rtt (dv_wss st)) (dv_epoch st) (dv_pending st) (dv_recv_seq st) (dv_out st)"

text \<open>
  The arms of the loop; the transport task runs beside it.  A flush that exceeds the drain bound is
  dropped after some of its sends.  A shutdown reaches the loop in one of two ways: by its own arm,
  or by the transport closing the buffer first.
\<close>

inductive drive_step ::
  "protocol_hooks \<Rightarrow> (string \<Rightarrow> ('ev option, string) result) \<Rightarrow> (nat \<Rightarrow> byte list \<Rightarrow> (byte list, string) result)
     \<Rightarrow> string list \<Rightarrow> declared_datatype list \<Rightarrow> 'e tungstenite_ops \<Rightarrow> ('ev \<Rightarrow> 'd domain_event list)
     \<Rightarrow> ('e, 'ev, 'd) drive_state \<Rightarrow> ('e, 'ev, 'd) drive_state \<Rightarrow> bool"
  for H decode gz symbols declared W normaliser
where
  transport: "dv_exit st = None \<Longrightarrow> transport_step H decode gz symbols declared (dv_wss st) wss
     \<Longrightarrow> drive_step H decode gz symbols declared W normaliser st (st\<lparr>dv_wss := wss\<rparr>)"
| recv: "dv_exit st = None \<Longrightarrow> dv_pending st = msg # rest
     \<Longrightarrow> drive_step H decode gz symbols declared W normaliser st (drive_recv normaliser msg st)"
| closed: "dv_exit st = None \<Longrightarrow> dv_pending st = [] \<Longrightarrow> ws_exit (dv_wss st) = Some reason
     \<Longrightarrow> drive_step H decode gz symbols declared W normaliser st (st\<lparr>dv_exit := Some (exit_to_task W (Joined reason))\<rparr>)"
| panicked: "dv_exit st = None \<Longrightarrow> dv_pending st = []
     \<Longrightarrow> drive_step H decode gz symbols declared W normaliser st (st\<lparr>dv_exit := Some (exit_to_task W JoinPanicked)\<rparr>)"
| shutdown_flushed: "dv_exit st = None
     \<Longrightarrow> drive_step H decode gz symbols declared W normaliser st
           (st\<lparr>dv_out := drive_flush normaliser st, dv_exit := Some TaskCompleted\<rparr>)"
| shutdown_cut: "dv_exit st = None \<Longrightarrow> n < length (sent (drive_flush normaliser st))
     \<Longrightarrow> drive_step H decode gz symbols declared W normaliser st
           (st\<lparr>dv_out := (dv_out st)\<lparr>sent := take (max n (length (sent (dv_out st)))) (sent (drive_flush normaliser st))\<rparr>,
               dv_exit := Some TaskDrainTimedOut\<rparr>)"

section \<open>The stamped stream\<close>

text \<open>
  The specification: the normalised events of the messages in order, each with the receipt time of
  its message; the outputs are these events, the \<open>n\<close>-th stamped with its receipt time and the
  receive number \<open>n\<close>.
\<close>

definition arrivals :: "('ev \<Rightarrow> 'd domain_event list) \<Rightarrow> ('ev \<times> u64) list \<Rightarrow> ('d domain_event \<times> u64) list" where
  "arrivals normaliser raw = concat (map (\<lambda>(ev, receipt_us). map (\<lambda>de. (de, receipt_us)) (normaliser ev)) raw)"

definition stamped_from :: "nat \<Rightarrow> ('d domain_event \<times> u64) list \<Rightarrow> 'd domain_event list \<Rightarrow> bool" where
  "stamped_from n as outs \<longleftrightarrow> length outs = length as \<and>
     (\<forall>i < length as. \<exists>rtt epoch. outs ! i = stamp_local (snd (as ! i)) rtt (of_nat (n + i + 1)) epoch (fst (as ! i)))"

lemma arrivals_append: "arrivals normaliser (a @ b) = arrivals normaliser a @ arrivals normaliser b"
  by (simp add: arrivals_def)

lemma arrivals_simps [simp]:
  "arrivals normaliser [] = []"
  "arrivals normaliser ((ev, r) # raw) = map (\<lambda>de. (de, r)) (normaliser ev) @ arrivals normaliser raw"
  by (simp_all add: arrivals_def)

lemma stamped_from_Nil [simp]: "stamped_from n [] outs \<longleftrightarrow> outs = []"
  by (auto simp: stamped_from_def)

lemma stamped_from_snoc:
  "stamped_from n as outs \<Longrightarrow> stamped_from n (as @ [(de, r)]) (outs @ [stamp_local r rtt (of_nat (n + length as + 1)) epoch de])"
  by (fastforce simp: stamped_from_def nth_append less_Suc_eq)

lemma stamped_from_take: "stamped_from n as outs \<Longrightarrow> stamped_from n (take k as) (take k outs)"
  by (auto simp: stamped_from_def)

text \<open>
  The inner loop extends a stamped stream: by all its events, or, when a send fails, by some of
  them, and then the receiver is gone.
\<close>

lemma emit_stamped_extends:
  assumes "emit_stamped r rtt epoch des (of_nat (length as)) out = (alive, seq, out')" and "stamped_from 0 as (sent out)"
  shows "\<exists>k \<le> length des. stamped_from 0 (as @ take k (map (\<lambda>de. (de, r)) des)) (sent out')
    \<and> closes_after out' = closes_after out
    \<and> (alive \<longrightarrow> k = length des \<and> seq = of_nat (length as + length des)) \<and> (\<not> alive \<longrightarrow> closes_after out \<noteq> None)"
  using assms
proof (induction des arbitrary: as out)
  case (Cons de des)
  let ?e = "stamp_local r rtt (of_nat (length as) + 1) epoch de"
  show ?case
  proof (cases "send ?e out")
    case None
    with Cons.prems show ?thesis
      by (auto simp: send_def split: option.splits if_splits intro!: exI [of _ 0])
  next
    case (Some out1)
    have st: "stamped_from 0 (as @ [(de, r)]) (sent out1)"
      using stamped_from_snoc [OF Cons.prems(2), of de r rtt epoch] send_Some [OF Some] by (simp add: add.commute)
    have "emit_stamped r rtt epoch des (of_nat (length (as @ [(de, r)]))) out1 = (alive, seq, out')"
      using Cons.prems(1) Some by (simp add: Let_def add.commute)
    from Cons.IH [OF this st] obtain k where k: "k \<le> length des"
      "stamped_from 0 ((as @ [(de, r)]) @ take k (map (\<lambda>de. (de, r)) des)) (sent out')"
      "closes_after out' = closes_after out1"
      "alive \<longrightarrow> k = length des \<and> seq = of_nat (length (as @ [(de, r)]) + length des)" "\<not> alive \<longrightarrow> closes_after out1 \<noteq> None"
      by blast
    then show ?thesis using send_Some [OF Some] by (intro exI [of _ "Suc k"]) (auto simp: add.commute)
  qed
qed auto

lemma drain_buffered_extends:
  assumes "stamped_from 0 as (sent out)"
  shows "\<exists>k \<le> length (arrivals normaliser raw).
    stamped_from 0 (as @ take k (arrivals normaliser raw)) (sent (drain_buffered normaliser rtt epoch raw (of_nat (length as)) out))
    \<and> (closes_after out = None \<longrightarrow> k = length (arrivals normaliser raw))"
  using assms
proof (induction raw arbitrary: as out)
  case (Cons msg raw)
  obtain ev r where msg: "msg = (ev, r)" by fastforce
  let ?here = "map (\<lambda>de. (de, r)) (normaliser ev)" and ?rest = "arrivals normaliser raw"
  let ?drain = "drain_buffered normaliser rtt epoch (msg # raw) (of_nat (length as)) out"
  have ar: "arrivals normaliser (msg # raw) = ?here @ ?rest" by (simp add: msg)
  obtain alive seq out1 where e: "emit_stamped r rtt epoch (normaliser ev) (of_nat (length as)) out = (alive, seq, out1)"
    by (metis prod_cases3)
  from emit_stamped_extends [OF e Cons.prems] obtain k where k: "k \<le> length (normaliser ev)"
    "stamped_from 0 (as @ take k ?here) (sent out1)" "closes_after out1 = closes_after out"
    "alive \<longrightarrow> k = length (normaliser ev) \<and> seq = of_nat (length as + length (normaliser ev))"
    "\<not> alive \<longrightarrow> closes_after out \<noteq> None"
    by (elim exE conjE) (rule that)
  show ?case
  proof (cases alive)
    case False
    then have d: "?drain = out1" by (simp add: msg e)
    from k(1) have "take k (?here @ ?rest) = take k ?here" "k \<le> length (?here @ ?rest)" by simp_all
    with False k(2,5) show ?thesis unfolding ar d by metis
  next
    case True
    with k have all: "stamped_from 0 (as @ ?here) (sent out1)" and sq: "seq = of_nat (length (as @ ?here))" by auto
    have d: "?drain = drain_buffered normaliser rtt epoch raw (of_nat (length (as @ ?here))) out1"
      using True by (simp add: msg e sq)
    from Cons.IH [OF all] obtain j where j: "j \<le> length ?rest"
      "stamped_from 0 ((as @ ?here) @ take j ?rest) (sent ?drain)" "closes_after out1 = None \<longrightarrow> j = length ?rest"
      by (elim exE conjE) (rule that, simp_all only: d)
    show ?thesis unfolding ar
    proof (intro exI [of _ "length ?here + j"] conjI impI)
      show "stamped_from 0 (as @ take (length ?here + j) (?here @ ?rest)) (sent ?drain)" using j(2) by simp
    qed (use j k(3) in simp_all)
  qed
qed simp

section \<open>Every interleaving of the connection\<close>

text \<open>The transport only appends to the buffer.\<close>

lemma transport_step_appends:
  assumes "transport_step H decode gz symbols declared wss wss'"
  shows "\<exists>new. sent (ws_out wss') = sent (ws_out wss) @ new"
proof -
  from assms have "ws_exit wss = None" by (cases rule: transport_step.cases) auto
  then have "wss_inv (ws_metrics wss) (ws_out wss) wss" by (auto simp: wss_inv_def)
  from transport_step_inv [OF assms this] show ?thesis by (auto simp: wss_inv_def)
qed

text \<open>
  The invariant of the loop: the output is the stamped stream of a prefix of the arrivals.  While
  the loop runs, of exactly the messages taken; after it ended, of everything the transport
  forwarded, unless the flush was cut or the caller went away.
\<close>

definition drive_inv :: "('ev \<Rightarrow> 'd domain_event list) \<Rightarrow> ('e, 'ev, 'd) drive_state \<Rightarrow> bool" where
  "drive_inv normaliser st \<longleftrightarrow>
     dv_taken st \<le> length (sent (ws_out (dv_wss st)))
     \<and> (dv_exit st = None \<longrightarrow>
          stamped_from 0 (arrivals normaliser (take (dv_taken st) (sent (ws_out (dv_wss st))))) (sent (dv_out st))
          \<and> dv_recv_seq st = of_nat (length (arrivals normaliser (take (dv_taken st) (sent (ws_out (dv_wss st)))))))
     \<and> (\<exists>k \<le> length (arrivals normaliser (sent (ws_out (dv_wss st)))).
          stamped_from 0 (take k (arrivals normaliser (sent (ws_out (dv_wss st))))) (sent (dv_out st))
          \<and> (dv_exit st \<notin> {None, Some TaskDrainTimedOut} \<longrightarrow> closes_after (dv_out st) = None
               \<longrightarrow> k = length (arrivals normaliser (sent (ws_out (dv_wss st))))))"

lemma arrivals_split:
  "arrivals normaliser (take n raw) @ arrivals normaliser (drop n raw) = arrivals normaliser raw"
  by (simp flip: arrivals_append)

lemma drive_inv_running:
  assumes "dv_exit st = None" and "dv_taken st \<le> length (sent (ws_out (dv_wss st)))"
    and "stamped_from 0 (arrivals normaliser (take (dv_taken st) (sent (ws_out (dv_wss st))))) (sent (dv_out st))"
    and "dv_recv_seq st = of_nat (length (arrivals normaliser (take (dv_taken st) (sent (ws_out (dv_wss st))))))"
  shows "drive_inv normaliser st"
proof -
  let ?raw = "sent (ws_out (dv_wss st))" and ?as = "arrivals normaliser (take (dv_taken st) (sent (ws_out (dv_wss st))))"
  have "take (length ?as) (arrivals normaliser ?raw) = ?as" "length ?as \<le> length (arrivals normaliser ?raw)"
    by (simp_all flip: arrivals_split [of normaliser "dv_taken st" ?raw])
  with assms show ?thesis unfolding drive_inv_def by (intro conjI exI [of _ "length ?as"]) auto
qed

text \<open>A state that ended with a prefix of the arrivals delivered.\<close>

lemma drive_inv_ended:
  assumes "dv_exit st \<noteq> None" and "dv_taken st \<le> length (sent (ws_out (dv_wss st)))"
    and "arrivals normaliser (sent (ws_out (dv_wss st))) = as @ bs" and "k \<le> length bs"
    and "stamped_from 0 (as @ take k bs) (sent (dv_out st))"
    and "dv_exit st \<noteq> Some TaskDrainTimedOut \<Longrightarrow> closes_after (dv_out st) = None \<Longrightarrow> k = length bs"
  shows "drive_inv normaliser st"
  using assms unfolding drive_inv_def by (intro conjI exI [of _ "length as + k"]) auto

lemma drive_recv_inv:
  assumes inv: "drive_inv normaliser st" and run: "dv_exit st = None" and msg: "dv_pending st = msg # rest"
  shows "drive_inv normaliser (drive_recv normaliser msg st)"
proof -
  let ?raw = "sent (ws_out (dv_wss st))" and ?t = "dv_taken st"
  let ?as = "arrivals normaliser (take ?t ?raw)" and ?here = "map (\<lambda>de. (de, snd msg)) (normaliser (fst msg))"
  have dr: "drop ?t ?raw = msg # rest" using msg by (simp add: dv_pending_def)
  then have lt: "?t < length ?raw" by (metis drop_all leI list.distinct(1))
  have nx: "take (Suc ?t) ?raw = take ?t ?raw @ [msg]"
    unfolding take_Suc_conv_app_nth [OF lt] hd_drop_conv_nth [OF lt, symmetric] dr by simp
  have ar: "arrivals normaliser (take (Suc ?t) ?raw) = ?as @ ?here"
    by (cases msg) (simp add: nx arrivals_append)
  obtain alive seq out where e: "emit_stamped (snd msg) (ws_rtt (dv_wss st)) (dv_epoch st) (normaliser (fst msg))
      (of_nat (length ?as)) (dv_out st) = (alive, seq, out)" by (metis prod_cases3)
  from inv run have sf: "stamped_from 0 ?as (sent (dv_out st))" and sq: "dv_recv_seq st = of_nat (length ?as)"
    by (auto simp: drive_inv_def)
  from emit_stamped_extends [OF e sf] obtain k where k: "k \<le> length ?here"
    "stamped_from 0 (?as @ take k ?here) (sent out)" "closes_after out = closes_after (dv_out st)"
    "alive \<longrightarrow> k = length ?here \<and> seq = of_nat (length (?as @ ?here))" "\<not> alive \<longrightarrow> closes_after (dv_out st) \<noteq> None"
    by (elim exE conjE) (rule that, simp_all only: length_map length_append)
  have st': "drive_recv normaliser msg st = st\<lparr>dv_taken := Suc ?t, dv_recv_seq := seq, dv_out := out,
      dv_exit := (if alive then None else Some TaskCompleted)\<rparr>"
    using e by (simp add: drive_recv_def sq)
  show ?thesis
  proof (cases alive)
    case True
    with k(2,4) have "stamped_from 0 (?as @ ?here) (sent out)" "seq = of_nat (length (?as @ ?here))" by simp_all
    with True lt show ?thesis unfolding st' by (intro drive_inv_running) (simp_all add: ar)
  next
    case False
    let ?bs = "?here @ arrivals normaliser (drop (Suc ?t) ?raw)"
    have sp: "arrivals normaliser ?raw = ?as @ ?bs"
      using arrivals_split [of normaliser "Suc ?t" ?raw] by (simp only: ar append_assoc)
    show ?thesis unfolding st'
    proof (rule drive_inv_ended)
      show "arrivals normaliser (sent (ws_out (dv_wss (st\<lparr>dv_taken := Suc ?t, dv_recv_seq := seq, dv_out := out,
          dv_exit := (if alive then None else Some TaskCompleted)\<rparr>)))) = ?as @ ?bs" using sp by simp
      show "k \<le> length ?bs" using k(1) by simp
    qed (use k False lt in simp_all)
  qed
qed

text \<open>The stream a flush produces, and any cut of it.\<close>

lemma drive_flush_extends:
  assumes inv: "drive_inv normaliser st" and run: "dv_exit st = None"
  obtains as bs k where "arrivals normaliser (sent (ws_out (dv_wss st))) = as @ bs" "k \<le> length bs"
    "stamped_from 0 as (sent (dv_out st))" "stamped_from 0 (as @ take k bs) (sent (drive_flush normaliser st))"
    "closes_after (dv_out st) = None \<longrightarrow> k = length bs"
proof -
  let ?raw = "sent (ws_out (dv_wss st))"
  let ?as = "arrivals normaliser (take (dv_taken st) ?raw)" and ?bs = "arrivals normaliser (dv_pending st)"
  from inv run have sf: "stamped_from 0 ?as (sent (dv_out st))" and sq: "dv_recv_seq st = of_nat (length ?as)"
    by (auto simp: drive_inv_def)
  from drain_buffered_extends [OF sf, of normaliser "dv_pending st" "ws_rtt (dv_wss st)" "dv_epoch st"] obtain k
    where "k \<le> length ?bs" "stamped_from 0 (?as @ take k ?bs) (sent (drive_flush normaliser st))"
      "closes_after (dv_out st) = None \<longrightarrow> k = length ?bs"
    by (elim exE conjE) (rule that, simp_all only: drive_flush_def sq)
  moreover have "arrivals normaliser ?raw = ?as @ ?bs" by (simp add: dv_pending_def arrivals_split)
  ultimately show ?thesis using sf by (intro that [of ?as ?bs k])
qed

lemma emit_stamped_closes: "emit_stamped r rtt epoch des seq out = (alive, seq', out') \<Longrightarrow> closes_after out' = closes_after out"
  by (induction des arbitrary: seq out) (auto simp: Let_def dest: send_Some split: option.splits)

lemma drain_buffered_closes: "closes_after (drain_buffered normaliser rtt epoch raw seq out) = closes_after out"
  by (induction normaliser rtt epoch raw seq out rule: drain_buffered.induct)
    (auto dest: emit_stamped_closes split: prod.splits bool.splits)

lemma flush_closes: "closes_after (drive_flush normaliser st) = closes_after (dv_out st)"
  by (simp add: drive_flush_def drain_buffered_closes)

text \<open>The buffer grew: what was delivered stays a prefix of the arrivals.\<close>

lemma drive_step_inv:
  assumes "drive_step H decode gz symbols declared W normaliser st st'" and "drive_inv normaliser st"
  shows "drive_inv normaliser st'"
  using assms
proof (induction rule: drive_step.induct)
  case (transport st wss)
  from transport_step_appends [OF transport(2)] obtain new where new: "sent (ws_out wss) = sent (ws_out (dv_wss st)) @ new" ..
  from transport(3) have "dv_taken st \<le> length (sent (ws_out (dv_wss st)))" by (simp add: drive_inv_def)
  with transport(1,3) show ?case by (intro drive_inv_running) (simp_all add: new drive_inv_def)
next
  case (recv st msg rest)
  then show ?case by (intro drive_recv_inv)
next
  case (closed st reason)
  then have "dv_taken st = length (sent (ws_out (dv_wss st)))" by (simp add: drive_inv_def dv_pending_def)
  with closed show ?case
    by (intro drive_inv_ended [where as = "arrivals normaliser (sent (ws_out (dv_wss st)))" and bs = "[]" and k = 0])
      (simp_all add: drive_inv_def)
next
  case (panicked st)
  then have "dv_taken st = length (sent (ws_out (dv_wss st)))" by (simp add: drive_inv_def dv_pending_def)
  with panicked show ?case
    by (intro drive_inv_ended [where as = "arrivals normaliser (sent (ws_out (dv_wss st)))" and bs = "[]" and k = 0])
      (simp_all add: drive_inv_def)
next
  case (shutdown_flushed st)
  from drive_flush_extends [OF shutdown_flushed(2,1)] obtain as bs k where f:
    "arrivals normaliser (sent (ws_out (dv_wss st))) = as @ bs" "k \<le> length bs"
    "stamped_from 0 (as @ take k bs) (sent (drive_flush normaliser st))" "closes_after (dv_out st) = None \<longrightarrow> k = length bs"
    by metis
  then show ?case using shutdown_flushed(2) flush_closes [of normaliser st]
    by (intro drive_inv_ended [where as = as and bs = bs and k = k]) (simp_all add: drive_inv_def)
next
  case (shutdown_cut st n)
  from drive_flush_extends [OF shutdown_cut(3,1)] obtain as bs k where f:
    "arrivals normaliser (sent (ws_out (dv_wss st))) = as @ bs" "k \<le> length bs"
    "stamped_from 0 as (sent (dv_out st))" "stamped_from 0 (as @ take k bs) (sent (drive_flush normaliser st))"
    by metis
  let ?n = "max n (length (sent (dv_out st)))"
  have len: "length (sent (dv_out st)) = length as" using f(3) by (simp add: stamped_from_def)
  then have "take ?n (as @ take k bs) = as @ take (min (?n - length as) k) bs" by (simp add: min.commute)
  with stamped_from_take [OF f(4), of ?n] f(1,2) show ?case using shutdown_cut(3)
    by (intro drive_inv_ended [where as = as and bs = bs and k = "min (?n - length as) k"]) (simp_all add: drive_inv_def)
qed

interpretation drive: step_invariant "drive_step H decode gz symbols declared W normaliser" "drive_inv normaliser"
  for H decode gz symbols declared W normaliser
  by unfold_locales (rule drive_step_inv)

lemma drive_run_inv:
  assumes "(drive_step H decode gz symbols declared W normaliser)\<^sup>*\<^sup>* (drive_start wss out) st" and "sent out = []"
  shows "drive_inv normaliser st"
proof (rule drive.reach_keeps [OF assms(1)])
  show "drive_inv normaliser (drive_start wss out)"
    by (rule drive_inv_running) (simp_all add: drive_start_def assms(2))
qed

lemma drive_step_closes:
  "drive_step H decode gz symbols declared W normaliser st st' \<Longrightarrow> closes_after (dv_out st') = closes_after (dv_out st)"
  by (induction rule: drive_step.induct) (auto simp: drive_recv_def flush_closes dest: emit_stamped_closes split: prod.splits)

section \<open>Properties of a connection\<close>


section \<open>Witness\<close>

definition sample_normaliser :: "nat \<Rightarrow> xdec domain_event list" where
  "sample_normaliser n = replicate (n - 1) (ConnectionGap (of_nat n))"


end
