(* ===== verification/Output.thy ===== *)
theory Output
  imports Runtime
begin

text \<open>
  Where a worker's data goes: the declared datatypes (\<open>aetelier-types/src/config/markets/market_config.rs\<close>),
  the topic channels (\<open>workers/topic_publisher.rs\<close>) and the sinks (\<open>workers/output/mod.rs\<close>).

  A \<open>tokio::sync::broadcast\<close> sender is its history of accepted messages and the number of its
  receivers; sending fails exactly when there is none.  Callbacks are the list of the values they
  were called with.  The persistence of a batch is a call of the injected flusher, whose answer is an
  argument.  The venue's raw event type is a type parameter.
\<close>

section \<open>Declared datatypes\<close>

record data_types_section =
  ds_orderbook :: bool
  ds_depth :: usize
  ds_trades :: bool
  ds_liquidations :: bool
  ds_funding_rates :: bool
  ds_open_interest :: bool

definition declared_all :: "declared_datatype list" where
  "declared_all = [DtOrderbook, DtTrades, DtLiquidations, DtFundingRates, DtOpenInterest]"

fun datatype_id :: "declared_datatype \<Rightarrow> string" where
  "datatype_id DtOrderbook = ''orderbook''"
| "datatype_id DtTrades = ''trades''"
| "datatype_id DtLiquidations = ''liquidations''"
| "datatype_id DtFundingRates = ''funding_rates''"
| "datatype_id DtOpenInterest = ''open_interest''"

fun section_enables :: "data_types_section \<Rightarrow> declared_datatype \<Rightarrow> bool" where
  "section_enables s DtOrderbook = ds_orderbook s"
| "section_enables s DtTrades = ds_trades s"
| "section_enables s DtLiquidations = ds_liquidations s"
| "section_enables s DtFundingRates = ds_funding_rates s"
| "section_enables s DtOpenInterest = ds_open_interest s"

definition declared_from_section :: "data_types_section \<Rightarrow> declared_datatype list" where
  "declared_from_section s = filter (section_enables s) declared_all"

definition declared_without :: "declared_datatype \<Rightarrow> declared_datatype list \<Rightarrow> declared_datatype list" where
  "declared_without dt = filter (\<lambda>d. d \<noteq> dt)"

definition enabled_names :: "data_types_section \<Rightarrow> string list" where
  "enabled_names s =
     (if ds_orderbook s then [''orderbook''] else []) @ (if ds_trades s then [''trades''] else [])
     @ (if ds_liquidations s then [''liquidations''] else []) @ (if ds_funding_rates s then [''funding_rates''] else [])
     @ (if ds_open_interest s then [''open_interest''] else [])"

section \<open>Topics\<close>

record 'm broadcast =
  bc_sent :: "'m list"
  bc_receivers :: nat

definition bc_new :: "'m broadcast" where
  "bc_new = \<lparr>bc_sent = [], bc_receivers = 0\<rparr>"

definition bc_send :: "'m \<Rightarrow> 'm broadcast \<Rightarrow> (nat, unit) result \<times> 'm broadcast" where
  "bc_send m b = (if bc_receivers b = 0 then (Err (), b) else (Ok (bc_receivers b), b\<lparr>bc_sent := bc_sent b @ [m]\<rparr>))"

definition bc_subscribe :: "'m broadcast \<Rightarrow> 'm broadcast" where
  "bc_subscribe b = b\<lparr>bc_receivers := bc_receivers b + 1\<rparr>"

record 'x topic_message =
  tm_topic :: string
  tm_received_at_us :: u64
  tm_exchange :: string
  tm_payload :: 'x

record 'm topic_publisher =
  tp_topic :: string
  tp_tx :: "'m broadcast"
  tp_cap :: usize

type_synonym 'm topic_registry = "(string, 'm topic_publisher) hash_map"

datatype publish_error = UnknownTopic string

definition DEFAULT_SNAPSHOT_CHANNEL_CAPACITY :: usize where
  "DEFAULT_SNAPSHOT_CHANNEL_CAPACITY = 1024"

definition topic_publisher_new :: "string \<Rightarrow> usize \<Rightarrow> 'm topic_publisher" where
  "topic_publisher_new topic capacity = \<lparr>tp_topic = topic, tp_tx = bc_new, tp_cap = capacity\<rparr>"

text \<open>The topic names of a configuration, in the order the code inserts them.\<close>

definition orderbook_topic :: "usize \<Rightarrow> string \<Rightarrow> string" where
  "orderbook_topic depth symbol = ''orderbook.'' @ nat_digits depth @ ''.'' @ symbol"

definition config_topics :: "string \<Rightarrow> data_types_section \<Rightarrow> string list" where
  "config_topics symbol s =
     (if ds_orderbook s then [orderbook_topic (ds_depth s) symbol] else [])
     @ (if ds_trades s then [''trade.all.'' @ symbol] else [])
     @ (if ds_liquidations s then [''liquidation.all.'' @ symbol] else [])
     @ (if ds_funding_rates s then [''funding.all.'' @ symbol] else [])
     @ (if ds_open_interest s then [''open_interest.all.'' @ symbol] else [])"

definition with_topics :: "string list \<Rightarrow> usize \<Rightarrow> 'm topic_registry" where
  "with_topics topics capacity = fold (\<lambda>t reg. hm_insert t (topic_publisher_new t capacity) reg) topics []"

definition registry_from_config :: "string \<Rightarrow> data_types_section \<Rightarrow> usize \<Rightarrow> 'm topic_registry" where
  "registry_from_config symbol s capacity = with_topics (config_topics symbol s) capacity"

definition registry_subscribe :: "string \<Rightarrow> 'm topic_registry \<Rightarrow> bool \<times> 'm topic_registry" where
  "registry_subscribe topic reg =
     (case hm_get reg topic of
        None \<Rightarrow> (False, reg)
      | Some p \<Rightarrow> (True, hm_insert topic (p\<lparr>tp_tx := bc_subscribe (tp_tx p)\<rparr>) reg))"

definition publish :: "string \<Rightarrow> 'm \<Rightarrow> 'm topic_registry \<Rightarrow> (nat, publish_error) result \<times> 'm topic_registry" where
  "publish topic msg reg =
     (case hm_get reg topic of
        None \<Rightarrow> (Err (UnknownTopic topic), reg)
      | Some p \<Rightarrow>
          (case bc_send msg (tp_tx p) of
             (Ok n, tx) \<Rightarrow> (Ok n, hm_insert topic (p\<lparr>tp_tx := tx\<rparr>) reg)
           | (Err _, tx) \<Rightarrow> (Ok 0, reg)))"

text \<open>
  How full the topics are.  \<open>pending t\<close> is the number of messages \<open>broadcast::Sender::len\<close> reports
  for the topic, which depends on the receivers' positions.  Ratios are exact rationals.
\<close>

definition max_fill_ratio :: "(string \<Rightarrow> nat) \<Rightarrow> 'm topic_registry \<Rightarrow> rat option" where
  "max_fill_ratio pending reg =
     fold (\<lambda>r acc. Some (case acc of None \<Rightarrow> r | Some a \<Rightarrow> max a r))
       (map (\<lambda>p. of_nat (pending (tp_topic p)) / of_nat (tp_cap p)) (filter (\<lambda>p. tp_cap p > 0) (map snd reg))) None"

definition queue_stats :: "(string \<Rightarrow> nat) \<Rightarrow> 'm topic_registry \<Rightarrow> nat \<times> nat" where
  "queue_stats pending reg = (sum_list (map (pending \<circ> tp_topic \<circ> snd) reg), sum_list (map (tp_cap \<circ> snd) reg))"

text \<open>The registry of normalised topics: it has no liquidation topic.\<close>

type_synonym 'm domain_topic_registry = "(string, 'm broadcast) hash_map"

definition domain_topics :: "string \<Rightarrow> data_types_section \<Rightarrow> string list" where
  "domain_topics symbol s =
     (if ds_orderbook s then [orderbook_topic (ds_depth s) symbol] else [])
     @ (if ds_trades s then [''trade.all.'' @ symbol] else [])
     @ (if ds_funding_rates s then [''funding.all.'' @ symbol] else [])
     @ (if ds_open_interest s then [''open_interest.all.'' @ symbol] else [])"

definition domain_registry_from_config :: "string \<Rightarrow> data_types_section \<Rightarrow> 'm domain_topic_registry" where
  "domain_registry_from_config symbol s = fold (\<lambda>t reg. hm_insert t bc_new reg) (domain_topics symbol s) []"

definition domain_publish ::
  "string \<Rightarrow> 'm \<Rightarrow> 'm domain_topic_registry \<Rightarrow> (nat, publish_error) result \<times> 'm domain_topic_registry"
where
  "domain_publish topic msg reg =
     (case hm_get reg topic of
        None \<Rightarrow> (Err (UnknownTopic topic), reg)
      | Some tx \<Rightarrow>
          (case bc_send msg tx of
             (Ok n, tx) \<Rightarrow> (Ok n, hm_insert topic tx reg)
           | (Err _, tx) \<Rightarrow> (Ok 0, reg)))"

section \<open>Sink status\<close>

datatype sink_state = SinkIdle | SinkStreaming | SinkWriting | SinkBackpressured | SinkError

record sink_status =
  ss_name :: string
  ss_state :: sink_state
  ss_events_emitted :: u64
  ss_bytes_written :: "u64 option"
  ss_queue_depth :: "nat option"
  ss_queue_capacity :: "nat option"
  ss_lag_events :: "u64 option"
  ss_output_dir :: "string option"

definition sink_status_new :: "string \<Rightarrow> sink_state \<Rightarrow> u64 \<Rightarrow> sink_status" where
  "sink_status_new name state events =
     \<lparr>ss_name = name, ss_state = state, ss_events_emitted = events, ss_bytes_written = None,
      ss_queue_depth = None, ss_queue_capacity = None, ss_lag_events = None, ss_output_dir = None\<rparr>"

section \<open>The sinks\<close>

record ('x, 'd) channel_sink =
  cs_registry :: "'x topic_message topic_registry"
  cs_snapshots :: "'d market_snapshot broadcast"
  cs_snapshot_cap :: usize
  cs_emitted :: u64
  cs_dropped :: u64

record 'd domain_channel_sink =
  dc_registry :: "'d domain_event topic_message domain_topic_registry"
  dc_exchange :: string
  dc_emitted :: u64
  dc_dropped :: u64

record terminal_sink =
  tk_events :: u64
  tk_callback :: "(string \<times> u64) list option"

record flush_event =
  fe_snapshot_count :: nat
  fe_bytes_written :: u64
  fe_files_written :: u32
  fe_total_bytes :: u64
  fe_total_files :: u64
  fe_flushed_at_us :: u64

record flush_report =
  fp_bytes_written :: u64
  fp_files_written :: u32

record 'd buffered_sink =
  bs_output_dir :: string
  bs_buffer :: "'d market_snapshot list"
  bs_events_emitted :: u64
  bs_bytes_written :: u64
  bs_files_written :: u64
  bs_flush_failures :: u64
  bs_dropped_snapshots :: u64
  bs_flush_callback :: "flush_event list option"
  bs_declared :: "declared_datatype list"
  bs_undeclared_stripped :: u64

definition MAX_BUFFERED_SNAPSHOTS :: nat where
  "MAX_BUFFERED_SNAPSHOTS = 200000"

definition OVERFLOW_DROP_CHUNK :: nat where
  "OVERFLOW_DROP_CHUNK = 8192"

definition channel_emit_raw :: "('x \<Rightarrow> string) \<Rightarrow> string \<Rightarrow> 'x \<Rightarrow> u64 \<Rightarrow> ('x, 'd) channel_sink \<Rightarrow> ('x, 'd) channel_sink" where
  "channel_emit_raw venue topic event received_at_us s =
     (case publish topic \<lparr>tm_topic = topic, tm_received_at_us = received_at_us, tm_exchange = venue event,
                          tm_payload = event\<rparr> (cs_registry s) of
        (Ok _, reg) \<Rightarrow> s\<lparr>cs_registry := reg, cs_emitted := cs_emitted s + 1\<rparr>
      | (Err _, reg) \<Rightarrow> s\<lparr>cs_dropped := cs_dropped s + 1\<rparr>)"

definition channel_emit_snapshot :: "'d market_snapshot \<Rightarrow> ('x, 'd) channel_sink \<Rightarrow> ('x, 'd) channel_sink" where
  "channel_emit_snapshot snapshot s =
     (if bc_receivers (cs_snapshots s) > 0 then
        (case bc_send snapshot (cs_snapshots s) of
           (Ok _, tx) \<Rightarrow> s\<lparr>cs_snapshots := tx, cs_emitted := cs_emitted s + 1\<rparr>
         | (Err _, tx) \<Rightarrow> s)
      else s)"

definition channel_status :: "(string \<Rightarrow> nat) \<Rightarrow> nat \<Rightarrow> ('x, 'd) channel_sink \<Rightarrow> sink_status" where
  "channel_status pending snapshots_pending s =
     (let (depth, capacity) = queue_stats pending (cs_registry s);
          worst_fill = unwrap_or (max_fill_ratio pending (cs_registry s)) 0;
          worst_fill = (if cs_snapshot_cap s > 0 then max worst_fill (of_nat snapshots_pending / of_nat (cs_snapshot_cap s))
                        else worst_fill);
          state = (if cs_dropped s > 0 then SinkError else if worst_fill > 4 / 5 then SinkBackpressured
                   else if cs_emitted s > 0 then SinkStreaming else SinkIdle)
      in (sink_status_new ''channel'' state (cs_emitted s))\<lparr>ss_queue_depth := Some depth, ss_queue_capacity := Some capacity\<rparr>)"

definition domain_emit :: "string \<Rightarrow> 'd domain_event \<Rightarrow> u64 \<Rightarrow> 'd domain_channel_sink \<Rightarrow> 'd domain_channel_sink" where
  "domain_emit topic event received_at_us s =
     (case domain_publish topic \<lparr>tm_topic = topic, tm_received_at_us = received_at_us, tm_exchange = dc_exchange s,
                                 tm_payload = event\<rparr> (dc_registry s) of
        (Ok _, reg) \<Rightarrow> s\<lparr>dc_registry := reg, dc_emitted := dc_emitted s + 1\<rparr>
      | (Err _, reg) \<Rightarrow> s\<lparr>dc_dropped := dc_dropped s + 1\<rparr>)"

definition domain_status :: "'d domain_channel_sink \<Rightarrow> sink_status" where
  "domain_status s =
     sink_status_new ''domain_channel''
       (if dc_dropped s > 0 then SinkError else if dc_emitted s > 0 then SinkStreaming else SinkIdle) (dc_emitted s)"

definition terminal_emit_raw :: "string \<Rightarrow> u64 \<Rightarrow> terminal_sink \<Rightarrow> terminal_sink" where
  "terminal_emit_raw topic received_at_us s =
     s\<lparr>tk_events := tk_events s + 1, tk_callback := map_option (\<lambda>calls. calls @ [(topic, received_at_us)]) (tk_callback s)\<rparr>"

definition snapshot_topic :: "'d market_snapshot \<Rightarrow> string" where
  "snapshot_topic s =
     (let parts = (if ms_orderbook s \<noteq> None then [''orderbook''] else []) @ (if ms_trades s \<noteq> [] then [''trades''] else [])
            @ (if ms_liquidations s \<noteq> [] then [''liquidations''] else []) @ (if ms_funding_rate s \<noteq> [] then [''funding''] else [])
            @ (if ms_open_interest s \<noteq> [] then [''oi''] else [])
      in if parts = [] then ''snapshot'' else ''snapshot:'' @ join ''+'' parts)"

definition terminal_emit_snapshot :: "'d market_snapshot \<Rightarrow> terminal_sink \<Rightarrow> terminal_sink" where
  "terminal_emit_snapshot snapshot s =
     s\<lparr>tk_events := tk_events s + 1,
       tk_callback := map_option (\<lambda>calls. calls @ [(snapshot_topic snapshot, ms_ts_us snapshot)]) (tk_callback s)\<rparr>"

definition terminal_status :: "terminal_sink \<Rightarrow> sink_status" where
  "terminal_status s = sink_status_new ''terminal'' (if tk_events s > 0 then SinkStreaming else SinkIdle) (tk_events s)"

section \<open>The buffered sink\<close>

definition buffered_new :: "string \<Rightarrow> flush_event list option \<Rightarrow> declared_datatype list \<Rightarrow> 'd buffered_sink" where
  "buffered_new dir cb declared =
     \<lparr>bs_output_dir = dir, bs_buffer = [], bs_events_emitted = 0, bs_bytes_written = 0, bs_files_written = 0,
      bs_flush_failures = 0, bs_dropped_snapshots = 0, bs_flush_callback = cb, bs_declared = declared,
      bs_undeclared_stripped = 0\<rparr>"

text \<open>One iteration of the loop over the datatypes: what is left of the snapshot and how much was stripped.\<close>

fun strip_kind :: "declared_datatype \<Rightarrow> 'd market_snapshot \<times> u64 \<Rightarrow> 'd market_snapshot \<times> u64" where
  "strip_kind DtOrderbook (out, n) =
     (out\<lparr>ms_orderbook := None\<rparr>, n + (if ms_orderbook out \<noteq> None then 1 else 0))"
| "strip_kind DtTrades (out, n) = (out\<lparr>ms_trades := []\<rparr>, n + of_nat (length (ms_trades out)))"
| "strip_kind DtLiquidations (out, n) = (out\<lparr>ms_liquidations := []\<rparr>, n + of_nat (length (ms_liquidations out)))"
| "strip_kind DtFundingRates (out, n) = (out\<lparr>ms_funding_rate := []\<rparr>, n + of_nat (length (ms_funding_rate out)))"
| "strip_kind DtOpenInterest (out, n) = (out\<lparr>ms_open_interest := []\<rparr>, n + of_nat (length (ms_open_interest out)))"

definition strip_undeclared :: "declared_datatype list \<Rightarrow> 'd market_snapshot \<Rightarrow> 'd market_snapshot \<times> u64" where
  "strip_undeclared declared snapshot =
     fold (\<lambda>dt acc. if dt \<in> set declared then acc else strip_kind dt acc) declared_all (snapshot, 0)"

definition buffered_emit_snapshot :: "'d market_snapshot \<Rightarrow> 'd buffered_sink \<Rightarrow> 'd buffered_sink" where
  "buffered_emit_snapshot snapshot s =
     (let (snapshot, stripped) = strip_undeclared (bs_declared s) snapshot;
          s = s\<lparr>bs_events_emitted := bs_events_emitted s + 1, bs_undeclared_stripped := bs_undeclared_stripped s + stripped\<rparr>;
          s = (if length (bs_buffer s) \<ge> MAX_BUFFERED_SNAPSHOTS
               then let n = min OVERFLOW_DROP_CHUNK (length (bs_buffer s))
                    in s\<lparr>bs_buffer := drop n (bs_buffer s), bs_dropped_snapshots := bs_dropped_snapshots s + of_nat n\<rparr>
               else s)
      in s\<lparr>bs_buffer := bs_buffer s @ [snapshot]\<rparr>)"

text \<open>\<open>fl batch dir\<close> is the flusher's answer.\<close>

definition buffered_flush ::
  "('d market_snapshot list \<Rightarrow> string \<Rightarrow> (flush_report, string) result) \<Rightarrow> u64 \<Rightarrow> 'd buffered_sink
     \<Rightarrow> (unit, string) result \<times> 'd buffered_sink"
where
  "buffered_flush fl now_us s =
     (if bs_buffer s = [] then (Ok (), s)
      else case fl (bs_buffer s) (bs_output_dir s) of
             Err e \<Rightarrow> (Err e, s\<lparr>bs_flush_failures := bs_flush_failures s + 1\<rparr>)
           | Ok report \<Rightarrow>
               (let n = length (bs_buffer s);
                    s = s\<lparr>bs_buffer := [], bs_bytes_written := bs_bytes_written s + fp_bytes_written report,
                          bs_files_written := bs_files_written s + ucast (fp_files_written report)\<rparr>;
                    ev = \<lparr>fe_snapshot_count = n, fe_bytes_written = fp_bytes_written report,
                          fe_files_written = fp_files_written report, fe_total_bytes = bs_bytes_written s,
                          fe_total_files = bs_files_written s, fe_flushed_at_us = now_us\<rparr>
                in (Ok (), s\<lparr>bs_flush_callback := map_option (\<lambda>calls. calls @ [ev]) (bs_flush_callback s)\<rparr>)))"

definition buffered_status :: "'d buffered_sink \<Rightarrow> sink_status" where
  "buffered_status s =
     (sink_status_new ''buffered''
        (if bs_buffer s \<noteq> [] then SinkWriting else if bs_events_emitted s > 0 then SinkStreaming else SinkIdle)
        (bs_events_emitted s))
      \<lparr>ss_bytes_written := Some (bs_bytes_written s), ss_queue_depth := Some (length (bs_buffer s)),
       ss_output_dir := Some (bs_output_dir s)\<rparr>"

section \<open>The set of sinks\<close>

datatype ('x, 'd) sink =
    Channel "('x, 'd) channel_sink"
  | DomainChannel "'d domain_channel_sink"
  | Terminal terminal_sink
  | Buffered "'d buffered_sink"

type_synonym ('x, 'd) sink_set = "('x, 'd) sink list"

fun sink_emit_raw :: "('x \<Rightarrow> string) \<Rightarrow> string \<Rightarrow> 'x \<Rightarrow> u64 \<Rightarrow> ('x, 'd) sink \<Rightarrow> ('x, 'd) sink" where
  "sink_emit_raw venue topic event at_us (Channel s) = Channel (channel_emit_raw venue topic event at_us s)"
| "sink_emit_raw venue topic event at_us (Terminal s) = Terminal (terminal_emit_raw topic at_us s)"
| "sink_emit_raw venue topic event at_us s = s"

fun sink_emit_domain :: "string \<Rightarrow> 'd domain_event \<Rightarrow> u64 \<Rightarrow> ('x, 'd) sink \<Rightarrow> ('x, 'd) sink" where
  "sink_emit_domain topic event at_us (DomainChannel s) = DomainChannel (domain_emit topic event at_us s)"
| "sink_emit_domain topic event at_us s = s"

fun sink_emit_snapshot :: "'d market_snapshot \<Rightarrow> ('x, 'd) sink \<Rightarrow> ('x, 'd) sink" where
  "sink_emit_snapshot snapshot (Channel s) = Channel (channel_emit_snapshot snapshot s)"
| "sink_emit_snapshot snapshot (Terminal s) = Terminal (terminal_emit_snapshot snapshot s)"
| "sink_emit_snapshot snapshot (Buffered s) = Buffered (buffered_emit_snapshot snapshot s)"
| "sink_emit_snapshot snapshot (DomainChannel s) = DomainChannel s"

fun sink_flush ::
  "('d market_snapshot list \<Rightarrow> string \<Rightarrow> (flush_report, string) result) \<Rightarrow> u64 \<Rightarrow> ('x, 'd) sink
     \<Rightarrow> (unit, string) result \<times> ('x, 'd) sink"
where
  "sink_flush fl now_us (Buffered s) = (case buffered_flush fl now_us s of (r, s) \<Rightarrow> (r, Buffered s))"
| "sink_flush fl now_us s = (Ok (), s)"

text \<open>The fan-out: a sink's error is logged and the call goes on; the set answers \<open>Ok\<close> in every case.\<close>

definition set_emit_raw :: "('x \<Rightarrow> string) \<Rightarrow> string \<Rightarrow> 'x \<Rightarrow> u64 \<Rightarrow> ('x, 'd) sink_set \<Rightarrow> ('x, 'd) sink_set" where
  "set_emit_raw venue topic event at_us = map (sink_emit_raw venue topic event at_us)"

definition set_emit_domain :: "string \<Rightarrow> 'd domain_event \<Rightarrow> u64 \<Rightarrow> ('x, 'd) sink_set \<Rightarrow> ('x, 'd) sink_set" where
  "set_emit_domain topic event at_us = map (sink_emit_domain topic event at_us)"

definition set_emit_snapshot :: "'d market_snapshot \<Rightarrow> ('x, 'd) sink_set \<Rightarrow> ('x, 'd) sink_set" where
  "set_emit_snapshot snapshot = map (sink_emit_snapshot snapshot)"

definition set_flush ::
  "('d market_snapshot list \<Rightarrow> string \<Rightarrow> (flush_report, string) result) \<Rightarrow> u64 \<Rightarrow> ('x, 'd) sink_set
     \<Rightarrow> (unit, string) result \<times> ('x, 'd) sink_set"
where
  "set_flush fl now_us sinks = (Ok (), map (\<lambda>s. snd (sink_flush fl now_us s)) sinks)"

section \<open>Building the sinks\<close>

datatype output_sink_config = CfgChannel | CfgTerminal | CfgParquet string

record ('x, 'd) sink_parts =
  sp_registry :: "'x topic_message topic_registry option"
  sp_snapshots :: "('d market_snapshot broadcast \<times> usize) option"
  sp_flusher :: bool
  sp_terminal_cb :: "(string \<times> u64) list option"
  sp_flush_cb :: "flush_event list option"

text \<open>
  One iteration: each part is taken by the first sink that wants it.  A Parquet sink without a
  flusher is an error.
\<close>

fun build_sink ::
  "declared_datatype list \<Rightarrow> output_sink_config \<Rightarrow> ('x, 'd) sink_parts
     \<Rightarrow> (('x, 'd) sink option \<times> ('x, 'd) sink_parts, string) result"
where
  "build_sink declared CfgChannel parts =
     (case sp_registry parts of
        None \<Rightarrow> Ok (None, parts)
      | Some reg \<Rightarrow>
          (let (snaps, cap) = unwrap_or (sp_snapshots parts) (bc_new, DEFAULT_SNAPSHOT_CHANNEL_CAPACITY)
           in Ok (Some (Channel \<lparr>cs_registry = reg, cs_snapshots = snaps, cs_snapshot_cap = cap,
                                  cs_emitted = 0, cs_dropped = 0\<rparr>),
                  parts\<lparr>sp_registry := None, sp_snapshots := None\<rparr>)))"
| "build_sink declared CfgTerminal parts =
     Ok (Some (Terminal \<lparr>tk_events = 0, tk_callback = sp_terminal_cb parts\<rparr>), parts\<lparr>sp_terminal_cb := None\<rparr>)"
| "build_sink declared (CfgParquet dir) parts =
     (if \<not> sp_flusher parts then Err ''parquet sink without a flusher''
      else Ok (Some (Buffered (buffered_new dir (sp_flush_cb parts) declared)),
               parts\<lparr>sp_flusher := False, sp_flush_cb := None\<rparr>))"

fun build_sinks ::
  "declared_datatype list \<Rightarrow> output_sink_config list \<Rightarrow> ('x, 'd) sink_parts \<Rightarrow> ('x, 'd) sink_set
     \<Rightarrow> (('x, 'd) sink_set, string) result"
where
  "build_sinks declared [] parts acc = Ok acc"
| "build_sinks declared (c # cs) parts acc =
     (case build_sink declared c parts of
        Err e \<Rightarrow> Err e
      | Ok (sink, parts) \<Rightarrow> build_sinks declared cs parts (acc @ (case sink of None \<Rightarrow> [] | Some s \<Rightarrow> [s])))"

section \<open>Stripping\<close>

lemma strip_undeclared_fields:
  "ms_ts_us (fst (strip_undeclared declared s)) = ms_ts_us s"
  "ms_funding_settlements (fst (strip_undeclared declared s)) = ms_funding_settlements s"
  "ms_orderbook (fst (strip_undeclared declared s)) = (if DtOrderbook \<in> set declared then ms_orderbook s else None)"
  "ms_trades (fst (strip_undeclared declared s)) = (if DtTrades \<in> set declared then ms_trades s else [])"
  "ms_liquidations (fst (strip_undeclared declared s)) = (if DtLiquidations \<in> set declared then ms_liquidations s else [])"
  "ms_funding_rate (fst (strip_undeclared declared s)) = (if DtFundingRates \<in> set declared then ms_funding_rate s else [])"
  "ms_open_interest (fst (strip_undeclared declared s)) = (if DtOpenInterest \<in> set declared then ms_open_interest s else [])"
  by (simp_all add: strip_undeclared_def declared_all_def)

lemma strip_all_declared: "strip_undeclared declared_all s = (s, 0)"
  by (simp add: strip_undeclared_def declared_all_def)

text \<open>The declared set of a configuration lists the same feeds, in the same order, as its enabled names.\<close>

lemma enabled_names_declared: "enabled_names s = map datatype_id (declared_from_section s)"
  by (simp add: enabled_names_def declared_from_section_def declared_all_def)

section \<open>Backpressure\<close>

lemma fold_max_above:
  "(\<exists>m. fold (\<lambda>r acc. Some (case acc of None \<Rightarrow> r | Some a \<Rightarrow> max a r)) rs acc = Some m \<and> m > c)
     \<longleftrightarrow> (\<exists>r\<in>set rs. r > c) \<or> (\<exists>a. acc = Some a \<and> a > (c :: rat))"
  by (induction rs arbitrary: acc) (auto split: option.splits simp: less_max_iff_disj)

lemma max_fill_ratio_above:
  assumes "c \<ge> 0"
  shows "unwrap_or (max_fill_ratio pending reg) 0 > c
     \<longleftrightarrow> (\<exists>p\<in>set (map snd reg). tp_cap p > 0 \<and> of_nat (pending (tp_topic p)) / of_nat (tp_cap p) > c)"
  using assms fold_max_above[of "map (\<lambda>p. of_nat (pending (tp_topic p)) / of_nat (tp_cap p)) (filter (\<lambda>p. tp_cap p > 0) (map snd reg))" None c]
  by (auto simp: max_fill_ratio_def unwrap_or_def split: option.splits)

text \<open>One saturated topic is enough, whatever the aggregate.\<close>

lemma backpressure_on_worst_channel:
  "ss_state (channel_status pending n s) = SinkBackpressured \<longleftrightarrow>
     cs_dropped s = 0
     \<and> ((\<exists>p\<in>set (map snd (cs_registry s)). tp_cap p > 0 \<and> 5 * pending (tp_topic p) > 4 * tp_cap p)
        \<or> cs_snapshot_cap s > 0 \<and> 5 * n > 4 * cs_snapshot_cap s)"
proof -
  have ratio: "(of_nat a / of_nat b > (4 / 5 :: rat)) = (5 * a > 4 * b)" if "b > 0" for a b :: nat
  proof -
    have "(of_nat a / of_nat b > (4 / 5 :: rat)) = (5 * of_nat a > (4 * of_nat b :: rat))"
      using that by (simp add: divide_less_eq less_divide_eq mult.commute)
    also have "\<dots> = (of_nat (5 * a) > (of_nat (4 * b) :: rat))" by simp
    finally show ?thesis by (simp only: of_nat_less_iff)
  qed
  have "unwrap_or (max_fill_ratio pending (cs_registry s)) 0 > 4 / 5
      \<longleftrightarrow> (\<exists>p\<in>set (map snd (cs_registry s)). tp_cap p > 0 \<and> 5 * pending (tp_topic p) > 4 * tp_cap p)"
    by (subst max_fill_ratio_above) (simp, rule bex_cong[OF refl], metis ratio)
  moreover have "(if cs_snapshot_cap s > 0 then max w (of_nat n / of_nat (cs_snapshot_cap s)) else w) > (4 / 5 :: rat)
      \<longleftrightarrow> w > 4 / 5 \<or> cs_snapshot_cap s > 0 \<and> 5 * n > 4 * cs_snapshot_cap s" for w
    using ratio[of "cs_snapshot_cap s" n] by (cases "cs_snapshot_cap s > 0") (simp_all only: less_max_iff_disj if_True if_False simp_thms)
  ultimately show ?thesis
    by (simp only: channel_status_def sink_status_new_def Let_def case_prod_beta sink_status.simps word_gt_0 split: if_split)
       (auto simp: sink_status.defs)
qed

section \<open>A history of the buffered sink\<close>

datatype 'd sink_op =
    OpEmit "'d market_snapshot"
  | OpFlush "'d market_snapshot list \<Rightarrow> string \<Rightarrow> (flush_report, string) result" u64

text \<open>One operation, with the snapshots the flusher has accepted so far.\<close>

fun do_sink_op :: "'d sink_op \<Rightarrow> 'd market_snapshot list \<times> 'd buffered_sink \<Rightarrow> 'd market_snapshot list \<times> 'd buffered_sink" where
  "do_sink_op (OpEmit x) (written, s) = (written, buffered_emit_snapshot x s)"
| "do_sink_op (OpFlush fl now_us) (written, s) =
     (case buffered_flush fl now_us s of
        (Ok _, s') \<Rightarrow> (written @ bs_buffer s, s')
      | (Err _, s') \<Rightarrow> (written, s'))"

fun emitted_by :: "'d sink_op list \<Rightarrow> 'd market_snapshot list" where
  "emitted_by [] = []"
| "emitted_by (OpEmit x # ops) = x # emitted_by ops"
| "emitted_by (OpFlush _ _ # ops) = emitted_by ops"

lemma emitted_by_append: "emitted_by (a @ b) = emitted_by a @ emitted_by b"
  by (induction a rule: emitted_by.induct) auto

definition sink_inv :: "declared_datatype list \<Rightarrow> 'd market_snapshot list \<Rightarrow> 'd market_snapshot list \<times> 'd buffered_sink \<Rightarrow> bool" where
  "sink_inv declared emitted = (\<lambda>(written, s).
     bs_declared s = declared
     \<and> subseq (written @ bs_buffer s) emitted
     \<and> bs_dropped_snapshots s = of_nat (length emitted - length (written @ bs_buffer s))
     \<and> length (bs_buffer s) \<le> MAX_BUFFERED_SNAPSHOTS
     \<and> (length emitted \<le> MAX_BUFFERED_SNAPSHOTS \<longrightarrow> written @ bs_buffer s = emitted))"

lemma buffered_emit_cases:
  obtains (room) "length (bs_buffer s) < MAX_BUFFERED_SNAPSHOTS"
      "bs_buffer (buffered_emit_snapshot x s) = bs_buffer s @ [fst (strip_undeclared (bs_declared s) x)]"
      "bs_dropped_snapshots (buffered_emit_snapshot x s) = bs_dropped_snapshots s"
  | (full) "length (bs_buffer s) \<ge> MAX_BUFFERED_SNAPSHOTS"
      "bs_buffer (buffered_emit_snapshot x s)
         = drop OVERFLOW_DROP_CHUNK (bs_buffer s) @ [fst (strip_undeclared (bs_declared s) x)]"
      "bs_dropped_snapshots (buffered_emit_snapshot x s) = bs_dropped_snapshots s + of_nat OVERFLOW_DROP_CHUNK"
proof (cases "length (bs_buffer s) < MAX_BUFFERED_SNAPSHOTS")
  case True
  then show ?thesis by (intro room) (auto simp: buffered_emit_snapshot_def Let_def split: prod.splits)
next
  case False
  then have "min OVERFLOW_DROP_CHUNK (length (bs_buffer s)) = OVERFLOW_DROP_CHUNK"
    by (simp add: OVERFLOW_DROP_CHUNK_def MAX_BUFFERED_SNAPSHOTS_def)
  with False show ?thesis by (intro full) (auto simp: buffered_emit_snapshot_def Let_def split: prod.splits)
qed

lemma buffered_emit_declared [simp]: "bs_declared (buffered_emit_snapshot x s) = bs_declared s"
  by (auto simp: buffered_emit_snapshot_def Let_def split: prod.splits)

lemma emit_inv:
  assumes "sink_inv declared emitted (written, s)"
  shows "sink_inv declared (emitted @ [fst (strip_undeclared declared x)]) (written, buffered_emit_snapshot x s)"
proof -
  from assms have d: "bs_declared s = declared" and ss: "subseq (written @ bs_buffer s) emitted"
    and dr: "bs_dropped_snapshots s = of_nat (length emitted - length (written @ bs_buffer s))"
    and len: "length (bs_buffer s) \<le> MAX_BUFFERED_SNAPSHOTS"
    and all: "length emitted \<le> MAX_BUFFERED_SNAPSHOTS \<longrightarrow> written @ bs_buffer s = emitted"
    by (auto simp: sink_inv_def)
  let ?x = "fst (strip_undeclared declared x)"
  have le: "length (written @ bs_buffer s) \<le> length emitted" using ss by (rule list_emb_length)
  show ?thesis
  proof (cases rule: buffered_emit_cases [of s x])
    case room
    from ss have "subseq ((written @ bs_buffer s) @ [?x]) (emitted @ [?x])" by (intro list_emb_append_mono) auto
    with room d dr all le show ?thesis by (simp add: sink_inv_def)
  next
    case full
    let ?n = OVERFLOW_DROP_CHUNK
    have n: "0 < ?n" "?n \<le> length (bs_buffer s)" using full(1) by (simp_all add: OVERFLOW_DROP_CHUNK_def MAX_BUFFERED_SNAPSHOTS_def)
    have "subseq (written @ drop ?n (bs_buffer s)) (written @ bs_buffer s)"
      by (metis append_take_drop_id subseq_append_iff subseq_drop_many subseq_order.order_refl)
    then have "subseq ((written @ drop ?n (bs_buffer s)) @ [?x]) (emitted @ [?x])"
      using ss by (intro list_emb_append_mono) (auto intro: subseq_order.trans)
    moreover have "length emitted \<ge> MAX_BUFFERED_SNAPSHOTS" using le full(1) by simp
    moreover have "(of_nat (length emitted - length (written @ bs_buffer s)) + of_nat ?n :: u64)
        = of_nat (length emitted - length (written @ drop ?n (bs_buffer s)))"
      using n le by (simp flip: of_nat_add)
    ultimately show ?thesis using full d dr len n by (simp add: sink_inv_def)
  qed
qed

lemma flush_inv:
  assumes "sink_inv declared emitted (written, s)"
  shows "sink_inv declared emitted (do_sink_op (OpFlush fl now_us) (written, s))"
  using assms by (auto simp: sink_inv_def buffered_flush_def Let_def split: result.splits)

lemma sink_run_inv:
  "sink_inv declared (map (fst \<circ> strip_undeclared declared) (emitted_by ops)) (fold do_sink_op ops ([], buffered_new dir cb declared))"
proof (induction ops rule: rev_induct)
  case Nil
  show ?case by (simp add: sink_inv_def buffered_new_def)
next
  case (snoc op ops)
  obtain w s where ws: "fold do_sink_op ops ([], buffered_new dir cb declared) = (w, s)" by fastforce
  show ?case
  proof (cases op)
    case (OpEmit x)
    then show ?thesis using emit_inv snoc.IH by (fastforce simp: ws emitted_by_append)
  next
    case (OpFlush fl now_us)
    then show ?thesis using flush_inv snoc.IH by (fastforce simp: ws emitted_by_append simp del: do_sink_op.simps)
  qed
qed

text \<open>
  C9: a buffered sink neither reorders, repeats nor silently loses a snapshot, whatever mixture of
  successful and failed flushes it sees.  What the flusher has accepted followed by what is buffered
  is a subsequence of what was emitted, stripped to the declared datatypes; the missing ones are
  exactly those counted as dropped, there are none before two hundred thousand emissions, and the
  buffer never holds more than that.
\<close>

theorem buffered_sink_conserves_snapshots:
  assumes "fold do_sink_op ops ([], buffered_new dir cb declared) = (written, s)"
  shows "let emitted = map (fst \<circ> strip_undeclared declared) (emitted_by ops) in
    subseq (written @ bs_buffer s) emitted
    \<and> bs_dropped_snapshots s = of_nat (length emitted - length (written @ bs_buffer s))
    \<and> (length emitted \<le> 200000 \<longrightarrow> written @ bs_buffer s = emitted)
    \<and> length (bs_buffer s) \<le> 200000"
  using assms sink_run_inv [of declared ops dir cb] by (auto simp: sink_inv_def MAX_BUFFERED_SNAPSHOTS_def Let_def)


text \<open>
  A failed flush keeps the buffer, but the set of sinks answers \<open>Ok\<close>: its caller cannot tell a
  failed flush from a successful one.
\<close>

lemma failed_flush_keeps_buffer:
  "buffered_flush fl now_us s = (Err e, s') \<Longrightarrow> bs_buffer s' = bs_buffer s \<and> bs_flush_failures s' = bs_flush_failures s + 1"
  by (auto simp: buffered_flush_def Let_def split: if_splits result.splits)

lemma set_flush_ok: "fst (set_flush fl now_us sinks) = Ok ()"
  by (simp add: set_flush_def)

section \<open>Witness\<close>

definition sample_sink_ops :: "xdec sink_op list" where
  "sample_sink_ops = [OpEmit (market_snapshot_empty 1), OpFlush (\<lambda>_ _. Err ''disk'') 5, OpEmit (market_snapshot_empty 2),
     OpFlush (\<lambda>_ _. Ok \<lparr>fp_bytes_written = 10, fp_files_written = 1\<rparr>) 6, OpEmit (market_snapshot_empty 3)]"

theorem buffered_sink_conserves_snapshots_witness:
  "\<exists>written s. fold do_sink_op sample_sink_ops ([], buffered_new ''out'' None [DtTrades]) = (written, s)
    \<and> written @ bs_buffer s = [market_snapshot_empty 1, market_snapshot_empty 2, market_snapshot_empty 3]"
proof -
  obtain written s where r: "fold do_sink_op sample_sink_ops ([], buffered_new ''out'' None [DtTrades]) = (written, s)"
    by fastforce
  from buffered_sink_conserves_snapshots [OF r] have "written @ bs_buffer s = [market_snapshot_empty 1, market_snapshot_empty 2, market_snapshot_empty 3]"
    by (simp add: sample_sink_ops_def strip_undeclared_def declared_all_def market_snapshot_empty_def Let_def)
  with r show ?thesis by blast
qed

end
