(* ===== verification/Ob_Sync.thy ===== *)
theory Ob_Sync
  imports Orderbook_Core
begin

text \<open>
  The fixed-grid order book sampler of \<open>synchronizers/ob_sync.rs\<close>: at every grid boundary a
  symbol's stream crosses, the last book received before it is put into the output buffer.
\<close>

section \<open>State and operations\<close>

definition MAX_GAP_FILL :: u64 where
  "MAX_GAP_FILL = 10000"

record 'd ob_synchronizer =
  os_period_us :: u64
  os_last_period :: "(string, u64) hash_map"
  os_last_snapshot :: "(string, 'd orderbook) hash_map"
  os_buffer :: "'d orderbook list"
  os_total_captured :: usize
  os_late_events_dropped :: u64
  os_finalized :: bool

text \<open>\<open>None\<close>: the assertion on the period fails.\<close>

definition os_new :: "u64 \<Rightarrow> 'd ob_synchronizer option" where
  "os_new period_us =
     (if period_us > 0
      then Some \<lparr>os_period_us = period_us, os_last_period = [], os_last_snapshot = [], os_buffer = [],
                 os_total_captured = 0, os_late_events_dropped = 0, os_finalized = False\<rparr>
      else None)"

definition os_drop_post_finalize :: "'d ob_synchronizer \<Rightarrow> 'd ob_synchronizer" where
  "os_drop_post_finalize s = s\<lparr>os_late_events_dropped := os_late_events_dropped s + 1\<rparr>"

text \<open>The grid periods \<open>prev + 1 ..= prev + n\<close> of the emission loops.\<close>

definition periods_after :: "u64 \<Rightarrow> u64 \<Rightarrow> u64 list" where
  "periods_after prev n = map (\<lambda>i. prev + 1 + of_nat i) [0..<unat n]"

definition on_update ::
  "'d decimal_ops \<Rightarrow> trading_pair \<Rightarrow> string \<Rightarrow> u64 \<Rightarrow> 'd level list \<times> 'd level list
     \<Rightarrow> 'd ob_synchronizer \<Rightarrow> usize \<times> 'd ob_synchronizer"
where
  "on_update D pair exchange ts captured s =
     (if os_finalized s then (0, os_drop_post_finalize s)
      else
        let current_period = ts div os_period_us s; key = to_canonical pair in
        case hm_get (os_last_period s) key of
          None \<Rightarrow> (0, s\<lparr>os_last_period := hm_insert key current_period (os_last_period s)\<rparr>)
        | Some prev_period \<Rightarrow>
            if current_period \<le> prev_period then (0, s)
            else
              let gap = current_period - prev_period;
                  (bids, asks) = captured;
                  fill_count = min gap MAX_GAP_FILL
              in (unat fill_count,
                  s\<lparr>os_buffer := os_buffer s @
                       map (\<lambda>p. ob_from_levels D 0 (p * os_period_us s) pair exchange bids asks)
                         (periods_after prev_period fill_count),
                    os_last_period := hm_insert key current_period (os_last_period s),
                    os_total_captured := os_total_captured s + unat fill_count\<rparr>))"

definition on_snapshot ::
  "trading_pair \<Rightarrow> u64 \<Rightarrow> 'd orderbook \<Rightarrow> 'd ob_synchronizer \<Rightarrow> usize \<times> 'd ob_synchronizer"
where
  "on_snapshot pair ts snapshot s =
     (if os_finalized s then (0, os_drop_post_finalize s)
      else
        let current_period = ts div os_period_us s; key = to_canonical pair in
        case hm_get (os_last_period s) key of
          None \<Rightarrow>
            (0, s\<lparr>os_last_period := hm_insert key current_period (os_last_period s),
                  os_last_snapshot := hm_insert key snapshot (os_last_snapshot s)\<rparr>)
        | Some prev_period \<Rightarrow>
            if current_period \<le> prev_period
            then (0, s\<lparr>os_last_snapshot := hm_insert key snapshot (os_last_snapshot s)\<rparr>)
            else
              let gap = current_period - prev_period;
                  fill_count = min gap MAX_GAP_FILL;
                  filled = (case hm_get (os_last_snapshot s) key of
                              None \<Rightarrow> []
                            | Some prev_ob \<Rightarrow>
                                map (\<lambda>p. prev_ob\<lparr>ob_ts_us := p * os_period_us s\<rparr>) (periods_after prev_period fill_count))
              in (unat fill_count,
                  s\<lparr>os_buffer := os_buffer s @ filled,
                    os_last_period := hm_insert key current_period (os_last_period s),
                    os_last_snapshot := hm_insert key snapshot (os_last_snapshot s),
                    os_total_captured := os_total_captured s + unat fill_count\<rparr>))"

definition os_finalize :: "'d ob_synchronizer \<Rightarrow> 'd ob_synchronizer" where
  "os_finalize s =
     (if os_finalized s then s
      else
        fold (\<lambda>(symbol, period) s.
            case hm_get (os_last_snapshot s) symbol of
              None \<Rightarrow> s
            | Some ob \<Rightarrow>
                s\<lparr>os_buffer := os_buffer s @ [ob\<lparr>ob_ts_us := (period + 1) * os_period_us s\<rparr>],
                  os_total_captured := os_total_captured s + 1\<rparr>)
          (os_last_period s) (s\<lparr>os_finalized := True\<rparr>))"

definition os_drain :: "'d ob_synchronizer \<Rightarrow> 'd orderbook list \<times> 'd ob_synchronizer" where
  "os_drain s = (os_buffer s, s\<lparr>os_buffer := []\<rparr>)"

section \<open>Sampling\<close>

abbreviation grid_period :: "u64 \<Rightarrow> u64 \<Rightarrow> nat" where
  "grid_period P ts \<equiv> unat ts div unat P"

text \<open>The specification: the last book whose timestamp lies before the boundary \<open>p * P\<close>.\<close>

definition as_of :: "u64 \<Rightarrow> (u64 \<times> 'd orderbook) list \<Rightarrow> nat \<Rightarrow> 'd orderbook" where
  "as_of P stream p = snd (last (filter (\<lambda>(ts, _). grid_period P ts < p) stream))"

definition feed_snapshots :: "trading_pair \<Rightarrow> (u64 \<times> 'd orderbook) list \<Rightarrow> 'd ob_synchronizer \<Rightarrow> 'd ob_synchronizer" where
  "feed_snapshots pair stream s = fold (\<lambda>(ts, ob) s. snd (on_snapshot pair ts ob s)) stream s"

definition sampled :: "u64 \<Rightarrow> (u64 \<times> 'd orderbook) list \<Rightarrow> 'd orderbook list" where
  "sampled P stream =
     map (\<lambda>p. (as_of P stream p)\<lparr>ob_ts_us := of_nat p * P\<rparr>)
       [grid_period P (fst (hd stream)) + 1 ..< grid_period P (fst (last stream)) + 1]"

definition sampling_inv :: "string \<Rightarrow> u64 \<Rightarrow> (u64 \<times> 'd orderbook) list \<Rightarrow> 'd ob_synchronizer \<Rightarrow> bool" where
  "sampling_inv key P stream s \<longleftrightarrow>
     \<not> os_finalized s \<and> os_period_us s = P \<and> os_buffer s = sampled P stream
   \<and> hm_get (os_last_period s) key = Some (fst (last stream) div P)
   \<and> hm_get (os_last_snapshot s) key = Some (snd (last stream))"

lemma periods_after_nat:
  assumes "unat prev + unat n < 2 ^ 64"
  shows "periods_after prev n = map of_nat [unat prev + 1 ..< unat prev + unat n + 1]"
proof -
  have "[unat prev + 1 ..< unat prev + unat n + 1] = map (\<lambda>i. i + (unat prev + 1)) [0..<unat n]"
    using map_add_upt [of "unat prev + 1" "unat n"] by (simp add: ac_simps del: upt_Suc)
  then show ?thesis by (simp add: periods_after_def ac_simps comp_def del: upt_Suc)
qed

lemma as_of_snoc_later:
  "p \<le> grid_period P ts \<Longrightarrow> as_of P (stream @ [(ts, ob)]) p = as_of P stream p"
  by (simp add: as_of_def)

lemma as_of_last: "stream \<noteq> [] \<Longrightarrow> grid_period P (fst (last stream)) < p \<Longrightarrow> as_of P stream p = snd (last stream)"
  by (cases stream rule: rev_cases) (auto simp: as_of_def)

lemma sampled_snoc:
  assumes "stream \<noteq> []" and "grid_period P (fst (hd stream)) \<le> grid_period P (fst (last stream))"
    and "grid_period P (fst (last stream)) \<le> grid_period P ts"
  shows "sampled P (stream @ [(ts, ob)]) = sampled P stream
    @ map (\<lambda>p. (snd (last stream))\<lparr>ob_ts_us := of_nat p * P\<rparr>)
        [grid_period P (fst (last stream)) + 1 ..< grid_period P ts + 1]"
proof -
  let ?f = "grid_period P (fst (hd stream)) + 1" and ?l = "grid_period P (fst (last stream)) + 1" and ?t = "grid_period P ts + 1"
  have "[?f ..< ?t] = [?f ..< ?l] @ [?l ..< ?t]"
    using upt_add_eq_append [of ?f ?l "?t - ?l"] assms(2,3) by simp
  moreover have "as_of P (stream @ [(ts, ob)]) p = as_of P stream p" if "p < ?t" for p
    using that by (intro as_of_snoc_later) simp
  moreover have "as_of P stream p = snd (last stream)" if "?l \<le> p" for p
    using as_of_last [OF assms(1)] that by simp
  ultimately show ?thesis using assms(1,3) by (auto simp: sampled_def simp del: upt_Suc)
qed

lemma unat_grid: "unat (ts div P) = grid_period P ts"
  by (simp add: unat_div)

lemma on_snapshot_sampling:
  assumes inv: "sampling_inv (to_canonical pair) P stream s" and ne: "stream \<noteq> []"
    and mono: "grid_period P (fst (hd stream)) \<le> grid_period P (fst (last stream))"
      "grid_period P (fst (last stream)) \<le> grid_period P ts"
    and fill: "grid_period P ts - grid_period P (fst (last stream)) \<le> 10000"
  shows "sampling_inv (to_canonical pair) P (stream @ [(ts, ob)]) (snd (on_snapshot pair ts ob s))"
proof -
  let ?prev = "fst (last stream) div P" and ?cur = "ts div P"
  have le: "?cur \<le> ?prev \<longleftrightarrow> grid_period P ts = grid_period P (fst (last stream))"
    using mono(2) by (auto simp: word_le_nat_alt unat_grid)
  show ?thesis
  proof (cases "?cur \<le> ?prev")
    case True
    with le have eq: "grid_period P ts = grid_period P (fst (last stream))" by blast
    then have "?cur = ?prev" by (metis unat_grid word_unat_eq_iff)
    with inv True sampled_snoc [OF ne mono, of ob] eq show ?thesis
      by (simp add: sampling_inv_def on_snapshot_def Let_def hm_simps)
  next
    case False
    then have gap: "unat (?cur - ?prev) = grid_period P ts - grid_period P (fst (last stream))"
      by (simp add: unat_sub unat_grid)
    then have m: "min (?cur - ?prev) MAX_GAP_FILL = ?cur - ?prev"
      using fill by (simp add: min_def word_le_nat_alt MAX_GAP_FILL_def)
    have "unat ?cur < 2 ^ 64" using unsigned_less [where 'a = nat, of ?cur] by simp
    then have "unat ?prev + unat (?cur - ?prev) < 2 ^ 64"
      using gap mono(2) by (simp add: unat_grid)
    from periods_after_nat [OF this] have
      "periods_after ?prev (?cur - ?prev) = map of_nat [grid_period P (fst (last stream)) + 1 ..< grid_period P ts + 1]"
      using gap mono(2) by (simp add: unat_grid del: upt_Suc)
    with inv False m sampled_snoc [OF ne mono, of ob] show ?thesis
      by (simp add: sampling_inv_def on_snapshot_def Let_def hm_simps comp_def del: upt_Suc)
  qed
qed

lemma feed_sampling:
  assumes "stream \<noteq> []" and "sorted (map (grid_period P \<circ> fst) stream)"
    and "\<forall>i. Suc i < length stream \<longrightarrow> grid_period P (fst (stream ! Suc i)) - grid_period P (fst (stream ! i)) \<le> 10000"
    and "os_new P = Some s0"
  shows "sampling_inv (to_canonical pair) P stream (feed_snapshots pair stream s0)"
  using assms(1-3)
proof (induction stream rule: rev_nonempty_induct)
  case (single x)
  obtain ts ob where x: "x = (ts, ob)" by fastforce
  show ?case using assms(4)
    by (auto simp: x sampling_inv_def feed_snapshots_def on_snapshot_def os_new_def Let_def hm_simps sampled_def
        split: if_splits)
next
  case (snoc x xs)
  obtain ts ob where x: "x = (ts, ob)" by fastforce
  have last_nth: "last xs = xs ! (length xs - 1)" and hd_nth: "hd xs = xs ! 0"
    using snoc.hyps by (simp_all add: last_conv_nth hd_conv_nth)
  have ih: "sampling_inv (to_canonical pair) P xs (feed_snapshots pair xs s0)"
  proof (rule snoc.IH)
    show "sorted (map (grid_period P \<circ> fst) xs)" using snoc.prems(1) by (simp add: sorted_append comp_def)
    show "\<forall>i. Suc i < length xs \<longrightarrow> grid_period P (fst (xs ! Suc i)) - grid_period P (fst (xs ! i)) \<le> 10000"
      using snoc.prems(2) by (auto simp: nth_append dest: Suc_lessD split: if_splits)
  qed
  have srt: "sorted (map (grid_period P \<circ> fst) xs)" "\<forall>y \<in> set xs. grid_period P (fst y) \<le> grid_period P ts"
    using snoc.prems(1) by (auto simp: sorted_append x comp_def)
  have "(map (grid_period P \<circ> fst) xs) ! 0 \<le> (map (grid_period P \<circ> fst) xs) ! (length xs - 1)"
    using snoc.hyps by (intro sorted_nth_mono [OF srt(1)]) simp_all
  then have "grid_period P (fst (hd xs)) \<le> grid_period P (fst (last xs))"
    using snoc.hyps by (simp add: last_nth hd_nth)
  moreover have "grid_period P (fst (last xs)) \<le> grid_period P ts" using srt(2) snoc.hyps by simp
  moreover have "grid_period P ts - grid_period P (fst (last xs)) \<le> 10000"
    using snoc.prems(2) [rule_format, of "length xs - 1"] snoc.hyps by (simp add: nth_append last_nth x)
  ultimately have "sampling_inv (to_canonical pair) P (xs @ [(ts, ob)]) (snd (on_snapshot pair ts ob (feed_snapshots pair xs s0)))"
    by (rule on_snapshot_sampling [OF ih snoc.hyps])
  then show ?case by (simp add: x feed_snapshots_def)
qed

text \<open>
  C33: the sampler is exact and does not look ahead.  For one symbol's stream of books in time order
  whose gaps stay below the fill limit, the output holds one book per grid boundary the stream has
  crossed, in order and without a hole: at boundary \<open>p\<close> the last book received with a timestamp
  before \<open>p\<close> times the period, restamped to the boundary.
\<close>

theorem grid_samples_are_as_of:
  assumes "os_new P = Some s0" and "stream \<noteq> []" and "sorted (map (grid_period P \<circ> fst) stream)"
    and "\<forall>i. Suc i < length stream \<longrightarrow> grid_period P (fst (stream ! Suc i)) - grid_period P (fst (stream ! i)) \<le> 10000"
  shows "os_buffer (feed_snapshots pair stream s0) =
    map (\<lambda>p. (snd (last (filter (\<lambda>(ts, _). unat ts div unat P < p) stream)))\<lparr>ob_ts_us := of_nat p * P\<rparr>)
      [grid_period P (fst (hd stream)) + 1 ..< grid_period P (fst (last stream)) + 1]"
  using feed_sampling [OF assms(2-4,1), of pair] by (simp add: sampling_inv_def sampled_def as_of_def del: upt_Suc)

text \<open>
  A long gap loses its tail.  When a stream jumps over more than ten thousand periods, the
  boundaries filled are the first ten thousand of the gap, the rest of the gap gets no row, and the
  next boundary is counted from the new position.
\<close>

lemma long_gap_fills_first_periods:
  assumes "\<not> os_finalized s" and "hm_get (os_last_period s) (to_canonical pair) = Some prev"
    and "hm_get (os_last_snapshot s) (to_canonical pair) = Some prev_ob"
    and "unat (ts div os_period_us s) > unat prev + 10000"
  shows "os_buffer (snd (on_snapshot pair ts ob s)) = os_buffer s
      @ map (\<lambda>p. prev_ob\<lparr>ob_ts_us := of_nat p * os_period_us s\<rparr>) [unat prev + 1 ..< unat prev + 10001]
    \<and> hm_get (os_last_period (snd (on_snapshot pair ts ob s))) (to_canonical pair) = Some (ts div os_period_us s)"
proof -
  let ?cur = "ts div os_period_us s"
  have lt: "\<not> ?cur \<le> prev" and "prev \<le> ?cur" using assms(4) by (simp_all add: word_le_nat_alt)
  then have "unat (?cur - prev) > 10000" using assms(4) by (simp add: unat_sub)
  then have m: "min (?cur - prev) MAX_GAP_FILL = MAX_GAP_FILL"
    by (simp add: min_def word_le_nat_alt MAX_GAP_FILL_def)
  have u: "unat MAX_GAP_FILL = 10000" by (simp add: MAX_GAP_FILL_def)
  have "unat prev + unat MAX_GAP_FILL < 2 ^ 64"
    using assms(4) unsigned_less [where 'a = nat, of ?cur] unfolding u by simp
  from periods_after_nat [OF this] assms(1-3) lt m u show ?thesis
    by (simp add: on_snapshot_def Let_def hm_simps comp_def add.commute [of 10001] del: upt_Suc)
qed

section \<open>Concrete runs\<close>

definition sample_grid_book :: "u64 \<Rightarrow> xdec orderbook" where
  "sample_grid_book ts = (ob_empty \<lparr>tp_base = ''BTC'', tp_quote = ''USDT''\<rparr> ''bybit'')\<lparr>ob_ts_us := ts\<rparr>"

theorem grid_samples_are_as_of_witness:
  "\<exists>s0. os_new 10 = Some s0
     \<and> os_buffer (feed_snapshots \<lparr>tp_base = ''BTC'', tp_quote = ''USDT''\<rparr>
           [(12, sample_grid_book 12), (19, sample_grid_book 19), (41, sample_grid_book 41)] s0)
         = map sample_grid_book [20, 30, 40]"
proof -
  let ?stream = "[(12, sample_grid_book 12), (19, sample_grid_book 19), (41, sample_grid_book 41)]"
  obtain s0 :: "xdec ob_synchronizer" where s0: "os_new 10 = Some s0" by (simp add: os_new_def)
  have "\<forall>i. Suc i < length ?stream \<longrightarrow>
      grid_period 10 (fst (?stream ! Suc i)) - grid_period 10 (fst (?stream ! i)) \<le> 10000"
    by (auto simp: less_Suc_eq)
  from grid_samples_are_as_of [OF s0 _ _ this] s0 show ?thesis
    by (simp add: sample_grid_book_def upt_rec)
qed

end
