(* ===== verification/Market_Sync.thy ===== *)
theory Market_Sync
  imports Ob_Sync
begin

text \<open>
  The grid synchronizer of \<open>synchronizers/market_sync.rs\<close>: books, trades, liquidations, funding rates,
  open interest and settlements are aligned to a grid of rows.  A row labelled \<open>p\<close> closes the period
  that ends at \<open>p\<close> times the grid spacing; an event belongs to the row after the period its own
  timestamp falls in.  The clock that makes rows ripe is the book stream, the trades, the
  liquidations or an external clock.
\<close>

section \<open>State\<close>

datatype clock_mode = OrderbookDriven | TradeDriven | LiquidationDriven | ExternalClock

record 'd period_events =
  pe_trades :: "'d trade list"
  pe_liquidations :: "'d liquidation list"
  pe_funding :: "'d funding_rate list"
  pe_open_interest :: "'d open_interest list"
  pe_funding_settlements :: "'d funding_settlement list"

definition period_events_default :: "'d period_events" where
  "period_events_default = \<lparr>pe_trades = [], pe_liquidations = [], pe_funding = [], pe_open_interest = [],
     pe_funding_settlements = []\<rparr>"

record 'd market_synchronizer =
  mk_period_us :: u64
  mk_emission_delay_us :: u64
  mk_clock_mode :: clock_mode
  mk_last_period :: "(string, u64) hash_map"
  mk_clock_period :: "u64 option"
  mk_books :: "(string, (u64, 'd orderbook) btree) hash_map"
  mk_trades :: "'d trade list"
  mk_liquidations :: "'d liquidation list"
  mk_funding_rates :: "'d funding_rate list"
  mk_funding_settlements :: "'d funding_settlement list"
  mk_open_interests :: "'d open_interest list"
  mk_buffer :: "'d market_snapshot list"
  mk_total_captured :: usize
  mk_late_events_dropped :: u64
  mk_finalized :: bool

definition with_clock_mode :: "u64 \<Rightarrow> clock_mode \<Rightarrow> 'd market_synchronizer option" where
  "with_clock_mode period_us mode =
     (if period_us > 0
      then Some \<lparr>mk_period_us = period_us, mk_emission_delay_us = 0, mk_clock_mode = mode, mk_last_period = [],
                 mk_clock_period = None, mk_books = [], mk_trades = [], mk_liquidations = [],
                 mk_funding_rates = [], mk_funding_settlements = [], mk_open_interests = [], mk_buffer = [],
                 mk_total_captured = 0, mk_late_events_dropped = 0, mk_finalized = False\<rparr>
      else None)"

definition set_emission_delay_us :: "u64 \<Rightarrow> 'd market_synchronizer \<Rightarrow> 'd market_synchronizer" where
  "set_emission_delay_us delay s = s\<lparr>mk_emission_delay_us := delay\<rparr>"

section \<open>Books\<close>

definition record_book :: "string \<Rightarrow> u64 \<Rightarrow> 'd orderbook \<Rightarrow> 'd market_synchronizer \<Rightarrow> 'd market_synchronizer" where
  "record_book key ts book s =
     s\<lparr>mk_books := hm_insert key (bt_insert id (ts div mk_period_us s) book (unwrap_or (hm_get (mk_books s) key) []))
                    (mk_books s)\<rparr>"

definition book_before :: "u64 \<Rightarrow> (u64, 'd orderbook) btree \<Rightarrow> 'd orderbook option" where
  "book_before row m = map_option snd (bt_last (bt_range_below id row m))"

definition as_of_book :: "string \<Rightarrow> u64 \<Rightarrow> 'd market_synchronizer \<Rightarrow> 'd orderbook option" where
  "as_of_book key row s = Option.bind (hm_get (mk_books s) key) (book_before row)"

definition as_of_book_any :: "u64 \<Rightarrow> 'd market_synchronizer \<Rightarrow> 'd orderbook option" where
  "as_of_book_any row s = (case mk_books s of [] \<Rightarrow> None | (_, m) # _ \<Rightarrow> book_before row m)"

definition prune_side :: "u64 \<Rightarrow> (u64, 'd orderbook) btree \<Rightarrow> (u64, 'd orderbook) btree" where
  "prune_side last_row m =
     (case bt_last (bt_range_below id last_row m) of
        None \<Rightarrow> m
      | Some (keep, _) \<Rightarrow> filter (\<lambda>(k, _). k \<ge> keep) m)"

definition prune_books :: "u64 \<Rightarrow> 'd market_synchronizer \<Rightarrow> 'd market_synchronizer" where
  "prune_books last_row s = s\<lparr>mk_books := hm_map_values (prune_side last_row) (mk_books s)\<rparr>"

section \<open>Events\<close>

text \<open>
  One of the loops of \<open>drain_events\<close>: late events are counted, those of a row that is emitted now are
  put into its bundle, the others stay buffered.
\<close>

definition bundle_at :: "(u64, 'd period_events) hash_map \<Rightarrow> u64 \<Rightarrow> 'd period_events" where
  "bundle_at out row = unwrap_or (hm_get out row) period_events_default"

fun drain_kind ::
  "('x \<Rightarrow> u64) \<Rightarrow> ('x \<Rightarrow> 'd period_events \<Rightarrow> 'd period_events) \<Rightarrow> u64 \<Rightarrow> u64 \<Rightarrow> 'x list
     \<Rightarrow> (u64, 'd period_events) hash_map \<Rightarrow> u64 \<Rightarrow> 'x list \<times> (u64, 'd period_events) hash_map \<times> u64"
where
  "drain_kind row push prev lst [] out late = ([], out, late)"
| "drain_kind row push prev lst (x # xs) out late =
     (if row x \<le> prev then drain_kind row push prev lst xs out (late + 1)
      else if row x \<le> lst
      then drain_kind row push prev lst xs (hm_insert (row x) (push x (bundle_at out (row x))) out) late
      else case drain_kind row push prev lst xs out late of
             (kept, out, late) \<Rightarrow> (x # kept, out, late))"

text \<open>The loop over the settlements, which moves a late one into the next row.\<close>

fun drain_settlements ::
  "u64 \<Rightarrow> u64 \<Rightarrow> u64 \<Rightarrow> 'd funding_settlement list \<Rightarrow> (u64, 'd period_events) hash_map
     \<Rightarrow> 'd funding_settlement list \<times> (u64, 'd period_events) hash_map"
where
  "drain_settlements P prev lst [] out = ([], out)"
| "drain_settlements P prev lst (x # xs) out =
     (let row = max (fs_local_ts_us x div P + 1) (prev + 1) in
      if row \<le> lst
      then drain_settlements P prev lst xs
             (hm_insert row ((bundle_at out row)\<lparr>pe_funding_settlements := pe_funding_settlements (bundle_at out row) @ [x]\<rparr>) out)
      else case drain_settlements P prev lst xs out of (kept, out) \<Rightarrow> (x # kept, out))"

definition drain_events ::
  "u64 \<Rightarrow> u64 \<Rightarrow> 'd market_synchronizer \<Rightarrow> (u64, 'd period_events) hash_map \<times> 'd market_synchronizer"
where
  "drain_events prev lst s =
     (let P = mk_period_us s;
          (trades, out, late) = drain_kind (\<lambda>t. source_trade_ts_us t div P + 1)
             (\<lambda>t b. b\<lparr>pe_trades := pe_trades b @ [t]\<rparr>) prev lst (mk_trades s) [] 0;
          (liqs, out, late) = drain_kind (\<lambda>l. liquidation_ts_us l div P + 1)
             (\<lambda>l b. b\<lparr>pe_liquidations := pe_liquidations b @ [l]\<rparr>) prev lst (mk_liquidations s) out late;
          (frs, out, late) = drain_kind (\<lambda>f. fr_effective_ts_us f div P + 1)
             (\<lambda>f b. b\<lparr>pe_funding := pe_funding b @ [f]\<rparr>) prev lst (mk_funding_rates s) out late;
          (ois, out, late) = drain_kind (\<lambda>i. oi_effective_ts_us i div P + 1)
             (\<lambda>i b. b\<lparr>pe_open_interest := pe_open_interest b @ [i]\<rparr>) prev lst (mk_open_interests s) out late;
          (fss, out) = drain_settlements P prev lst (mk_funding_settlements s) out
      in (out, s\<lparr>mk_trades := trades, mk_liquidations := liqs, mk_funding_rates := frs, mk_open_interests := ois,
                 mk_funding_settlements := fss, mk_late_events_dropped := mk_late_events_dropped s + late\<rparr>))"

section \<open>Rows\<close>

definition MARKET_MAX_GAP_FILL :: u64 where
  "MARKET_MAX_GAP_FILL = 10000"

definition market_row :: "u64 \<Rightarrow> u64 \<Rightarrow> 'd orderbook option \<Rightarrow> 'd period_events \<Rightarrow> 'd market_snapshot" where
  "market_row P p book b =
     \<lparr>ms_ts_us = p * P, ms_orderbook = book, ms_trades = pe_trades b, ms_liquidations = pe_liquidations b,
      ms_funding_rate = pe_funding b, ms_open_interest = pe_open_interest b,
      ms_funding_settlements = pe_funding_settlements b\<rparr>"

text \<open>
  The emission loop with the draining before it and the pruning after it; \<open>book\<close> is the look-up of
  the row's book, by symbol or of the only tracked symbol.
\<close>

definition emit_rows ::
  "(u64 \<Rightarrow> 'd market_synchronizer \<Rightarrow> 'd orderbook option) \<Rightarrow> u64 \<Rightarrow> u64 \<Rightarrow> 'd market_synchronizer \<Rightarrow> 'd market_synchronizer"
where
  "emit_rows book prev fill s =
     (let last_emitted = prev + fill;
          (by_period, s) = drain_events prev last_emitted s;
          rows = map (\<lambda>p. market_row (mk_period_us s) p (book p s) (bundle_at by_period p)) (periods_after prev fill)
      in prune_books last_emitted (s\<lparr>mk_buffer := mk_buffer s @ rows\<rparr>))"

definition ripe_period :: "u64 \<Rightarrow> 'd market_synchronizer \<Rightarrow> u64" where
  "ripe_period ts s = saturating_sub ts (mk_emission_delay_us s) div mk_period_us s"

definition advance_grid :: "u64 \<Rightarrow> 'd market_synchronizer \<Rightarrow> usize \<times> 'd market_synchronizer" where
  "advance_grid ts s =
     (let current_period = ripe_period ts s in
      case mk_clock_period s of
        None \<Rightarrow> (0, s\<lparr>mk_clock_period := Some current_period\<rparr>)
      | Some prev_period \<Rightarrow>
          if current_period \<le> prev_period then (0, s)
          else
            let fill_count = min (current_period - prev_period) MARKET_MAX_GAP_FILL;
                s = emit_rows as_of_book_any prev_period fill_count s
            in (unat fill_count,
                s\<lparr>mk_clock_period := Some current_period, mk_total_captured := mk_total_captured s + unat fill_count\<rparr>))"

definition mk_drop_post_finalize :: "'d market_synchronizer \<Rightarrow> 'd market_synchronizer" where
  "mk_drop_post_finalize s = s\<lparr>mk_late_events_dropped := mk_late_events_dropped s + 1\<rparr>"

definition mk_on_time :: "u64 \<Rightarrow> 'd market_synchronizer \<Rightarrow> usize \<times> 'd market_synchronizer" where
  "mk_on_time ts s =
     (if mk_finalized s then (0, mk_drop_post_finalize s)
      else if mk_clock_mode s \<noteq> ExternalClock then (0, s)
      else advance_grid ts s)"

definition mk_on_orderbook ::
  "trading_pair \<Rightarrow> u64 \<Rightarrow> 'd orderbook \<Rightarrow> 'd market_synchronizer \<Rightarrow> usize \<times> 'd market_synchronizer"
where
  "mk_on_orderbook pair ts snapshot s =
     (if mk_finalized s then (0, mk_drop_post_finalize s)
      else
        let key = to_canonical pair in
        if mk_clock_mode s \<noteq> OrderbookDriven then (0, record_book key ts snapshot s)
        else
          let current_period = ripe_period ts s in
          case hm_get (mk_last_period s) key of
            None \<Rightarrow>
              (0, record_book key ts snapshot (s\<lparr>mk_last_period := hm_insert key current_period (mk_last_period s)\<rparr>))
          | Some prev_period \<Rightarrow>
              if current_period \<le> prev_period then (0, record_book key ts snapshot s)
              else
                let fill_count = min (current_period - prev_period) MARKET_MAX_GAP_FILL;
                    s = emit_rows (as_of_book key) prev_period fill_count s;
                    s = s\<lparr>mk_last_period := hm_insert key current_period (mk_last_period s)\<rparr>;
                    s = record_book key ts snapshot s
                in (unat fill_count, s\<lparr>mk_total_captured := mk_total_captured s + unat fill_count\<rparr>))"

definition mk_on_trade :: "'d trade \<Rightarrow> 'd market_synchronizer \<Rightarrow> usize \<times> 'd market_synchronizer" where
  "mk_on_trade trade s =
     (if mk_finalized s then (0, mk_drop_post_finalize s)
      else
        let s = s\<lparr>mk_trades := mk_trades s @ [trade]\<rparr> in
        if mk_clock_mode s = TradeDriven then advance_grid (source_trade_ts_us trade) s else (0, s))"

definition mk_on_liquidation :: "'d liquidation \<Rightarrow> 'd market_synchronizer \<Rightarrow> usize \<times> 'd market_synchronizer" where
  "mk_on_liquidation liq s =
     (if mk_finalized s then (0, mk_drop_post_finalize s)
      else
        let s = s\<lparr>mk_liquidations := mk_liquidations s @ [liq]\<rparr> in
        if mk_clock_mode s = LiquidationDriven then advance_grid (liquidation_ts_us liq) s else (0, s))"

definition mk_on_funding :: "'d funding_rate \<Rightarrow> 'd market_synchronizer \<Rightarrow> 'd market_synchronizer" where
  "mk_on_funding fr s =
     (if mk_finalized s then mk_drop_post_finalize s else s\<lparr>mk_funding_rates := mk_funding_rates s @ [fr]\<rparr>)"

definition mk_on_funding_settlement :: "'d funding_settlement \<Rightarrow> 'd market_synchronizer \<Rightarrow> 'd market_synchronizer" where
  "mk_on_funding_settlement fs s =
     (if mk_finalized s then mk_drop_post_finalize s
      else s\<lparr>mk_funding_settlements := mk_funding_settlements s @ [fs]\<rparr>)"

definition mk_on_open_interest :: "'d open_interest \<Rightarrow> 'd market_synchronizer \<Rightarrow> 'd market_synchronizer" where
  "mk_on_open_interest oi s =
     (if mk_finalized s then mk_drop_post_finalize s else s\<lparr>mk_open_interests := mk_open_interests s @ [oi]\<rparr>)"

section \<open>The end of the stream\<close>

definition pending_events :: "'d market_synchronizer \<Rightarrow> 'd period_events" where
  "pending_events s = \<lparr>pe_trades = mk_trades s, pe_liquidations = mk_liquidations s, pe_funding = mk_funding_rates s,
     pe_open_interest = mk_open_interests s, pe_funding_settlements = mk_funding_settlements s\<rparr>"

definition clear_events :: "'d market_synchronizer \<Rightarrow> 'd market_synchronizer" where
  "clear_events s = s\<lparr>mk_trades := [], mk_liquidations := [], mk_funding_rates := [], mk_open_interests := [],
     mk_funding_settlements := []\<rparr>"

definition finalize_ob_driven :: "'d market_synchronizer \<Rightarrow> 'd market_synchronizer" where
  "finalize_ob_driven s =
     fold (\<lambda>(symbol, period) s'.
         s'\<lparr>mk_buffer := mk_buffer s' @
              [market_row (mk_period_us s) (period + 1) (as_of_book symbol (- 1) s) (pending_events s)],
            mk_total_captured := mk_total_captured s' + 1\<rparr>)
       (mk_last_period s) (clear_events s)"

definition finalize_global_clock :: "'d market_synchronizer \<Rightarrow> 'd market_synchronizer" where
  "finalize_global_clock s =
     (case mk_clock_period s of
        None \<Rightarrow> s
      | Some period \<Rightarrow>
          (clear_events s)\<lparr>mk_buffer := mk_buffer s @
              [market_row (mk_period_us s) (period + 1) (as_of_book_any (- 1) s) (pending_events s)],
            mk_total_captured := mk_total_captured s + 1\<rparr>)"

definition mk_finalize :: "'d market_synchronizer \<Rightarrow> 'd market_synchronizer" where
  "mk_finalize s =
     (if mk_finalized s then s
      else
        let s = s\<lparr>mk_finalized := True\<rparr> in
        if mk_clock_mode s = OrderbookDriven then finalize_ob_driven s else finalize_global_clock s)"

definition mk_drain :: "'d market_synchronizer \<Rightarrow> 'd market_snapshot list \<times> 'd market_synchronizer" where
  "mk_drain s = (mk_buffer s, s\<lparr>mk_buffer := []\<rparr>)"

section \<open>What draining does\<close>

abbreviation late_row :: "u64 \<Rightarrow> u64 \<Rightarrow> bool" where
  "late_row prev r \<equiv> r \<le> prev"

abbreviation due_row :: "u64 \<Rightarrow> u64 \<Rightarrow> u64 \<Rightarrow> bool" where
  "due_row prev lst r \<equiv> \<not> r \<le> prev \<and> r \<le> lst"

abbreviation open_row :: "u64 \<Rightarrow> u64 \<Rightarrow> u64 \<Rightarrow> bool" where
  "open_row prev lst r \<equiv> \<not> r \<le> prev \<and> \<not> r \<le> lst"

lemma bundle_at_insert: "bundle_at (hm_insert r b out) p = (if p = r then b else bundle_at out p)"
  by (simp add: bundle_at_def hm_simps unwrap_or_def)

lemma drain_kind_spec:
  "drain_kind row push prev lst xs out late = (kept, out', late') \<Longrightarrow>
     kept = filter (\<lambda>x. open_row prev lst (row x)) xs
   \<and> late' = late + of_nat (length (filter (\<lambda>x. late_row prev (row x)) xs))
   \<and> bundle_at out' p = fold push (filter (\<lambda>x. row x = p) (filter (\<lambda>x. due_row prev lst (row x)) xs)) (bundle_at out p)"
proof (induction xs arbitrary: out late kept)
  case (Cons x xs)
  consider "late_row prev (row x)" | "due_row prev lst (row x)" | "open_row prev lst (row x)" by blast
  then show ?case
  proof cases
    case 1
    with Cons.prems Cons.IH [of out "late + 1" kept] show ?thesis by (simp add: ac_simps)
  next
    case 2
    with Cons.prems Cons.IH [of "hm_insert (row x) (push x (bundle_at out (row x))) out" late kept]
    show ?thesis by (auto simp: bundle_at_insert)
  next
    case 3
    obtain kept1 where "drain_kind row push prev lst xs out late = (kept1, out', late')" "kept = x # kept1"
      using Cons.prems 3 by (auto split: prod.splits)
    with 3 Cons.IH [of out late kept1] show ?thesis by simp
  qed
qed simp

abbreviation settlement_row :: "u64 \<Rightarrow> u64 \<Rightarrow> 'd funding_settlement \<Rightarrow> u64" where
  "settlement_row P prev x \<equiv> max (fs_local_ts_us x div P + 1) (prev + 1)"

lemma drain_settlements_spec:
  "drain_settlements P prev lst xs out = (kept, out') \<Longrightarrow>
     kept = filter (\<lambda>x. \<not> settlement_row P prev x \<le> lst) xs
   \<and> bundle_at out' p = (bundle_at out p)\<lparr>pe_funding_settlements := pe_funding_settlements (bundle_at out p)
        @ filter (\<lambda>x. settlement_row P prev x = p) (filter (\<lambda>x. settlement_row P prev x \<le> lst) xs)\<rparr>"
proof (induction xs arbitrary: out kept)
  case (Cons x xs)
  show ?case
  proof (cases "settlement_row P prev x \<le> lst")
    case True
    let ?r = "settlement_row P prev x"
    from True Cons.prems have "drain_settlements P prev lst xs
      (hm_insert ?r ((bundle_at out ?r)\<lparr>pe_funding_settlements := pe_funding_settlements (bundle_at out ?r) @ [x]\<rparr>) out) = (kept, out')"
      by (simp add: Let_def)
    from Cons.IH [OF this] True show ?thesis by (auto simp: bundle_at_insert)
  next
    case False
    obtain kept1 where "drain_settlements P prev lst xs out = (kept1, out')" "kept = x # kept1"
      using Cons.prems False by (auto simp: Let_def split: prod.splits)
    with False Cons.IH [of out kept1] show ?thesis by simp
  qed
qed simp

lemma fold_push:
  "fold (\<lambda>t b. b\<lparr>pe_trades := pe_trades b @ [t]\<rparr>) ts b = b\<lparr>pe_trades := pe_trades b @ ts\<rparr>"
  "fold (\<lambda>l b. b\<lparr>pe_liquidations := pe_liquidations b @ [l]\<rparr>) ls b = b\<lparr>pe_liquidations := pe_liquidations b @ ls\<rparr>"
  "fold (\<lambda>f b. b\<lparr>pe_funding := pe_funding b @ [f]\<rparr>) fs b = b\<lparr>pe_funding := pe_funding b @ fs\<rparr>"
  "fold (\<lambda>i b. b\<lparr>pe_open_interest := pe_open_interest b @ [i]\<rparr>) ois b = b\<lparr>pe_open_interest := pe_open_interest b @ ois\<rparr>"
  by (induction ts arbitrary: b, simp_all) (induction ls arbitrary: b, simp_all,
      (induction fs arbitrary: b, simp_all)?, (induction ois arbitrary: b, simp_all)?)

abbreviation trade_row :: "u64 \<Rightarrow> 'd trade \<Rightarrow> u64" where
  "trade_row P t \<equiv> source_trade_ts_us t div P + 1"

abbreviation liquidation_row :: "u64 \<Rightarrow> 'd liquidation \<Rightarrow> u64" where
  "liquidation_row P l \<equiv> liquidation_ts_us l div P + 1"

abbreviation funding_row :: "u64 \<Rightarrow> 'd funding_rate \<Rightarrow> u64" where
  "funding_row P f \<equiv> fr_effective_ts_us f div P + 1"

abbreviation oi_row :: "u64 \<Rightarrow> 'd open_interest \<Rightarrow> u64" where
  "oi_row P i \<equiv> oi_effective_ts_us i div P + 1"

abbreviation kept_by :: "('x \<Rightarrow> u64) \<Rightarrow> u64 \<Rightarrow> u64 \<Rightarrow> 'x list \<Rightarrow> 'x list" where
  "kept_by row prev lst xs \<equiv> filter (\<lambda>x. open_row prev lst (row x)) xs"

abbreviation due_at :: "('x \<Rightarrow> u64) \<Rightarrow> u64 \<Rightarrow> u64 \<Rightarrow> u64 \<Rightarrow> 'x list \<Rightarrow> 'x list" where
  "due_at row prev lst p xs \<equiv> filter (\<lambda>x. row x = p) (filter (\<lambda>x. due_row prev lst (row x)) xs)"

abbreviation late_of :: "('x \<Rightarrow> u64) \<Rightarrow> u64 \<Rightarrow> 'x list \<Rightarrow> 'x list" where
  "late_of row prev xs \<equiv> filter (\<lambda>x. late_row prev (row x)) xs"

lemma drain_events_spec:
  assumes "drain_events prev lst s = (out, s')"
  shows "s' = s\<lparr>mk_trades := kept_by (trade_row (mk_period_us s)) prev lst (mk_trades s),
       mk_liquidations := kept_by (liquidation_row (mk_period_us s)) prev lst (mk_liquidations s),
       mk_funding_rates := kept_by (funding_row (mk_period_us s)) prev lst (mk_funding_rates s),
       mk_open_interests := kept_by (oi_row (mk_period_us s)) prev lst (mk_open_interests s),
       mk_funding_settlements := filter (\<lambda>x. \<not> settlement_row (mk_period_us s) prev x \<le> lst) (mk_funding_settlements s),
       mk_late_events_dropped := mk_late_events_dropped s
         + of_nat (length (late_of (trade_row (mk_period_us s)) prev (mk_trades s))
                 + length (late_of (liquidation_row (mk_period_us s)) prev (mk_liquidations s))
                 + length (late_of (funding_row (mk_period_us s)) prev (mk_funding_rates s))
                 + length (late_of (oi_row (mk_period_us s)) prev (mk_open_interests s)))\<rparr>"
    and "bundle_at out p =
      \<lparr>pe_trades = due_at (trade_row (mk_period_us s)) prev lst p (mk_trades s),
       pe_liquidations = due_at (liquidation_row (mk_period_us s)) prev lst p (mk_liquidations s),
       pe_funding = due_at (funding_row (mk_period_us s)) prev lst p (mk_funding_rates s),
       pe_open_interest = due_at (oi_row (mk_period_us s)) prev lst p (mk_open_interests s),
       pe_funding_settlements = filter (\<lambda>x. settlement_row (mk_period_us s) prev x = p)
         (filter (\<lambda>x. settlement_row (mk_period_us s) prev x \<le> lst) (mk_funding_settlements s))\<rparr>"
proof -
  let ?P = "mk_period_us s"
  obtain k1 o1 l1 where d1: "drain_kind (trade_row ?P) (\<lambda>t b. b\<lparr>pe_trades := pe_trades b @ [t]\<rparr>) prev lst (mk_trades s) [] 0
      = (k1, o1, l1)" by (rule prod_cases3)
  obtain k2 o2 l2 where d2: "drain_kind (liquidation_row ?P) (\<lambda>l b. b\<lparr>pe_liquidations := pe_liquidations b @ [l]\<rparr>) prev lst
      (mk_liquidations s) o1 l1 = (k2, o2, l2)" by (rule prod_cases3)
  obtain k3 o3 l3 where d3: "drain_kind (funding_row ?P) (\<lambda>f b. b\<lparr>pe_funding := pe_funding b @ [f]\<rparr>) prev lst
      (mk_funding_rates s) o2 l2 = (k3, o3, l3)" by (rule prod_cases3)
  obtain k4 o4 l4 where d4: "drain_kind (oi_row ?P) (\<lambda>i b. b\<lparr>pe_open_interest := pe_open_interest b @ [i]\<rparr>) prev lst
      (mk_open_interests s) o3 l3 = (k4, o4, l4)" by (rule prod_cases3)
  obtain k5 o5 where d5: "drain_settlements ?P prev lst (mk_funding_settlements s) o4 = (k5, o5)" by fastforce
  have res: "out = o5" "s' = s\<lparr>mk_trades := k1, mk_liquidations := k2, mk_funding_rates := k3, mk_open_interests := k4,
      mk_funding_settlements := k5, mk_late_events_dropped := mk_late_events_dropped s + l4\<rparr>"
    using assms by (simp_all add: drain_events_def Let_def d1 d2 d3 d4 d5)
  note s1 = drain_kind_spec [OF d1] and s2 = drain_kind_spec [OF d2] and s3 = drain_kind_spec [OF d3]
    and s4 = drain_kind_spec [OF d4] and s5 = drain_settlements_spec [OF d5]
  note kept = s1 [THEN conjunct1] s2 [THEN conjunct1] s3 [THEN conjunct1] s4 [THEN conjunct1] s5 [THEN conjunct1]
  have late: "l4 = of_nat (length (late_of (trade_row ?P) prev (mk_trades s))
                 + length (late_of (liquidation_row ?P) prev (mk_liquidations s))
                 + length (late_of (funding_row ?P) prev (mk_funding_rates s))
                 + length (late_of (oi_row ?P) prev (mk_open_interests s)))"
    unfolding s4 [THEN conjunct2, THEN conjunct1] s3 [THEN conjunct2, THEN conjunct1]
      s2 [THEN conjunct2, THEN conjunct1] s1 [THEN conjunct2, THEN conjunct1] by (simp only: of_nat_add add_0)
  have b0: "bundle_at [] p = period_events_default" by (simp add: bundle_at_def unwrap_or_def)
  note bundles = s5 [THEN conjunct2, of p] s4 [THEN conjunct2, THEN conjunct2, of p] s3 [THEN conjunct2, THEN conjunct2, of p]
    s2 [THEN conjunct2, THEN conjunct2, of p] s1 [THEN conjunct2, THEN conjunct2, of p]
  show "s' = s\<lparr>mk_trades := kept_by (trade_row ?P) prev lst (mk_trades s),
       mk_liquidations := kept_by (liquidation_row ?P) prev lst (mk_liquidations s),
       mk_funding_rates := kept_by (funding_row ?P) prev lst (mk_funding_rates s),
       mk_open_interests := kept_by (oi_row ?P) prev lst (mk_open_interests s),
       mk_funding_settlements := filter (\<lambda>x. \<not> settlement_row ?P prev x \<le> lst) (mk_funding_settlements s),
       mk_late_events_dropped := mk_late_events_dropped s
         + of_nat (length (late_of (trade_row ?P) prev (mk_trades s))
                 + length (late_of (liquidation_row ?P) prev (mk_liquidations s))
                 + length (late_of (funding_row ?P) prev (mk_funding_rates s))
                 + length (late_of (oi_row ?P) prev (mk_open_interests s)))\<rparr>"
    by (simp only: res kept late)
  show "bundle_at out p =
      \<lparr>pe_trades = due_at (trade_row ?P) prev lst p (mk_trades s),
       pe_liquidations = due_at (liquidation_row ?P) prev lst p (mk_liquidations s),
       pe_funding = due_at (funding_row ?P) prev lst p (mk_funding_rates s),
       pe_open_interest = due_at (oi_row ?P) prev lst p (mk_open_interests s),
       pe_funding_settlements = filter (\<lambda>x. settlement_row ?P prev x = p)
         (filter (\<lambda>x. settlement_row ?P prev x \<le> lst) (mk_funding_settlements s))\<rparr>"
    by (simp only: res bundles b0 fold_push) (simp add: period_events_default_def)
qed

section \<open>Nothing is lost\<close>

lemma periods_after_due:
  assumes "unat prev + unat n < 2 ^ 64"
  shows "set (periods_after prev n) = {p. due_row prev (prev + n) p}" and "distinct (periods_after prev n)"
proof -
  have sum: "unat (prev + n) = unat prev + unat n" using assms by (simp add: unat_word_ariths)
  have inj: "inj_on (of_nat :: nat \<Rightarrow> u64) {unat prev + 1 ..< unat prev + unat n + 1}"
    using assms by (auto simp: inj_on_def word_of_nat_eq_iff take_bit_nat_eq_self)
  have "p \<in> of_nat ` {unat prev + 1 ..< unat prev + unat n + 1} \<longleftrightarrow> due_row prev (prev + n) p" for p :: u64
  proof
    assume "p \<in> of_nat ` {unat prev + 1 ..< unat prev + unat n + 1}"
    then obtain k where k: "p = of_nat k" "unat prev < k" "k \<le> unat prev + unat n" by auto
    then have "unat p = k" using assms by (simp add: unat_of_nat take_bit_nat_eq_self)
    with k sum show "due_row prev (prev + n) p" by (simp add: word_le_nat_alt)
  next
    assume "due_row prev (prev + n) p"
    then have "unat p \<in> {unat prev + 1 ..< unat prev + unat n + 1}" using sum by (simp add: word_le_nat_alt)
    moreover have "p = of_nat (unat p)" by simp
    ultimately show "p \<in> of_nat ` {unat prev + 1 ..< unat prev + unat n + 1}" by blast
  qed
  then show "set (periods_after prev n) = {p. due_row prev (prev + n) p}"
    unfolding periods_after_nat [OF assms] by (auto simp del: upt_Suc)
  show "distinct (periods_after prev n)"
    unfolding periods_after_nat [OF assms] using inj by (simp add: distinct_map del: upt_Suc)
qed

lemma concat_filter_mset:
  "distinct ps \<Longrightarrow> mset (concat (map (\<lambda>p. filter (\<lambda>x. f x = p) xs) ps)) = mset (filter (\<lambda>x. f x \<in> set ps) xs)"
proof (induction ps)
  case (Cons p ps)
  have "filter_mset (\<lambda>x. f x = p \<or> f x \<in> set ps) (mset xs) =
      filter_mset (\<lambda>x. f x = p) (mset xs) + filter_mset (\<lambda>x. f x \<in> set ps) (mset xs)"
    using Cons.prems by (intro multiset_eqI) auto
  with Cons show ?case by simp
qed simp

lemma concat_due_mset:
  assumes "unat prev + unat n < 2 ^ 64"
  shows "mset (concat (map (\<lambda>p. due_at row prev (prev + n) p xs) (periods_after prev n)))
    = mset (filter (\<lambda>x. due_row prev (prev + n) (row x)) xs)"
  unfolding concat_filter_mset [OF periods_after_due(2) [OF assms]] periods_after_due(1) [OF assms] by simp

text \<open>What came in is what went out, what still waits and what was counted as late.\<close>

definition accounted :: "'x list \<Rightarrow> 'x list \<Rightarrow> 'x list \<Rightarrow> 'x multiset \<Rightarrow> bool" where
  "accounted fed emitted pending dropped \<longleftrightarrow> mset fed = mset emitted + mset pending + dropped"

lemma accounted_drain:
  assumes "accounted fed emitted pending dropped"
    and "mset emitted' = mset emitted + mset (filter (\<lambda>x. due_row prev lst (row x)) pending)"
  shows "accounted fed emitted' (kept_by row prev lst pending) (dropped + mset (late_of row prev pending))"
proof -
  have "mset pending = mset (late_of row prev pending) + mset (filter (\<lambda>x. due_row prev lst (row x)) pending)
      + mset (kept_by row prev lst pending)"
    by (induction pending) auto
  then show ?thesis
    unfolding accounted_def assms(1) [unfolded accounted_def] assms(2) by (simp only: ac_simps)
qed

lemma accounted_snoc: "accounted fed emitted pending dropped \<Longrightarrow> accounted (fed @ [x]) emitted (pending @ [x]) dropped"
  by (simp add: accounted_def)

definition ledger :: "'d period_events \<Rightarrow> 'd market_synchronizer \<Rightarrow> bool" where
  "ledger fed s \<longleftrightarrow> (\<exists>LT LL LF LO.
     accounted (pe_trades fed) (concat (map ms_trades (mk_buffer s))) (mk_trades s) LT
   \<and> accounted (pe_liquidations fed) (concat (map ms_liquidations (mk_buffer s))) (mk_liquidations s) LL
   \<and> accounted (pe_funding fed) (concat (map ms_funding_rate (mk_buffer s))) (mk_funding_rates s) LF
   \<and> accounted (pe_open_interest fed) (concat (map ms_open_interest (mk_buffer s))) (mk_open_interests s) LO
   \<and> accounted (pe_funding_settlements fed) (concat (map ms_funding_settlements (mk_buffer s))) (mk_funding_settlements s) {#}
   \<and> mk_late_events_dropped s = of_nat (size LT + size LL + size LF + size LO))"

lemma emit_rows_parts:
  assumes "unat prev + unat fill < 2 ^ 64"
    and s'_def: "s' = emit_rows book prev fill s"
  shows "mset (concat (map ms_trades (mk_buffer s'))) = mset (concat (map ms_trades (mk_buffer s)))
      + mset (filter (\<lambda>x. due_row prev (prev + fill) (trade_row (mk_period_us s) x)) (mk_trades s))"
    and "mset (concat (map ms_liquidations (mk_buffer s'))) = mset (concat (map ms_liquidations (mk_buffer s)))
      + mset (filter (\<lambda>x. due_row prev (prev + fill) (liquidation_row (mk_period_us s) x)) (mk_liquidations s))"
    and "mset (concat (map ms_funding_rate (mk_buffer s'))) = mset (concat (map ms_funding_rate (mk_buffer s)))
      + mset (filter (\<lambda>x. due_row prev (prev + fill) (funding_row (mk_period_us s) x)) (mk_funding_rates s))"
    and "mset (concat (map ms_open_interest (mk_buffer s'))) = mset (concat (map ms_open_interest (mk_buffer s)))
      + mset (filter (\<lambda>x. due_row prev (prev + fill) (oi_row (mk_period_us s) x)) (mk_open_interests s))"
proof -
  let ?P = "mk_period_us s" and ?lst = "prev + fill"
  obtain out s1 where d: "drain_events prev ?lst s = (out, s1)" by fastforce
  note b = drain_events_spec(2) [OF d] and s1 = drain_events_spec(1) [OF d]
  have buf: "mk_buffer s' = mk_buffer s
      @ map (\<lambda>p. market_row ?P p (book p s1) (bundle_at out p)) (periods_after prev fill)"
    unfolding s'_def emit_rows_def Let_def d by (simp add: prune_books_def s1)
  show "mset (concat (map ms_trades (mk_buffer s'))) = mset (concat (map ms_trades (mk_buffer s)))
      + mset (filter (\<lambda>x. due_row prev ?lst (trade_row ?P x)) (mk_trades s))"
    unfolding concat_due_mset [OF assms(1), symmetric] by (simp add: buf market_row_def b comp_def)
  show "mset (concat (map ms_liquidations (mk_buffer s'))) = mset (concat (map ms_liquidations (mk_buffer s)))
      + mset (filter (\<lambda>x. due_row prev ?lst (liquidation_row ?P x)) (mk_liquidations s))"
    unfolding concat_due_mset [OF assms(1), symmetric] by (simp add: buf market_row_def b comp_def)
  show "mset (concat (map ms_funding_rate (mk_buffer s'))) = mset (concat (map ms_funding_rate (mk_buffer s)))
      + mset (filter (\<lambda>x. due_row prev ?lst (funding_row ?P x)) (mk_funding_rates s))"
    unfolding concat_due_mset [OF assms(1), symmetric] by (simp add: buf market_row_def b comp_def)
  show "mset (concat (map ms_open_interest (mk_buffer s'))) = mset (concat (map ms_open_interest (mk_buffer s)))
      + mset (filter (\<lambda>x. due_row prev ?lst (oi_row ?P x)) (mk_open_interests s))"
    unfolding concat_due_mset [OF assms(1), symmetric] by (simp add: buf market_row_def b comp_def)
qed

lemma emit_rows_settlements:
  assumes "unat prev + unat fill < 2 ^ 64" and "0 < unat fill" and s'_def: "s' = emit_rows book prev fill s"
  shows "mset (concat (map ms_funding_settlements (mk_buffer s'))) = mset (concat (map ms_funding_settlements (mk_buffer s)))
      + mset (filter (\<lambda>x. settlement_row (mk_period_us s) prev x \<le> prev + fill) (mk_funding_settlements s))"
proof -
  let ?P = "mk_period_us s" and ?lst = "prev + fill"
  obtain out s1 where d: "drain_events prev ?lst s = (out, s1)" by fastforce
  note b = drain_events_spec(2) [OF d] and s1 = drain_events_spec(1) [OF d]
  have buf: "mk_buffer s' = mk_buffer s
      @ map (\<lambda>p. market_row ?P p (book p s1) (bundle_at out p)) (periods_after prev fill)"
    unfolding s'_def emit_rows_def Let_def d by (simp add: prune_books_def s1)
  have "unat (prev + 1) = unat prev + 1" using assms(1,2) by (simp add: unat_word_ariths)
  then have above: "\<not> prev + 1 \<le> prev" by (simp add: word_le_nat_alt)
  have "mset (concat (map (\<lambda>p. filter (\<lambda>x. settlement_row ?P prev x = p)
        (filter (\<lambda>x. settlement_row ?P prev x \<le> ?lst) (mk_funding_settlements s))) (periods_after prev fill)))
      = mset (filter (\<lambda>x. settlement_row ?P prev x \<le> ?lst) (mk_funding_settlements s))"
    unfolding concat_filter_mset [OF periods_after_due(2) [OF assms(1)]] periods_after_due(1) [OF assms(1)]
    by (simp add: above conj_commute)
  then show ?thesis by (simp add: buf market_row_def b comp_def)
qed

lemma emit_rows_state:
  "mk_trades (emit_rows book prev fill s) = kept_by (trade_row (mk_period_us s)) prev (prev + fill) (mk_trades s)"
  "mk_liquidations (emit_rows book prev fill s) = kept_by (liquidation_row (mk_period_us s)) prev (prev + fill) (mk_liquidations s)"
  "mk_funding_rates (emit_rows book prev fill s) = kept_by (funding_row (mk_period_us s)) prev (prev + fill) (mk_funding_rates s)"
  "mk_open_interests (emit_rows book prev fill s) = kept_by (oi_row (mk_period_us s)) prev (prev + fill) (mk_open_interests s)"
  "mk_funding_settlements (emit_rows book prev fill s) =
     filter (\<lambda>x. \<not> settlement_row (mk_period_us s) prev x \<le> prev + fill) (mk_funding_settlements s)"
  "mk_late_events_dropped (emit_rows book prev fill s) = mk_late_events_dropped s
         + of_nat (length (late_of (trade_row (mk_period_us s)) prev (mk_trades s))
                 + length (late_of (liquidation_row (mk_period_us s)) prev (mk_liquidations s))
                 + length (late_of (funding_row (mk_period_us s)) prev (mk_funding_rates s))
                 + length (late_of (oi_row (mk_period_us s)) prev (mk_open_interests s)))"
  "mk_period_us (emit_rows book prev fill s) = mk_period_us s"
  "mk_finalized (emit_rows book prev fill s) = mk_finalized s"
  "mk_clock_mode (emit_rows book prev fill s) = mk_clock_mode s"
proof -
  obtain out s1 where d: "drain_events prev (prev + fill) s = (out, s1)" by fastforce
  note s1 = drain_events_spec(1) [OF d]
  have "emit_rows book prev fill s = prune_books (prev + fill)
      (s1\<lparr>mk_buffer := mk_buffer s1 @ map (\<lambda>p. market_row (mk_period_us s1) p (book p s1) (bundle_at out p)) (periods_after prev fill)\<rparr>)"
    unfolding emit_rows_def Let_def d by simp
  note eq = this [unfolded prune_books_def]
  show "mk_trades (emit_rows book prev fill s) = kept_by (trade_row (mk_period_us s)) prev (prev + fill) (mk_trades s)"
    "mk_liquidations (emit_rows book prev fill s) = kept_by (liquidation_row (mk_period_us s)) prev (prev + fill) (mk_liquidations s)"
    "mk_funding_rates (emit_rows book prev fill s) = kept_by (funding_row (mk_period_us s)) prev (prev + fill) (mk_funding_rates s)"
    "mk_open_interests (emit_rows book prev fill s) = kept_by (oi_row (mk_period_us s)) prev (prev + fill) (mk_open_interests s)"
    "mk_funding_settlements (emit_rows book prev fill s) =
       filter (\<lambda>x. \<not> settlement_row (mk_period_us s) prev x \<le> prev + fill) (mk_funding_settlements s)"
    "mk_late_events_dropped (emit_rows book prev fill s) = mk_late_events_dropped s
         + of_nat (length (late_of (trade_row (mk_period_us s)) prev (mk_trades s))
                 + length (late_of (liquidation_row (mk_period_us s)) prev (mk_liquidations s))
                 + length (late_of (funding_row (mk_period_us s)) prev (mk_funding_rates s))
                 + length (late_of (oi_row (mk_period_us s)) prev (mk_open_interests s)))"
    "mk_period_us (emit_rows book prev fill s) = mk_period_us s"
    "mk_finalized (emit_rows book prev fill s) = mk_finalized s"
    "mk_clock_mode (emit_rows book prev fill s) = mk_clock_mode s"
    unfolding eq by (simp_all add: s1)
qed

lemma accounted_settle:
  assumes "accounted fed emitted pending {#}"
    and "mset emitted' = mset emitted + mset (filter Q pending)"
  shows "accounted fed emitted' (filter (\<lambda>x. \<not> Q x) pending) {#}"
proof -
  have "mset pending = mset (filter Q pending) + mset (filter (\<lambda>x. \<not> Q x) pending)" by (induction pending) auto
  then show ?thesis
    unfolding accounted_def assms(1) [unfolded accounted_def] assms(2) by (simp only: ac_simps)
qed

lemma emit_rows_ledger:
  assumes fits: "unat prev + unat fill < 2 ^ 64" "0 < unat fill" and led: "ledger fed s"
  shows "ledger fed (emit_rows book prev fill s)"
proof -
  let ?s = "emit_rows book prev fill s"
  from led obtain LT LL LF LO where l:
    "accounted (pe_trades fed) (concat (map ms_trades (mk_buffer s))) (mk_trades s) LT"
    "accounted (pe_liquidations fed) (concat (map ms_liquidations (mk_buffer s))) (mk_liquidations s) LL"
    "accounted (pe_funding fed) (concat (map ms_funding_rate (mk_buffer s))) (mk_funding_rates s) LF"
    "accounted (pe_open_interest fed) (concat (map ms_open_interest (mk_buffer s))) (mk_open_interests s) LO"
    "accounted (pe_funding_settlements fed) (concat (map ms_funding_settlements (mk_buffer s))) (mk_funding_settlements s) {#}"
    "mk_late_events_dropped s = of_nat (size LT + size LL + size LF + size LO)"
    unfolding ledger_def by blast
  note parts = emit_rows_parts [OF fits(1) refl, of book s]
  have late: "mk_late_events_dropped ?s = of_nat
      (size (LT + mset (late_of (trade_row (mk_period_us s)) prev (mk_trades s)))
     + size (LL + mset (late_of (liquidation_row (mk_period_us s)) prev (mk_liquidations s)))
     + size (LF + mset (late_of (funding_row (mk_period_us s)) prev (mk_funding_rates s)))
     + size (LO + mset (late_of (oi_row (mk_period_us s)) prev (mk_open_interests s))))"
    unfolding emit_rows_state(6) l(6) size_union size_mset of_nat_add by (simp only: ac_simps)
  show ?thesis
    unfolding ledger_def emit_rows_state(1-5)
    by (intro exI conjI) (rule accounted_drain [OF l(1) parts(1)], rule accounted_drain [OF l(2) parts(2)],
        rule accounted_drain [OF l(3) parts(3)], rule accounted_drain [OF l(4) parts(4)],
        rule accounted_settle [OF l(5) emit_rows_settlements [OF fits refl]], rule late)
qed

section \<open>Rows hold what belongs to them\<close>

text \<open>
  A row at \<open>row * P\<close> holds events of its own period only, and a book that was received with a
  timestamp of an earlier period than the row's label.
\<close>

definition row_ok :: "u64 \<Rightarrow> (u64 \<times> 'd orderbook) list \<Rightarrow> 'd market_snapshot \<Rightarrow> bool" where
  "row_ok P fed_books snap \<longleftrightarrow> (\<exists>row. ms_ts_us snap = row * P
     \<and> (\<forall>t \<in> set (ms_trades snap). trade_row P t = row)
     \<and> (\<forall>l \<in> set (ms_liquidations snap). liquidation_row P l = row)
     \<and> (\<forall>f \<in> set (ms_funding_rate snap). funding_row P f = row)
     \<and> (\<forall>i \<in> set (ms_open_interest snap). oi_row P i = row)
     \<and> (\<forall>ob. ms_orderbook snap = Some ob \<longrightarrow> (\<exists>ts. (ts, ob) \<in> set fed_books \<and> ts div P < row)))"

definition books_ok :: "u64 \<Rightarrow> (u64 \<times> 'd orderbook) list \<Rightarrow> (string, (u64, 'd orderbook) btree) hash_map \<Rightarrow> bool" where
  "books_ok P fed_books bks \<longleftrightarrow>
     (\<forall>(key, m) \<in> set bks. \<forall>(k, ob) \<in> set m. \<exists>ts. (ts, ob) \<in> set fed_books \<and> ts div P = k)"

lemma bt_insert_id_set: "x \<in> set (bt_insert id k v m) \<Longrightarrow> x = (k, v) \<or> x \<in> set m"
  by (induction m) (auto split: if_splits)

lemma books_ok_record:
  assumes "books_ok (mk_period_us s) fed (mk_books s)"
  shows "books_ok (mk_period_us s) (fed @ [(ts, ob)]) (mk_books (record_book key ts ob s))"
  unfolding books_ok_def
proof clarify
  fix key' m k b
  assume "(key', m) \<in> set (mk_books (record_book key ts ob s))" and kb: "(k, b) \<in> set m"
  then have "(key', m) \<in> set (mk_books s)
      \<or> m = bt_insert id (ts div mk_period_us s) ob (unwrap_or (hm_get (mk_books s) key) [])"
    by (auto simp: record_book_def dest!: hm_insert_set)
  then have "(k, b) = (ts div mk_period_us s, ob) \<or> (\<exists>key' m'. (key', m') \<in> set (mk_books s) \<and> (k, b) \<in> set m')"
  proof
    assume m: "m = bt_insert id (ts div mk_period_us s) ob (unwrap_or (hm_get (mk_books s) key) [])"
    show ?thesis
    proof (cases "hm_get (mk_books s) key")
      case None
      with m kb bt_insert_id_set [of "(k, b)"] show ?thesis by (simp add: unwrap_or_def)
    next
      case (Some m')
      then have "(k, b) \<in> set (bt_insert id (ts div mk_period_us s) ob m')" using m kb by (simp add: unwrap_or_def)
      from bt_insert_id_set [OF this] map_of_SomeD [OF Some] show ?thesis by auto
    qed
  qed (use kb in blast)
  then show "\<exists>ts'. (ts', b) \<in> set (fed @ [(ts, ob)]) \<and> ts' div mk_period_us s = k"
    using assms unfolding books_ok_def by fastforce
qed

lemma book_before_ok:
  assumes "\<forall>(k, ob) \<in> set m. \<exists>ts. (ts, ob) \<in> set fed \<and> ts div P = k" and "book_before row m = Some ob"
  shows "\<exists>ts. (ts, ob) \<in> set fed \<and> ts div P < row"
proof -
  obtain k where "bt_last (bt_range_below id row m) = Some (k, ob)"
    using assms(2) by (auto simp: book_before_def)
  then have "(k, ob) \<in> set m" "k < row"
    using bt_last_mem [of "bt_range_below id row m"] by (auto simp: bt_range_below_def)
  with assms(1) show ?thesis by fastforce
qed

lemma as_of_book_ok:
  assumes "books_ok P fed (mk_books s)"
  shows "as_of_book key row s = Some ob \<Longrightarrow> \<exists>ts. (ts, ob) \<in> set fed \<and> ts div P < row"
    and "as_of_book_any row s = Some ob \<Longrightarrow> \<exists>ts. (ts, ob) \<in> set fed \<and> ts div P < row"
proof -
  assume "as_of_book key row s = Some ob"
  then obtain m where "hm_get (mk_books s) key = Some m" and b: "book_before row m = Some ob"
    by (auto simp: as_of_book_def bind_eq_Some_conv)
  then have "(key, m) \<in> set (mk_books s)" by (simp add: map_of_SomeD)
  with assms book_before_ok [OF _ b] show "\<exists>ts. (ts, ob) \<in> set fed \<and> ts div P < row" unfolding books_ok_def by fastforce
next
  assume "as_of_book_any row s = Some ob"
  then obtain key m rest where "mk_books s = (key, m) # rest" and b: "book_before row m = Some ob"
    by (auto simp: as_of_book_any_def split: list.splits)
  with assms book_before_ok [OF _ b] show "\<exists>ts. (ts, ob) \<in> set fed \<and> ts div P < row" unfolding books_ok_def by fastforce
qed

lemma books_ok_prune: "books_ok P fed bks \<Longrightarrow> books_ok P fed (hm_map_values (prune_side row) bks)"
  by (auto simp: books_ok_def hm_map_values_def prune_side_def split: option.splits) fastforce+

lemma row_ok_extend: "row_ok P fed snap \<Longrightarrow> row_ok P (fed @ extra) snap"
  unfolding row_ok_def by (elim ex_forward) auto

lemma emit_rows_row_ok:
  assumes "books_ok (mk_period_us s) fed (mk_books s)" and "snap \<in> set (mk_buffer (emit_rows book prev fill s))"
    and book: "\<And>p s' ob. mk_books s' = mk_books s \<Longrightarrow> book p s' = Some ob \<Longrightarrow> \<exists>ts. (ts, ob) \<in> set fed \<and> ts div mk_period_us s < p"
  shows "snap \<in> set (mk_buffer s) \<or> row_ok (mk_period_us s) fed snap"
proof -
  let ?P = "mk_period_us s" and ?lst = "prev + fill"
  obtain out s1 where d: "drain_events prev ?lst s = (out, s1)" by fastforce
  note b = drain_events_spec(2) [OF d] and s1 = drain_events_spec(1) [OF d]
  have "mk_buffer (emit_rows book prev fill s) = mk_buffer s
      @ map (\<lambda>p. market_row ?P p (book p s1) (bundle_at out p)) (periods_after prev fill)"
    unfolding emit_rows_def Let_def d by (simp add: prune_books_def s1)
  with assms(2) consider "snap \<in> set (mk_buffer s)" | p where "snap = market_row ?P p (book p s1) (bundle_at out p)" by auto
  then show ?thesis
  proof cases
    case (2 p)
    have "mk_books s1 = mk_books s" by (simp add: s1)
    then have "row_ok ?P fed snap"
      unfolding row_ok_def 2 market_row_def b using book [of s1 p] by (intro exI [of _ p]) auto
    then show ?thesis ..
  qed simp
qed

lemma emit_rows_books: "mk_books (emit_rows book prev fill s) = hm_map_values (prune_side (prev + fill)) (mk_books s)"
proof -
  obtain out s1 where d: "drain_events prev (prev + fill) s = (out, s1)" by fastforce
  show ?thesis unfolding emit_rows_def Let_def d by (simp add: prune_books_def drain_events_spec(1) [OF d])
qed

section \<open>Streams of inputs\<close>

datatype 'd market_input =
    MTime u64
  | MBook trading_pair u64 "'d orderbook"
  | MTrade "'d trade"
  | MLiquidation "'d liquidation"
  | MFunding "'d funding_rate"
  | MSettlement "'d funding_settlement"
  | MOpenInterest "'d open_interest"

fun mk_feed :: "'d market_input \<Rightarrow> 'd market_synchronizer \<Rightarrow> 'd market_synchronizer" where
  "mk_feed (MTime ts) s = snd (mk_on_time ts s)"
| "mk_feed (MBook pair ts ob) s = snd (mk_on_orderbook pair ts ob s)"
| "mk_feed (MTrade t) s = snd (mk_on_trade t s)"
| "mk_feed (MLiquidation l) s = snd (mk_on_liquidation l s)"
| "mk_feed (MFunding f) s = mk_on_funding f s"
| "mk_feed (MSettlement x) s = mk_on_funding_settlement x s"
| "mk_feed (MOpenInterest i) s = mk_on_open_interest i s"

fun note_fed :: "'d market_input \<Rightarrow> 'd period_events \<Rightarrow> 'd period_events" where
  "note_fed (MTrade t) b = b\<lparr>pe_trades := pe_trades b @ [t]\<rparr>"
| "note_fed (MLiquidation l) b = b\<lparr>pe_liquidations := pe_liquidations b @ [l]\<rparr>"
| "note_fed (MFunding f) b = b\<lparr>pe_funding := pe_funding b @ [f]\<rparr>"
| "note_fed (MOpenInterest i) b = b\<lparr>pe_open_interest := pe_open_interest b @ [i]\<rparr>"
| "note_fed (MSettlement x) b = b\<lparr>pe_funding_settlements := pe_funding_settlements b @ [x]\<rparr>"
| "note_fed _ b = b"

definition fed_events :: "'d market_input list \<Rightarrow> 'd period_events" where
  "fed_events ins = fold note_fed ins period_events_default"

definition fed_books :: "'d market_input list \<Rightarrow> (u64 \<times> 'd orderbook) list" where
  "fed_books ins = List.map_filter (\<lambda>i. case i of MBook pair ts ob \<Rightarrow> Some (ts, ob) | _ \<Rightarrow> None) ins"

definition market_inv :: "'d period_events \<Rightarrow> (u64 \<times> 'd orderbook) list \<Rightarrow> 'd market_synchronizer \<Rightarrow> bool" where
  "market_inv fed bks s \<longleftrightarrow>
     \<not> mk_finalized s \<and> ledger fed s \<and> books_ok (mk_period_us s) bks (mk_books s)
   \<and> (\<forall>snap \<in> set (mk_buffer s). row_ok (mk_period_us s) bks snap)"

lemma fill_fits:
  assumes "\<not> cur \<le> (prev :: u64)"
  shows "unat prev + unat (min (cur - prev) MARKET_MAX_GAP_FILL) < 2 ^ 64"
    and "0 < unat (min (cur - prev) MARKET_MAX_GAP_FILL)"
proof -
  have "unat (cur - prev) = unat cur - unat prev" "unat prev < unat cur"
    using assms by (auto simp: unat_sub word_le_nat_alt)
  moreover have "unat cur < 2 ^ 64" using unsigned_less [where 'a = nat, of cur] by simp
  moreover have "unat (min (cur - prev) MARKET_MAX_GAP_FILL) \<le> unat (cur - prev)"
    by (metis min.cobounded1 word_le_nat_alt)
  moreover have "0 < unat MARKET_MAX_GAP_FILL" by (simp add: MARKET_MAX_GAP_FILL_def)
  ultimately show "unat prev + unat (min (cur - prev) MARKET_MAX_GAP_FILL) < 2 ^ 64"
    "0 < unat (min (cur - prev) MARKET_MAX_GAP_FILL)"
    by (simp_all add: min_def)
qed

lemma emit_rows_inv:
  assumes inv: "market_inv fed bks s" and gap: "\<not> cur \<le> prev" and bk: "book = as_of_book_any \<or> (\<exists>key. book = as_of_book key)"
  shows "market_inv fed bks (emit_rows book prev (min (cur - prev) MARKET_MAX_GAP_FILL) s)"
proof -
  let ?s = "emit_rows book prev (min (cur - prev) MARKET_MAX_GAP_FILL) s"
  have bok: "books_ok (mk_period_us s) bks (mk_books s)" using inv by (simp add: market_inv_def)
  have look: "\<exists>ts. (ts, ob) \<in> set bks \<and> ts div mk_period_us s < p" if "mk_books s' = mk_books s" "book p s' = Some ob" for p s' ob
    using that bk as_of_book_ok [of "mk_period_us s" bks s'] bok by auto
  have "\<forall>snap \<in> set (mk_buffer ?s). row_ok (mk_period_us s) bks snap"
  proof
    fix snap
    assume "snap \<in> set (mk_buffer ?s)"
    then have "snap \<in> set (mk_buffer s) \<or> row_ok (mk_period_us s) bks snap"
      by (rule emit_rows_row_ok [OF bok]) (rule look)
    with inv show "row_ok (mk_period_us s) bks snap" by (auto simp: market_inv_def)
  qed
  with emit_rows_ledger [OF fill_fits [OF gap], of fed s book] inv books_ok_prune [OF bok] show ?thesis
    by (simp add: market_inv_def emit_rows_state emit_rows_books)
qed

lemma market_inv_bookkeeping [simp]:
  "market_inv fed bks (s\<lparr>mk_clock_period := c\<rparr>) = market_inv fed bks s"
  "market_inv fed bks (s\<lparr>mk_total_captured := n\<rparr>) = market_inv fed bks s"
  "market_inv fed bks (s\<lparr>mk_last_period := m\<rparr>) = market_inv fed bks s"
  by (simp_all add: market_inv_def ledger_def)

lemma advance_grid_inv: "market_inv fed bks s \<Longrightarrow> market_inv fed bks (snd (advance_grid ts s))"
  by (auto simp: advance_grid_def Let_def emit_rows_inv split: option.splits)

lemma record_book_inv:
  assumes "market_inv fed bks s"
  shows "market_inv fed (bks @ [(ts, ob)]) (record_book key ts ob s)"
  using assms books_ok_record [of s bks ts ob key] row_ok_extend [of "mk_period_us s" bks]
  by (auto simp: market_inv_def ledger_def record_book_def)

lemma market_inv_event:
  assumes "market_inv fed bks s"
  shows "market_inv (fed\<lparr>pe_trades := pe_trades fed @ [t]\<rparr>) bks (s\<lparr>mk_trades := mk_trades s @ [t]\<rparr>)"
    and "market_inv (fed\<lparr>pe_liquidations := pe_liquidations fed @ [l]\<rparr>) bks (s\<lparr>mk_liquidations := mk_liquidations s @ [l]\<rparr>)"
    and "market_inv (fed\<lparr>pe_funding := pe_funding fed @ [f]\<rparr>) bks (s\<lparr>mk_funding_rates := mk_funding_rates s @ [f]\<rparr>)"
    and "market_inv (fed\<lparr>pe_open_interest := pe_open_interest fed @ [i]\<rparr>) bks (s\<lparr>mk_open_interests := mk_open_interests s @ [i]\<rparr>)"
    and "market_inv (fed\<lparr>pe_funding_settlements := pe_funding_settlements fed @ [x]\<rparr>) bks
           (s\<lparr>mk_funding_settlements := mk_funding_settlements s @ [x]\<rparr>)"
  using assms unfolding market_inv_def ledger_def
  by (simp_all del: mset_append) (blast intro: accounted_snoc)+

lemma mk_feed_inv:
  assumes inv: "market_inv fed bks s"
  shows "market_inv (note_fed i fed) (bks @ fed_books [i]) (mk_feed i s)"
proof (cases i)
  case (MTime ts)
  with inv advance_grid_inv [OF inv, of ts] show ?thesis
    by (simp add: mk_on_time_def fed_books_def List.map_filter_def market_inv_def)
next
  case (MBook pair ts ob)
  let ?key = "to_canonical pair"
  have nf: "\<not> mk_finalized s" using inv by (simp add: market_inv_def)
  have fb: "fed_books [i] = [(ts, ob)]" by (simp add: MBook fed_books_def List.map_filter_def)
  have rec: "market_inv fed (bks @ [(ts, ob)]) (record_book ?key ts ob s')" if "market_inv fed bks s'" for s'
    by (rule record_book_inv [OF that])
  have "market_inv fed (bks @ [(ts, ob)]) (snd (mk_on_orderbook pair ts ob s))"
    using nf by (auto simp: mk_on_orderbook_def Let_def inv intro!: rec emit_rows_inv split: option.splits)
  then show ?thesis by (simp add: MBook fb [unfolded MBook])
next
  case (MTrade t)
  have nf: "\<not> mk_finalized s" using inv by (simp add: market_inv_def)
  with market_inv_event(1) [OF inv, of t] show ?thesis
    by (auto simp: MTrade mk_on_trade_def Let_def fed_books_def List.map_filter_def intro: advance_grid_inv)
next
  case (MLiquidation l)
  have nf: "\<not> mk_finalized s" using inv by (simp add: market_inv_def)
  with market_inv_event(2) [OF inv, of l] show ?thesis
    by (auto simp: MLiquidation mk_on_liquidation_def Let_def fed_books_def List.map_filter_def intro: advance_grid_inv)
qed (use market_inv_event(3-5) [OF inv] inv in
    \<open>simp_all add: mk_on_funding_def mk_on_funding_settlement_def mk_on_open_interest_def fed_books_def
      List.map_filter_def market_inv_def\<close>)

lemma market_run_inv:
  assumes "market_inv period_events_default [] s0"
  shows "market_inv (fed_events ins) (fed_books ins) (fold mk_feed ins s0)"
proof (induction ins rule: rev_induct)
  case Nil
  then show ?case using assms by (simp add: fed_events_def fed_books_def List.map_filter_def)
next
  case (snoc i ins)
  have "fed_books (ins @ [i]) = fed_books ins @ fed_books [i]" by (simp add: fed_books_def List.map_filter_def)
  with mk_feed_inv [OF snoc, of i] show ?case by (simp add: fed_events_def)
qed

lemma market_new_inv:
  "with_clock_mode P mode = Some s \<Longrightarrow> market_inv period_events_default [] (set_emission_delay_us delay s)"
  by (auto simp: with_clock_mode_def market_inv_def ledger_def accounted_def books_ok_def period_events_default_def
      set_emission_delay_us_def split: if_splits)


lemma advance_grid_period: "mk_period_us (snd (advance_grid ts s)) = mk_period_us s"
  by (auto simp: advance_grid_def Let_def emit_rows_state split: option.splits)

lemma mk_feed_period: "mk_period_us (mk_feed i s) = mk_period_us s"
  by (cases i) (auto simp: mk_on_time_def mk_on_orderbook_def mk_on_trade_def mk_on_liquidation_def mk_on_funding_def
      mk_on_funding_settlement_def mk_on_open_interest_def mk_drop_post_finalize_def record_book_def Let_def
      advance_grid_period emit_rows_state split: option.splits)

lemma market_run_period:
  assumes "with_clock_mode P mode = Some s0"
  shows "mk_period_us (fold mk_feed ins (set_emission_delay_us delay s0)) = P"
  using assms
  by (induction ins rule: rev_induct) (auto simp: mk_feed_period with_clock_mode_def set_emission_delay_us_def split: if_splits)


lemma finalize_ob_driven_buffer:
  "mk_buffer (finalize_ob_driven s) = mk_buffer s
     @ map (\<lambda>(symbol, period). market_row (mk_period_us s) (period + 1) (as_of_book symbol (- 1) s) (pending_events s)) (mk_last_period s)"
proof -
  have fb: "mk_buffer (fold (\<lambda>(symbol, period) s'. s'\<lparr>mk_buffer := mk_buffer s' @
              [market_row (mk_period_us s) (period + 1) (as_of_book symbol (- 1) s) (pending_events s)],
            mk_total_captured := mk_total_captured s' + 1\<rparr>) sp s') = mk_buffer s'
      @ map (\<lambda>(symbol, period). market_row (mk_period_us s) (period + 1) (as_of_book symbol (- 1) s) (pending_events s)) sp" for sp s'
    by (induction sp arbitrary: s') auto
  show ?thesis unfolding finalize_ob_driven_def fb by (simp add: clear_events_def)
qed

text \<open>
  At the end of an order-book-driven stream the events that still wait are repeated: the final
  row of every tracked symbol carries all of them, so with several symbols each event appears once
  per symbol.
\<close>

lemma final_rows_repeat_pending_events:
  assumes "\<not> mk_finalized s" and "mk_clock_mode s = OrderbookDriven"
  shows "concat (map ms_trades (mk_buffer (mk_finalize s)))
    = concat (map ms_trades (mk_buffer s)) @ concat (replicate (length (mk_last_period s)) (mk_trades s))"
proof -
  let ?s = "s\<lparr>mk_finalized := True\<rparr>"
  have "map (ms_trades \<circ> (\<lambda>(symbol, period). market_row P (period + 1) (as_of_book symbol (- 1) ?s) (pending_events ?s))) sp
      = replicate (length sp) (mk_trades s)" for sp P
    by (induction sp) (auto simp: market_row_def pending_events_def)
  with assms show ?thesis by (simp add: mk_finalize_def Let_def finalize_ob_driven_buffer)
qed

section \<open>Concrete runs\<close>

definition sample_inputs :: "xdec market_input list" where
  "sample_inputs =
     [MTime 5, MBook \<lparr>tp_base = ''BTC'', tp_quote = ''USDT''\<rparr> 6 (sample_grid_book 6),
      MTrade (sample_trade ''1'' (100, 0) (1, 0)), MTime 12]"

lemma sample_market_rows:
  "\<exists>s0. with_clock_mode 10 ExternalClock = Some s0
     \<and> map (map tr_id \<circ> ms_trades) (mk_buffer (fold mk_feed sample_inputs (set_emission_delay_us 0 s0))) = [[''1'']]"
  unfolding with_clock_mode_def sample_inputs_def set_emission_delay_us_def
  by (simp add: mk_on_time_def advance_grid_def Let_def ripe_period_def saturating_sub_def mk_on_orderbook_def record_book_def
      mk_on_trade_def emit_rows_def drain_events_def sample_trade_def MARKET_MAX_GAP_FILL_def periods_after_def
      prune_books_def market_row_def bundle_at_def unwrap_or_def period_events_default_def)

lemma map_singletonD: "map f xs = [y] \<Longrightarrow> \<exists>x. xs = [x] \<and> f x = y"
  by (cases xs) auto



end
