(* ===== verification/Gaps.thy ===== *)
theory Gaps
  imports Reconnect
begin

text \<open>
  Coverage bookkeeping of the workers: the silence detector (\<open>workers/gap_detector.rs\<close>) and the
  ledger of coverage incidents (\<open>workers/gap_ledger.rs\<close>).

  The estimate of dropped prints is computed in \<open>f64\<close>; \<open>rnd\<close> is the rounding of an exact result to
  the nearest representable number.  \<open>f64_rounding\<close> states what IEEE 754 guarantees of it for the
  values that occur here.  A path is its string, with the lexical operations of \<open>std::path\<close>.
\<close>

section \<open>The silence detector\<close>

definition DEFAULT_SILENCE_THRESHOLD :: duration where
  "DEFAULT_SILENCE_THRESHOLD = 5 * 10 ^ 9"

record gap_detector =
  gd_topic :: string
  gd_last_event_at :: "instant option"
  gd_silence_threshold :: duration
  gd_total_gap_ms :: u64
  gd_gap_count :: u64

definition detector_new :: "string \<Rightarrow> duration \<Rightarrow> gap_detector" where
  "detector_new topic threshold =
     \<lparr>gd_topic = topic, gd_last_event_at = None, gd_silence_threshold = threshold, gd_total_gap_ms = 0, gd_gap_count = 0\<rparr>"

definition detector_with_defaults :: "string \<Rightarrow> gap_detector" where
  "detector_with_defaults topic = detector_new topic DEFAULT_SILENCE_THRESHOLD"

definition record_event :: "instant \<Rightarrow> gap_detector \<Rightarrow> u64 option \<times> gap_detector" where
  "record_event now d =
     (let (gap, d) =
        (case gd_last_event_at d of
           None \<Rightarrow> (None, d)
         | Some prev \<Rightarrow>
             (let elapsed = now - prev in
              if elapsed > gd_silence_threshold d
              then let gap_ms = of_nat (as_millis elapsed)
                   in (Some gap_ms, d\<lparr>gd_total_gap_ms := gd_total_gap_ms d + gap_ms, gd_gap_count := gd_gap_count d + 1\<rparr>)
              else (None, d)))
      in (gap, d\<lparr>gd_last_event_at := Some now\<rparr>))"

definition time_since_last_event :: "instant \<Rightarrow> gap_detector \<Rightarrow> duration option" where
  "time_since_last_event now d = map_option (\<lambda>t. now - t) (gd_last_event_at d)"

type_synonym gap_detector_set = "(string, gap_detector) hash_map"

definition detectors_new :: "string list \<Rightarrow> duration \<Rightarrow> gap_detector_set" where
  "detectors_new topics threshold = fold (\<lambda>t m. hm_insert t (detector_new t threshold) m) topics []"

definition detectors_record :: "instant \<Rightarrow> string \<Rightarrow> gap_detector_set \<Rightarrow> u64 option \<times> gap_detector_set" where
  "detectors_record now topic m =
     (case hm_get m topic of
        None \<Rightarrow> (None, m)
      | Some d \<Rightarrow> (case record_event now d of (gap, d) \<Rightarrow> (gap, hm_insert topic d m)))"

record gap_stats =
  gst_topic :: string
  gst_gap_count :: u64
  gst_total_gap_ms :: u64

definition detectors_stats :: "gap_detector_set \<Rightarrow> gap_stats list" where
  "detectors_stats m =
     map (\<lambda>(_, d). \<lparr>gst_topic = gd_topic d, gst_gap_count = gd_gap_count d, gst_total_gap_ms = gd_total_gap_ms d\<rparr>) m"

section \<open>The ledger\<close>

datatype gap_cause = CauseResync | CauseDisconnect

record gap_incident =
  gi_opened_epoch_us :: u64
  gi_closed_epoch_us :: u64
  gi_window_us :: u64
  gi_cause :: gap_cause
  gi_exchange :: string
  gi_symbol :: string
  gi_possible_dropped_trades :: "u64 option"

definition estimate_possible_dropped :: "(rat \<Rightarrow> rat) \<Rightarrow> usize \<Rightarrow> u64 \<Rightarrow> u64" where
  "estimate_possible_dropped rnd trailing_trades_60s window_us =
     (let rate_per_sec = rnd (of_nat trailing_trades_60s / 60);
          window_secs = rnd (rnd (of_nat (unat window_us)) / 1000000)
      in of_nat (min (nat \<lceil>rnd (rate_per_sec * window_secs)\<rceil>) (2 ^ 64 - 1)))"

text \<open>Paths: the last component, and \<open>join\<close>.\<close>

fun split_on :: "char \<Rightarrow> string \<Rightarrow> string list" where
  "split_on c [] = [[]]"
| "split_on c (x # xs) =
     (if x = c then [] # split_on c xs
      else case split_on c xs of [] \<Rightarrow> [[x]] | w # ws \<Rightarrow> (x # w) # ws)"

definition path_file_name :: "string \<Rightarrow> string option" where
  "path_file_name p =
     (case rev (filter (\<lambda>w. w \<noteq> [] \<and> w \<noteq> ''.'') (split_on CHR ''/'' p)) of
        [] \<Rightarrow> None
      | w # _ \<Rightarrow> if w = ''..'' then None else Some w)"

definition path_join :: "string \<Rightarrow> string \<Rightarrow> string" where
  "path_join p q =
     (if q \<noteq> [] \<and> hd q = CHR ''/'' then q
      else if p = [] \<or> last p = CHR ''/'' then p @ q
      else p @ ''/'' @ q)"

text \<open>The part of a string before the first occurrence of a pattern.\<close>

fun before :: "string \<Rightarrow> string \<Rightarrow> string" where
  "before pat [] = []"
| "before pat (x # xs) = (if prefix pat (x # xs) then [] else x # before pat xs)"

definition ledger_path :: "string \<Rightarrow> string \<Rightarrow> string \<Rightarrow> string" where
  "ledger_path output_dir exchange symbol =
     (if contains output_dir ''/recorded/'' \<and> contains output_dir ''{data_type}'' then
        let root = before ''/recorded/'' output_dir;
            binding = unwrap_or (path_file_name output_dir) ''unknown-binding''
        in path_join (path_join root ''gaps'') (binding @ ''_gap_ledger.jsonl'')
      else
        path_join (path_join output_dir ''gaps'')
          (exchange @ ''_'' @ map (\<lambda>c. if c = CHR ''/'' \<or> c = CHR '':'' then CHR ''-'' else c) symbol
             @ ''_gap_ledger.jsonl''))"

text \<open>
  A ledger is the list of its lines.  Appending creates the directory, opens the file for appending
  and writes one line; \<open>io_error\<close> is the error of whichever of these fails.
\<close>

definition ledger_append :: "string option \<Rightarrow> gap_incident \<Rightarrow> gap_incident list \<Rightarrow> (unit, string) result \<times> gap_incident list" where
  "ledger_append io_error incident ls =
     (case io_error of None \<Rightarrow> (Ok (), ls @ [incident]) | Some e \<Rightarrow> (Err e, ls))"

section \<open>Totals of a detector\<close>

text \<open>The silences of a timeline: the distances of neighbours that exceed the threshold.\<close>

definition silences :: "duration \<Rightarrow> instant list \<Rightarrow> duration list" where
  "silences threshold ts = filter (\<lambda>d. d > threshold) (map (\<lambda>(a, b). b - a) (zip ts (tl ts)))"

lemma silences_snoc:
  "ts \<noteq> [] \<Longrightarrow> silences th (ts @ [t]) = silences th ts @ (if t - last ts > th then [t - last ts] else [])"
proof -
  assume "ts \<noteq> []"
  then have "zip (ts @ [t]) (tl (ts @ [t])) = zip ts (tl ts) @ [(last ts, t)]"
    by (induction ts rule: list_nonempty_induct) (auto simp: neq_Nil_conv)
  then show ?thesis by (simp add: silences_def)
qed

lemma detector_run:
  "fold (\<lambda>t d. snd (record_event t d)) ts (detector_new topic th) =
     \<lparr>gd_topic = topic, gd_last_event_at = (if ts = [] then None else Some (last ts)), gd_silence_threshold = th,
      gd_total_gap_ms = of_nat (sum_list (map as_millis (silences th ts))),
      gd_gap_count = of_nat (length (silences th ts))\<rparr>"
proof (induction ts rule: rev_induct)
  case Nil
  show ?case by (simp add: detector_new_def silences_def)
next
  case (snoc t ts)
  show ?case
  proof (cases "ts = []")
    case True
    then show ?thesis by (simp add: detector_new_def silences_def record_event_def)
  next
    case False
    then show ?thesis using snoc by (simp add: silences_snoc record_event_def Let_def)
  qed
qed

section \<open>The estimate\<close>

definition f64_rounding :: "(rat \<Rightarrow> rat) \<Rightarrow> bool" where
  "f64_rounding rnd \<longleftrightarrow> rnd 0 = 0 \<and> (\<forall>x > 0. 0 < rnd x)"

text \<open>A quiet book or an empty window estimates zero; an active book and a real window at least one print.\<close>

lemma estimate_zero_iff:
  assumes "f64_rounding rnd"
  shows "estimate_possible_dropped rnd n w = 0 \<longleftrightarrow> n = 0 \<or> w = 0"
proof (cases "n = 0 \<or> w = 0")
  case True
  with assms show ?thesis by (auto simp: estimate_possible_dropped_def f64_rounding_def)
next
  case False
  define m where "m = unat w"
  let ?x = "rnd (rnd (of_nat n / 60) * rnd (rnd (of_nat m) / 1000000))"
  have "0 < (of_nat n :: rat) / 60" "0 < (of_nat m :: rat)" using False by (auto simp: m_def unat_gt_0 simp del: of_nat_unat)
  with assms have "0 < ?x" by (simp add: f64_rounding_def)
  then have "0 < nat \<lceil>?x\<rceil>" by simp
  then have "(of_nat (min (nat \<lceil>?x\<rceil>) (2 ^ 64 - 1)) :: u64) \<noteq> 0"
    by (simp add: word_of_nat_eq_0_iff min_def nat_dvd_not_less)
  with False show ?thesis by (simp add: estimate_possible_dropped_def Let_def m_def)
qed

lemma ledger_path_samples:
  "ledger_path ''/data/collected/recorded/binance/spot/{data_type}/0f6e2b1c-bind'' ''binance'' ''BTC/USDT''
     = ''/data/collected/gaps/0f6e2b1c-bind_gap_ledger.jsonl''"
  "ledger_path ''/out'' ''binance'' ''BTC/USDT'' = ''/out/gaps/binance_BTC-USDT_gap_ledger.jsonl''"
  by code_simp+

end
