(* ===== verification/Reconcile.thy ===== *)
theory Reconcile
  imports Feed_Model
begin

text \<open>
  Live trade reconciliation (\<open>framework/reconcile.rs\<close>): after a gap the venue's REST trades behind
  the last delivered print are fetched and handed back.  The HTTP exchange with its JSON decoding is
  an argument: a function from the cursor of a request to the decoded rows of the answer.  The date
  parsers of the \<open>chrono\<close> crate and the clock are arguments as well.
\<close>

section \<open>Common parts\<close>

definition MAX_PAGES :: nat where
  "MAX_PAGES = 5"

record trade_pos =
  tpos_id :: u64
  tpos_ts_us :: u64

text \<open>\<open>str::parse::<u64>\<close>: an optional plus sign and at least one digit, below \<open>2 ^ 64\<close>.\<close>

definition parse_u64 :: "string \<Rightarrow> u64 option" where
  "parse_u64 s =
     (let ds = (case s of [] \<Rightarrow> [] | c # r \<Rightarrow> if c = CHR ''+'' then r else s) in
      if ds \<noteq> [] \<and> list_all is_digit ds \<and> digits_val ds < 2 ^ 64 then Some (of_nat (digits_val ds)) else None)"

definition parse_or_default :: "'d decimal_ops \<Rightarrow> string \<Rightarrow> 'd" where
  "parse_or_default D s = (case dec_from_str D s of Ok d \<Rightarrow> d | Err _ \<Rightarrow> dec_zero D)"

datatype rest_fetcher = BinanceTradesFetch | BitsoTradesFetch | CoinbaseTradesFetch

definition trades_rest_fetcher :: "string \<Rightarrow> rest_fetcher option" where
  "trades_rest_fetcher venue =
     (if venue = ''binance'' then Some BinanceTradesFetch
      else if venue = ''bitso'' then Some BitsoTradesFetch
      else if venue = ''coinbase'' then Some CoinbaseTradesFetch
      else None)"

section \<open>Binance\<close>

record binance_row =
  bn_id :: u64
  bn_price :: string
  bn_qty :: string
  bn_time :: u64
  bn_is_buyer_maker :: bool

definition binance_trade :: "'d decimal_ops \<Rightarrow> trading_pair \<Rightarrow> binance_row \<Rightarrow> 'd trade" where
  "binance_trade D pair r =
     \<lparr>source_trade_ts_us = epoch_to_us (bn_time r), local_trade_ts_us = 0, source_trade_rtt_us = 0,
      tr_pair = pair, tr_side = (if bn_is_buyer_maker r then Sell else Buy),
      tr_amount = parse_or_default D (bn_qty r), tr_price = parse_or_default D (bn_price r),
      tr_exchange = ''binance'', tr_id = u64_to_string (bn_id r), tr_origin = Rest\<rparr>"

text \<open>The loop over the rows of a page: the next cursor and the collected trades.\<close>

fun binance_rows ::
  "'d decimal_ops \<Rightarrow> trading_pair \<Rightarrow> trade_pos \<Rightarrow> binance_row list \<Rightarrow> u64 \<times> 'd trade list \<Rightarrow> u64 \<times> 'd trade list"
where
  "binance_rows D pair pos [] acc = acc"
| "binance_rows D pair pos (r # rows) (from, out) =
     (if bn_id r \<le> tpos_id pos then binance_rows D pair pos rows (from, out)
      else binance_rows D pair pos rows (max from (bn_id r + 1), out @ [binance_trade D pair r]))"

fun binance_pages ::
  "'d decimal_ops \<Rightarrow> (u64 \<Rightarrow> (binance_row list, string) result) \<Rightarrow> trading_pair \<Rightarrow> trade_pos \<Rightarrow> nat
     \<Rightarrow> u64 \<times> 'd trade list \<Rightarrow> ('d trade list, string) result"
where
  "binance_pages D rest pair pos 0 acc = Ok (snd acc)"
| "binance_pages D rest pair pos (Suc n) acc =
     (case rest (fst acc) of
        Err e \<Rightarrow> Err e
      | Ok rows \<Rightarrow>
          (let acc = binance_rows D pair pos rows acc
           in if length rows < 1000 then Ok (snd acc) else binance_pages D rest pair pos n acc))"

definition binance_fetch_after ::
  "'d decimal_ops \<Rightarrow> (u64 \<Rightarrow> (binance_row list, string) result) \<Rightarrow> trading_pair \<Rightarrow> trade_pos \<Rightarrow> ('d trade list, string) result"
where
  "binance_fetch_after D rest pair pos = binance_pages D rest pair pos MAX_PAGES (saturating_add (tpos_id pos) 1, [])"

section \<open>Bitso\<close>

record bitso_row =
  bi_tid :: u64
  bi_price :: string
  bi_amount :: string
  bi_maker_side :: string
  bi_created_at :: string

text \<open>\<open>parse_ms\<close> is the date parser: the milliseconds of a well-formed date.\<close>

definition bitso_trade :: "'d decimal_ops \<Rightarrow> (string \<Rightarrow> u64 option) \<Rightarrow> trading_pair \<Rightarrow> bitso_row \<Rightarrow> 'd trade" where
  "bitso_trade D parse_ms pair r =
     \<lparr>source_trade_ts_us = epoch_to_us (unwrap_or (parse_ms (bi_created_at r)) 0), local_trade_ts_us = 0,
      source_trade_rtt_us = 0, tr_pair = pair, tr_side = (if bi_maker_side r = ''buy'' then Sell else Buy),
      tr_amount = parse_or_default D (bi_amount r), tr_price = parse_or_default D (bi_price r),
      tr_exchange = ''bitso'', tr_id = u64_to_string (bi_tid r), tr_origin = Rest\<rparr>"

fun bitso_rows ::
  "'d decimal_ops \<Rightarrow> (string \<Rightarrow> u64 option) \<Rightarrow> trading_pair \<Rightarrow> trade_pos \<Rightarrow> bitso_row list
     \<Rightarrow> u64 \<times> 'd trade list \<Rightarrow> u64 \<times> 'd trade list"
where
  "bitso_rows D parse_ms pair pos [] acc = acc"
| "bitso_rows D parse_ms pair pos (r # rows) (marker, out) =
     (if bi_tid r \<le> tpos_id pos then bitso_rows D parse_ms pair pos rows (marker, out)
      else bitso_rows D parse_ms pair pos rows (max marker (bi_tid r), out @ [bitso_trade D parse_ms pair r]))"

text \<open>The answer of a request carries a success flag.\<close>

fun bitso_pages ::
  "'d decimal_ops \<Rightarrow> (string \<Rightarrow> u64 option) \<Rightarrow> (u64 \<Rightarrow> (bool \<times> bitso_row list, string) result) \<Rightarrow> trading_pair
     \<Rightarrow> trade_pos \<Rightarrow> nat \<Rightarrow> u64 \<times> 'd trade list \<Rightarrow> ('d trade list, string) result"
where
  "bitso_pages D parse_ms rest pair pos 0 acc = Ok (snd acc)"
| "bitso_pages D parse_ms rest pair pos (Suc n) acc =
     (case rest (fst acc) of
        Err e \<Rightarrow> Err e
      | Ok (success, rows) \<Rightarrow>
          if \<not> success then Err ''bitso trades fetch: success=false''
          else
            (let acc = bitso_rows D parse_ms pair pos rows acc
             in if length rows < 100 then Ok (snd acc) else bitso_pages D parse_ms rest pair pos n acc))"

definition bitso_fetch_after ::
  "'d decimal_ops \<Rightarrow> (string \<Rightarrow> u64 option) \<Rightarrow> (u64 \<Rightarrow> (bool \<times> bitso_row list, string) result) \<Rightarrow> trading_pair
     \<Rightarrow> trade_pos \<Rightarrow> ('d trade list, string) result"
where
  "bitso_fetch_after D parse_ms rest pair pos = bitso_pages D parse_ms rest pair pos MAX_PAGES (tpos_id pos, [])"

section \<open>Coinbase\<close>

record coinbase_row =
  cb_trade_id :: string
  cb_price :: string
  cb_size :: string
  cb_time :: string
  cb_side :: string

definition coinbase_trade ::
  "'d decimal_ops \<Rightarrow> trading_pair \<Rightarrow> coinbase_row \<Rightarrow> trade_side \<Rightarrow> u64 \<Rightarrow> 'd trade"
where
  "coinbase_trade D pair r side ts_us =
     \<lparr>source_trade_ts_us = ts_us, local_trade_ts_us = 0, source_trade_rtt_us = 0, tr_pair = pair, tr_side = side,
      tr_amount = parse_or_default D (cb_size r), tr_price = parse_or_default D (cb_price r),
      tr_exchange = ''coinbase'', tr_id = cb_trade_id r, tr_origin = Rest\<rparr>"

text \<open>\<open>parse_us\<close> is the date parser; the accumulator is the newest second seen and the trades.\<close>

fun coinbase_rows ::
  "'d decimal_ops \<Rightarrow> (string \<Rightarrow> u64 option) \<Rightarrow> trading_pair \<Rightarrow> trade_pos \<Rightarrow> coinbase_row list
     \<Rightarrow> u64 \<times> 'd trade list \<Rightarrow> u64 \<times> 'd trade list"
where
  "coinbase_rows D parse_us pair pos [] acc = acc"
| "coinbase_rows D parse_us pair pos (r # rows) (max_ts_sec, out) =
     (let trade_id = unwrap_or (parse_u64 (cb_trade_id r)) 0 in
      if trade_id \<le> tpos_id pos then coinbase_rows D parse_us pair pos rows (max_ts_sec, out)
      else case trade_side_from_str_loose (cb_side r) of
             None \<Rightarrow> coinbase_rows D parse_us pair pos rows (max_ts_sec, out)
           | Some side \<Rightarrow>
               (let ts_us = unwrap_or (parse_us (cb_time r)) 0;
                    max_ts_sec = max max_ts_sec (ts_us div 1000000)
                in if list_ex (\<lambda>t. tr_id t = cb_trade_id r) out
                   then coinbase_rows D parse_us pair pos rows (max_ts_sec, out)
                   else coinbase_rows D parse_us pair pos rows
                          (max_ts_sec, out @ [coinbase_trade D pair r side ts_us])))"

fun coinbase_pages ::
  "'d decimal_ops \<Rightarrow> (string \<Rightarrow> u64 option) \<Rightarrow> (u64 \<Rightarrow> u64 \<Rightarrow> (coinbase_row list, string) result) \<Rightarrow> trading_pair
     \<Rightarrow> trade_pos \<Rightarrow> u64 \<Rightarrow> nat \<Rightarrow> u64 \<Rightarrow> 'd trade list \<Rightarrow> ('d trade list, string) result"
where
  "coinbase_pages D parse_us rest pair pos now_sec 0 start_sec out = Ok out"
| "coinbase_pages D parse_us rest pair pos now_sec (Suc n) start_sec out =
     (if start_sec \<ge> now_sec then Ok out
      else case rest start_sec now_sec of
             Err e \<Rightarrow> Err e
           | Ok trades \<Rightarrow>
               if trades = [] then Ok out
               else
                 (let (max_ts_sec, out) = coinbase_rows D parse_us pair pos trades (start_sec, out)
                  in if length trades < 100 \<or> max_ts_sec \<le> start_sec then Ok out
                     else coinbase_pages D parse_us rest pair pos now_sec n max_ts_sec out))"

definition trade_id_key :: "'d trade \<Rightarrow> u64" where
  "trade_id_key t = unwrap_or (parse_u64 (tr_id t)) 0"

definition coinbase_fetch_after ::
  "'d decimal_ops \<Rightarrow> (string \<Rightarrow> u64 option) \<Rightarrow> (u64 \<Rightarrow> u64 \<Rightarrow> (coinbase_row list, string) result) \<Rightarrow> u64
     \<Rightarrow> trading_pair \<Rightarrow> trade_pos \<Rightarrow> ('d trade list, string) result"
where
  "coinbase_fetch_after D parse_us rest now_sec pair pos =
     (case coinbase_pages D parse_us rest pair pos now_sec MAX_PAGES
             (saturating_sub (tpos_ts_us pos div 1000000) 1) [] of
        Err e \<Rightarrow> Err e
      | Ok out \<Rightarrow> Ok (sort_key trade_id_key out))"

section \<open>Paging by identifier\<close>

text \<open>
  The contract of an id-anchored endpoint: a request behind \<open>c\<close> answers with the first \<open>limit\<close>
  rows of the history whose identifier is above \<open>c\<close>, in ascending order.  A client that asks for
  page after page, each behind the last row of the one before, and stops at a short page, collects
  the rows above its start.
\<close>

locale id_pager =
  fixes row_key :: "'r \<Rightarrow> u64" and hist :: "'r list" and limit :: nat and page :: "u64 \<Rightarrow> 'r list"
  assumes page_def': "page c = take limit (filter (\<lambda>r. c < row_key r) hist)"
    and limit_pos: "0 < limit"
begin

fun walk :: "nat \<Rightarrow> u64 \<Rightarrow> 'r list" where
  "walk 0 c = []"
| "walk (Suc n) c = (if length (page c) < limit then page c else page c @ walk n (row_key (last (page c))))"

lemma rows_behind:
  assumes ascending: "sorted_wrt (\<lambda>a b. row_key a < row_key b) hist"
    and many: "limit \<le> length (filter (\<lambda>r. c < row_key r) hist)"
  shows "filter (\<lambda>r. row_key (last (page c)) < row_key r) hist = drop limit (filter (\<lambda>r. c < row_key r) hist)"
proof -
  let ?xs = "filter (\<lambda>r. c < row_key r) hist"
  let ?a = "last (page c)"
  have srt: "sorted_wrt (\<lambda>a b. row_key a < row_key b) ?xs" using ascending by (rule sorted_wrt_filter)
  have pg: "page c = take limit ?xs" "page c \<noteq> []" using many limit_pos by (auto simp: page_def')
  have "?a \<in> set ?xs" by (metis last_in_set pg in_set_takeD)
  then have ca: "c < row_key ?a" by simp
  then have "filter (\<lambda>r. row_key ?a < row_key r) hist = filter (\<lambda>r. row_key ?a < row_key r) ?xs"
    by (auto simp: filter_filter intro!: filter_cong)
  also have "\<dots> = filter (\<lambda>r. row_key ?a < row_key r) (page c) @ filter (\<lambda>r. row_key ?a < row_key r) (drop limit ?xs)"
    by (metis append_take_drop_id filter_append pg(1))
  also have "filter (\<lambda>r. row_key ?a < row_key r) (page c) = []"
  proof -
    have "sorted_wrt (\<lambda>a b. row_key a < row_key b) (butlast (page c) @ [?a])"
      using srt pg by (metis append_butlast_last_id sorted_wrt_take)
    then have "\<forall>r \<in> set (butlast (page c) @ [?a]). \<not> row_key ?a < row_key r" by (auto simp: sorted_wrt_append)
    then show ?thesis using pg(2) by (simp add: filter_empty_conv)
  qed
  also have "filter (\<lambda>r. row_key ?a < row_key r) (drop limit ?xs) = drop limit ?xs"
  proof -
    have "sorted_wrt (\<lambda>a b. row_key a < row_key b) (page c @ drop limit ?xs)" using srt by (simp add: pg(1))
    then show ?thesis using pg(2) by (simp add: sorted_wrt_append)
  qed
  finally show ?thesis by simp
qed

lemma walk_collects:
  assumes "sorted_wrt (\<lambda>a b. row_key a < row_key b) hist"
  shows "walk n c = take (n * limit) (filter (\<lambda>r. c < row_key r) hist)"
proof (induction n arbitrary: c)
  case (Suc n)
  let ?xs = "filter (\<lambda>r. c < row_key r) hist"
  show ?case
  proof (cases "length ?xs < limit")
    case True
    then have "page c = ?xs" by (simp add: page_def')
    with True show ?thesis by simp
  next
    case False
    then have pg: "page c = take limit ?xs" "length (page c) = limit" by (simp_all add: page_def')
    have "walk (Suc n) c = page c @ walk n (row_key (last (page c)))" by (simp add: pg(2))
    also have "\<dots> = take limit ?xs @ take (n * limit) (drop limit ?xs)"
      using False rows_behind [OF assms, of c] by (simp only: Suc.IH pg(1))
    finally show ?thesis by (simp add: take_add)
  qed
qed simp

end

section \<open>Fetching behind a position\<close>

definition binance_page :: "binance_row list \<Rightarrow> u64 \<Rightarrow> binance_row list" where
  "binance_page hist c = take 1000 (filter (\<lambda>r. c < bn_id r) hist)"

definition bitso_page :: "bitso_row list \<Rightarrow> u64 \<Rightarrow> bitso_row list" where
  "bitso_page hist c = take 100 (filter (\<lambda>r. c < bi_tid r) hist)"

interpretation binance: id_pager bn_id hist 1000 "binance_page hist" for hist
  by unfold_locales (simp_all add: binance_page_def)

interpretation bitso: id_pager bi_tid hist 100 "bitso_page hist" for hist
  by unfold_locales (simp_all add: bitso_page_def)

text \<open>
  What the venues document of the endpoints: the trades of a symbol from an identifier on, ascending,
  a thousand per page; the trades behind a marker, ascending, a hundred per page.
\<close>

definition binance_contract :: "(u64 \<Rightarrow> (binance_row list, string) result) \<Rightarrow> binance_row list \<Rightarrow> bool" where
  "binance_contract rest hist \<longleftrightarrow>
     sorted_wrt (\<lambda>a b. bn_id a < bn_id b) hist \<and> (\<forall>r \<in> set hist. bn_id r \<noteq> - 1)
     \<and> (\<forall>from. rest from = Ok (take 1000 (filter (\<lambda>r. from \<le> bn_id r) hist)))"

definition bitso_contract :: "(u64 \<Rightarrow> (bool \<times> bitso_row list, string) result) \<Rightarrow> bitso_row list \<Rightarrow> bool" where
  "bitso_contract rest hist \<longleftrightarrow>
     sorted_wrt (\<lambda>a b. bi_tid a < bi_tid b) hist
     \<and> (\<forall>marker. rest marker = Ok (True, take 100 (filter (\<lambda>r. marker < bi_tid r) hist)))"

lemma unat_succ: "c \<noteq> (- 1 :: u64) \<Longrightarrow> unat (c + 1) = Suc (unat c)"
  by (metis add.commute add.right_inverse add_left_cancel unatSuc)

lemma u64_succ_le: "c \<noteq> (- 1 :: u64) \<Longrightarrow> c + 1 \<le> x \<longleftrightarrow> c < x"
  by (simp add: word_le_nat_alt word_less_nat_alt unat_succ Suc_le_eq)

text \<open>The rows of a page, all behind the position and ascending, are all taken and move the cursor to the last of them.\<close>

lemma binance_rows_page:
  assumes "sorted_wrt (\<lambda>a b. bn_id a < bn_id b) rows" "\<forall>r \<in> set rows. tpos_id pos < bn_id r \<and> bn_id r \<noteq> - 1"
    and "\<forall>r \<in> set rows. cur \<le> bn_id r"
  shows "binance_rows D pair pos rows (cur, out)
    = (if rows = [] then cur else bn_id (last rows) + 1, out @ map (binance_trade D pair) rows)"
  using assms
proof (induction rows arbitrary: cur out)
  case (Cons r rows)
  have r: "\<not> bn_id r \<le> tpos_id pos" "bn_id r \<noteq> - 1" "cur \<le> bn_id r" using Cons.prems by auto
  then have "cur \<le> bn_id r + 1" using u64_succ_le [OF r(2), of "bn_id r + 1"] by simp
  then have m: "max cur (bn_id r + 1) = bn_id r + 1" by (rule max_absorb2)
  have "\<forall>x \<in> set rows. bn_id r + 1 \<le> bn_id x" using Cons.prems(1) r(2) by (simp add: u64_succ_le)
  with Cons r(1) show ?case by (simp add: m)
qed simp

lemma bitso_rows_page:
  assumes "sorted_wrt (\<lambda>a b. bi_tid a < bi_tid b) rows" "\<forall>r \<in> set rows. tpos_id pos < bi_tid r \<and> marker < bi_tid r"
  shows "bitso_rows D parse_ms pair pos rows (marker, out)
    = (if rows = [] then marker else bi_tid (last rows), out @ map (bitso_trade D parse_ms pair) rows)"
  using assms
proof (induction rows arbitrary: marker out)
  case (Cons r rows)
  then have "\<not> bi_tid r \<le> tpos_id pos" "max marker (bi_tid r) = bi_tid r" by (auto simp: max_def)
  with Cons show ?case by simp
qed simp

lemma binance_pages_walk:
  assumes con: "binance_contract rest hist" and "tpos_id pos \<le> c" "c \<noteq> - 1"
  shows "binance_pages D rest pair pos n (c + 1, out) = Ok (out @ map (binance_trade D pair) (binance.walk hist n c))"
  using assms(2,3)
proof (induction n arbitrary: c out)
  case (Suc n)
  let ?pg = "binance_page hist c"
  have rest: "rest (c + 1) = Ok ?pg"
    using con Suc.prems(2) by (simp add: binance_contract_def binance_page_def u64_succ_le)
  have rows: "sorted_wrt (\<lambda>a b. bn_id a < bn_id b) ?pg" "\<forall>r \<in> set ?pg. c < bn_id r \<and> bn_id r \<noteq> - 1"
    using con by (auto simp: binance_contract_def binance_page_def sorted_wrt_take sorted_wrt_filter dest: in_set_takeD)
  have br: "binance_rows D pair pos ?pg (c + 1, out)
      = (if ?pg = [] then c + 1 else bn_id (last ?pg) + 1, out @ map (binance_trade D pair) ?pg)"
    using rows Suc.prems by (intro binance_rows_page) (auto simp: u64_succ_le)
  show ?case
  proof (cases "length ?pg < 1000")
    case True
    then show ?thesis by (simp add: rest br)
  next
    case False
    then have "?pg \<noteq> []" by auto
    then have "last ?pg \<in> set ?pg" by simp
    with rows(2) Suc.prems have "tpos_id pos \<le> bn_id (last ?pg)" "bn_id (last ?pg) \<noteq> - 1" by (auto dest: bspec)
    from Suc.IH [OF this] False \<open>?pg \<noteq> []\<close> show ?thesis by (simp add: rest br Let_def)
  qed
qed simp

lemma bitso_pages_walk:
  assumes con: "bitso_contract rest hist" and "tpos_id pos \<le> c"
  shows "bitso_pages D parse_ms rest pair pos n (c, out) = Ok (out @ map (bitso_trade D parse_ms pair) (bitso.walk hist n c))"
  using assms(2)
proof (induction n arbitrary: c out)
  case (Suc n)
  let ?pg = "bitso_page hist c"
  have rest: "rest c = Ok (True, ?pg)" using con by (simp add: bitso_contract_def bitso_page_def)
  have rows: "sorted_wrt (\<lambda>a b. bi_tid a < bi_tid b) ?pg" "\<forall>r \<in> set ?pg. c < bi_tid r"
    using con by (auto simp: bitso_contract_def bitso_page_def sorted_wrt_take sorted_wrt_filter dest: in_set_takeD)
  have br: "bitso_rows D parse_ms pair pos ?pg (c, out)
      = (if ?pg = [] then c else bi_tid (last ?pg), out @ map (bitso_trade D parse_ms pair) ?pg)"
    using rows Suc.prems by (intro bitso_rows_page) auto
  show ?case
  proof (cases "length ?pg < 100")
    case True
    then show ?thesis by (simp add: rest br)
  next
    case False
    then have "?pg \<noteq> []" by auto
    then have "last ?pg \<in> set ?pg" by simp
    with rows(2) Suc.prems have "tpos_id pos \<le> bi_tid (last ?pg)" by (auto dest: bspec)
    from Suc.IH [OF this] False \<open>?pg \<noteq> []\<close> show ?thesis by (simp add: rest br Let_def)
  qed
qed simp

text \<open>
  C10: against a venue that serves its history by identifier, a reconciliation fetch recovers exactly
  the prints behind the last delivered one, each once and in ascending order, up to five full pages
  (5000 prints on Binance, 500 on Bitso).
\<close>

theorem id_anchored_fetch_recovers_prints:
  assumes "binance_contract rest hist" and "bitso_contract rest' hist'" and "tpos_id pos \<noteq> - 1"
  shows "binance_fetch_after D rest pair pos
      = Ok (map (binance_trade D pair) (take 5000 (filter (\<lambda>r. tpos_id pos < bn_id r) hist)))
    \<and> bitso_fetch_after D parse_ms rest' pair pos
      = Ok (map (bitso_trade D parse_ms pair) (take 500 (filter (\<lambda>r. tpos_id pos < bi_tid r) hist')))"
proof -
  have sat: "saturating_add (tpos_id pos) 1 = tpos_id pos + 1"
    using unat_succ [OF assms(3)] unsigned_less [of "tpos_id pos + 1", where 'a = nat] by (simp add: saturating_add_def)
  have "binance_fetch_after D rest pair pos
      = Ok (map (binance_trade D pair) (take 5000 (filter (\<lambda>r. tpos_id pos < bn_id r) hist)))"
    using binance_pages_walk [OF assms(1) order_refl assms(3), of D pair MAX_PAGES "[]"] assms(1)
    by (simp add: binance_fetch_after_def sat MAX_PAGES_def binance.walk_collects binance_contract_def)
  moreover have "bitso_fetch_after D parse_ms rest' pair pos
      = Ok (map (bitso_trade D parse_ms pair) (take 500 (filter (\<lambda>r. tpos_id pos < bi_tid r) hist')))"
    using bitso_pages_walk [OF assms(2) order_refl, of D parse_ms pair pos MAX_PAGES "[]"] assms(2)
    by (simp add: bitso_fetch_after_def MAX_PAGES_def bitso.walk_collects bitso_contract_def)
  ultimately show ?thesis ..
qed

section \<open>Time-anchored fetching\<close>

text \<open>
  The contract of the Coinbase endpoint: of the trades of a window of seconds, the newest hundred.
  \<open>hist\<close> is the history, newest first.
\<close>

definition row_sec :: "(string \<Rightarrow> u64 option) \<Rightarrow> coinbase_row \<Rightarrow> u64" where
  "row_sec parse_us r = unwrap_or (parse_us (cb_time r)) 0 div 1000000"

definition coinbase_window :: "(string \<Rightarrow> u64 option) \<Rightarrow> coinbase_row list \<Rightarrow> u64 \<Rightarrow> u64 \<Rightarrow> coinbase_row list" where
  "coinbase_window parse_us hist s e = filter (\<lambda>r. s \<le> row_sec parse_us r \<and> row_sec parse_us r \<le> e) hist"

definition coinbase_contract ::
  "(string \<Rightarrow> u64 option) \<Rightarrow> (u64 \<Rightarrow> u64 \<Rightarrow> (coinbase_row list, string) result) \<Rightarrow> coinbase_row list \<Rightarrow> bool"
where
  "coinbase_contract parse_us rest hist \<longleftrightarrow>
     sorted_wrt (\<lambda>a b. row_sec parse_us b \<le> row_sec parse_us a) hist
     \<and> (\<forall>s e. rest s e = Ok (take 100 (coinbase_window parse_us hist s e)))"

lemma filter_sorted_prefix:
  "sorted_wrt (\<lambda>a b. k b \<le> k a) xs \<Longrightarrow> prefix (filter (\<lambda>r. (s' :: 'o :: linorder) \<le> k r) xs) xs"
proof (induction xs)
  case (Cons x xs)
  show ?case
  proof (cases "s' \<le> k x")
    case False
    with Cons.prems have "filter (\<lambda>r. s' \<le> k r) (x # xs) = []" by (auto simp: filter_empty_conv)
    then show ?thesis by simp
  qed (use Cons in simp)
qed simp

lemma window_narrows:
  assumes "sorted_wrt (\<lambda>a b. row_sec parse_us b \<le> row_sec parse_us a) hist" and "s \<le> s'"
  shows "set (take n (coinbase_window parse_us hist s' e)) \<subseteq> set (take n (coinbase_window parse_us hist s e))"
proof -
  have eq: "coinbase_window parse_us hist s' e = filter (\<lambda>r. s' \<le> row_sec parse_us r) (coinbase_window parse_us hist s e)"
    using assms(2) by (auto simp: coinbase_window_def intro!: filter_cong)
  have "sorted_wrt (\<lambda>a b. row_sec parse_us b \<le> row_sec parse_us a) (coinbase_window parse_us hist s e)"
    unfolding coinbase_window_def using assms(1) by (rule sorted_wrt_filter)
  from filter_sorted_prefix [OF this, of s'] obtain zs
    where zs: "coinbase_window parse_us hist s e = coinbase_window parse_us hist s' e @ zs"
    unfolding eq [symmetric] by (auto elim: prefixE)
  show ?thesis by (simp add: zs)
qed

lemma coinbase_rows_from:
  "coinbase_rows D parse_us pair pos rows (m, out) = (m', out') \<Longrightarrow>
     m \<le> m' \<and> tr_id ` set out' \<subseteq> tr_id ` set out \<union> cb_trade_id ` set rows
     \<and> (\<forall>t \<in> set out'. t \<in> set out \<or> tpos_id pos < trade_id_key t \<and> tr_origin t = Rest)
     \<and> (distinct (map tr_id out) \<longrightarrow> distinct (map tr_id out'))"
proof (induction rows arbitrary: m out)
  case (Cons r rows)
  note ih = Cons.IH
  let ?id = "unwrap_or (parse_u64 (cb_trade_id r)) 0"
  show ?case
  proof (cases "?id \<le> tpos_id pos \<or> trade_side_from_str_loose (cb_side r) = None")
    case True
    with Cons.prems have "coinbase_rows D parse_us pair pos rows (m, out) = (m', out')" by (auto split: option.splits)
    from ih [OF this] show ?thesis by auto
  next
    case False
    then obtain side where side: "trade_side_from_str_loose (cb_side r) = Some side" by auto
    let ?ts = "unwrap_or (parse_us (cb_time r)) 0"
    let ?m = "max m (?ts div 1000000)"
    let ?t = "coinbase_trade D pair r side ?ts"
    have t: "tr_id ?t = cb_trade_id r" "tr_origin ?t = Rest" "trade_id_key ?t = ?id"
      by (simp_all add: coinbase_trade_def trade_id_key_def)
    show ?thesis
    proof (cases "list_ex (\<lambda>t. tr_id t = cb_trade_id r) out")
      case True
      with Cons.prems False side have "coinbase_rows D parse_us pair pos rows (?m, out) = (m', out')"
        by (simp add: Let_def)
      from ih [OF this] show ?thesis by auto
    next
      case nw: False
      with Cons.prems False side have e: "coinbase_rows D parse_us pair pos rows (?m, out @ [?t]) = (m', out')"
        by (simp add: Let_def)
      have "distinct (map tr_id out) \<Longrightarrow> distinct (map tr_id (out @ [?t]))" using nw t(1) by (auto simp: list_ex_iff)
      with ih [OF e] False t show ?thesis by auto
    qed
  qed
qed simp

lemma coinbase_pages_from:
  assumes con: "coinbase_contract parse_us rest hist"
    and "coinbase_pages D parse_us rest pair pos now_sec n s out = Ok out'" and "s0 \<le> s"
  shows "tr_id ` set out' \<subseteq> tr_id ` set out \<union> cb_trade_id ` set (take 100 (coinbase_window parse_us hist s0 now_sec))
    \<and> (\<forall>t \<in> set out'. t \<in> set out \<or> tpos_id pos < trade_id_key t \<and> tr_origin t = Rest)
    \<and> (distinct (map tr_id out) \<longrightarrow> distinct (map tr_id out'))"
  using assms(2,3)
proof (induction n arbitrary: s out)
  case (Suc n)
  define pg where "pg = take 100 (coinbase_window parse_us hist s now_sec)"
  have rest: "rest s now_sec = Ok pg" using con by (simp add: coinbase_contract_def pg_def)
  show ?case
  proof (cases "now_sec \<le> s \<or> pg = []")
    case True
    with Suc.prems(1) rest have "out' = out" by (auto split: if_splits)
    then show ?thesis by auto
  next
    case False
    then have f: "\<not> now_sec \<le> s" "pg \<noteq> []" by simp_all
    obtain m out1 where r: "coinbase_rows D parse_us pair pos pg (s, out) = (m, out1)" by fastforce
    note rows = coinbase_rows_from [OF r]
    have sub: "set pg \<subseteq> set (take 100 (coinbase_window parse_us hist s0 now_sec))"
      using con Suc.prems(2) unfolding pg_def by (intro window_narrows) (simp_all add: coinbase_contract_def)
    then have "cb_trade_id ` set pg \<subseteq> cb_trade_id ` set (take 100 (coinbase_window parse_us hist s0 now_sec))"
      by (rule image_mono)
    then have ids: "tr_id ` set out1 \<subseteq> tr_id ` set out \<union> cb_trade_id ` set (take 100 (coinbase_window parse_us hist s0 now_sec))"
      using rows by (meson Un_mono order_refl order_trans)
    show ?thesis
    proof (cases "length pg < 100 \<or> m \<le> s")
      case True
      with Suc.prems(1) have "out' = out1" by (auto simp: f rest r)
      with rows ids show ?thesis by simp
    next
      case nx: False
      with Suc.prems(1) have "coinbase_pages D parse_us rest pair pos now_sec n m out1 = Ok out'"
        by (auto simp: f rest r)
      moreover have "s0 \<le> m" using rows Suc.prems(2) by (auto intro: order_trans)
      ultimately have "tr_id ` set out' \<subseteq> tr_id ` set out1 \<union> cb_trade_id ` set (take 100 (coinbase_window parse_us hist s0 now_sec))
          \<and> (\<forall>t \<in> set out'. t \<in> set out1 \<or> tpos_id pos < trade_id_key t \<and> tr_origin t = Rest)
          \<and> (distinct (map tr_id out1) \<longrightarrow> distinct (map tr_id out'))" by (rule Suc.IH)
      with rows ids show ?thesis by (meson Un_least Un_upper2 order_trans)
    qed
  qed
qed auto

text \<open>
  A Coinbase reconciliation never recovers more than the newest hundred prints of its window.
  The walk moves its start to the newest print it has seen, not past the oldest as its comment says,
  so each of the up to five pages lies inside the first one; the older prints of a longer gap stay
  missing.  What it returns lies behind the position, without repetition, in ascending order.
\<close>

lemma coinbase_fetch_recovers_one_page:
  assumes "coinbase_contract parse_us rest hist" and "coinbase_fetch_after D parse_us rest now_sec pair pos = Ok trades"
  shows "tr_id ` set trades \<subseteq> cb_trade_id ` set
      (take 100 (coinbase_window parse_us hist (saturating_sub (tpos_ts_us pos div 1000000) 1) now_sec))
    \<and> length trades \<le> 100
    \<and> distinct (map tr_id trades) \<and> sorted (map trade_id_key trades)
    \<and> (\<forall>t \<in> set trades. tpos_id pos < trade_id_key t \<and> tr_origin t = Rest)"
proof -
  let ?s = "saturating_sub (tpos_ts_us pos div 1000000) 1"
  let ?pg = "take 100 (coinbase_window parse_us hist ?s now_sec)"
  from assms(2) obtain out where out: "coinbase_pages D parse_us rest pair pos now_sec MAX_PAGES ?s [] = Ok out"
    and tr: "trades = sort_key trade_id_key out" by (auto simp: coinbase_fetch_after_def split: result.splits)
  note p = coinbase_pages_from [OF assms(1) out order_refl]
  have "length trades = card (tr_id ` set out)" using p using distinct_card [of "map tr_id out"] by (simp add: tr)
  also have "\<dots> \<le> card (cb_trade_id ` set ?pg)" using p by (intro card_mono) auto
  also have "\<dots> \<le> length ?pg" by (meson card_image_le card_length finite_set order_trans)
  finally have "length trades \<le> 100" by simp
  moreover have "distinct (map tr_id trades)" using p by (simp add: tr distinct_map)
  ultimately show ?thesis using p by (simp add: tr)
qed

section \<open>Witnesses\<close>

definition sample_binance_hist :: "binance_row list" where
  "sample_binance_hist = map (\<lambda>i. \<lparr>bn_id = i, bn_price = ''1.5'', bn_qty = ''2'', bn_time = 1700000000000,
     bn_is_buyer_maker = True\<rparr>) [5, 6, 9]"

definition sample_bitso_hist :: "bitso_row list" where
  "sample_bitso_hist = map (\<lambda>i. \<lparr>bi_tid = i, bi_price = ''1.5'', bi_amount = ''2'', bi_maker_side = ''buy'',
     bi_created_at = ''x''\<rparr>) [3, 8]"

definition sample_pair :: trading_pair where
  "sample_pair = \<lparr>tp_base = ''BTC'', tp_quote = ''USDT''\<rparr>"

theorem id_anchored_fetch_recovers_prints_witness:
  "binance_fetch_after exact_decimal (\<lambda>from. Ok (take 1000 (filter (\<lambda>r. from \<le> bn_id r) sample_binance_hist)))
      sample_pair \<lparr>tpos_id = 5, tpos_ts_us = 0\<rparr>
     = Ok (map (binance_trade exact_decimal sample_pair) (tl sample_binance_hist))
   \<and> bitso_fetch_after exact_decimal (\<lambda>_. Some 7) (\<lambda>marker. Ok (True, take 100 (filter (\<lambda>r. marker < bi_tid r) sample_bitso_hist)))
      sample_pair \<lparr>tpos_id = 5, tpos_ts_us = 0\<rparr>
     = Ok (map (bitso_trade exact_decimal (\<lambda>_. Some 7) sample_pair) (tl sample_bitso_hist))"
proof -
  have b: "binance_contract (\<lambda>from. Ok (take 1000 (filter (\<lambda>r. from \<le> bn_id r) sample_binance_hist))) sample_binance_hist"
    by (simp add: binance_contract_def sample_binance_hist_def)
  have i: "bitso_contract (\<lambda>marker. Ok (True, take 100 (filter (\<lambda>r. marker < bi_tid r) sample_bitso_hist))) sample_bitso_hist"
    by (simp add: bitso_contract_def sample_bitso_hist_def)
  show ?thesis
    using id_anchored_fetch_recovers_prints [OF b i, of "\<lparr>tpos_id = 5, tpos_ts_us = 0\<rparr>" exact_decimal sample_pair "\<lambda>_. Some 7"]
    by (simp add: sample_binance_hist_def sample_bitso_hist_def)
qed

definition sample_coinbase_hist :: "coinbase_row list" where
  "sample_coinbase_hist = [\<lparr>cb_trade_id = ''9'', cb_price = ''1.5'', cb_size = ''2'', cb_time = ''t'', cb_side = ''BUY''\<rparr>]"

end
