(* ===== verification/Worker.thy ===== *)
theory Worker
  imports Driver Output Market_Sync Gaps Reconcile
begin

text \<open>
  The synchronised market worker on the framework path (\<open>workers/market_worker.rs\<close>, \<open>run_framework\<close>):
  the reconnect loop around a connection, the arms of its \<open>select!\<close>, the gap sentinel, live
  reconciliation and the final drain.  Each arm is a function on the worker's state and the relation
  \<open>worker_step\<close> takes them in any order.

  The clock, the flusher's and the ledger file's answers, the rounding of the rate model and the
  random draw of the policy come with each step in a \<open>worker_env\<close>.  The runtime task shares the feed
  set and the metrics; the rule \<open>runtime_acts\<close> lets it take any feed step and change any counter the
  worker does not own.  The channel of recovered prints is taken to be wide enough.  The rate and
  latency averages and the published status, which nothing reads back, are left out.
\<close>

section \<open>Replay de-duplication\<close>

definition REPLAY_DEDUP_CAPACITY :: usize where
  "REPLAY_DEDUP_CAPACITY = 4096"

definition wire_ts_regressed :: "u64 \<Rightarrow> u64 \<Rightarrow> bool \<times> u64" where
  "wire_ts_regressed last_ts_us ts_us = (if ts_us < last_ts_us then (True, last_ts_us) else (False, ts_us))"

record seen_trade_ids =
  si_order :: "u64 list"
  si_ids :: "u64 set"
  si_capacity :: usize

definition seen_with_capacity :: "usize \<Rightarrow> seen_trade_ids" where
  "seen_with_capacity capacity = \<lparr>si_order = [], si_ids = {}, si_capacity = capacity\<rparr>"

definition seen_insert :: "u64 \<Rightarrow> seen_trade_ids \<Rightarrow> bool \<times> seen_trade_ids" where
  "seen_insert i s =
     (if i \<in> si_ids s then (False, s)
      else
        let s = s\<lparr>si_ids := insert i (si_ids s), si_order := si_order s @ [i]\<rparr> in
        if length (si_order s) > si_capacity s then
          (case si_order s of
             [] \<Rightarrow> (True, s)
           | evicted # rest \<Rightarrow> (True, s\<lparr>si_order := rest, si_ids := si_ids s - {evicted}\<rparr>))
        else (True, s))"

section \<open>The worker's state\<close>

datatype worker_phase = Between | InConnection | Leaving | Exited | WorkerDone | WorkerFailed string

record worker_config =
  wc_flush_threshold :: usize
  wc_exchange :: string
  wc_symbol :: string
  wc_pair :: trading_pair
  wc_external_clock :: bool
  wc_reconcile_active :: bool
  wc_has_ledger :: bool

record 'd worker_env =
  we_now :: instant
  we_epoch_us :: u64
  we_flusher :: "'d market_snapshot list \<Rightarrow> string \<Rightarrow> (flush_report, string) result"
  we_io_error :: "string option"
  we_rnd :: "rat \<Rightarrow> rat"
  we_rng :: "rat \<Rightarrow> rat"
  we_show_dur :: "duration \<Rightarrow> string"

text \<open>
  The last two fields are history: what was fed to the synchronizer and which calls the sinks saw.
\<close>

record ('x, 'd) worker =
  wk_phase :: worker_phase
  wk_sync :: "'d market_synchronizer"
  wk_sinks :: "('x, 'd) sink_set"
  wk_policy :: reconnect_policy
  wk_feeds :: feed_set
  wk_metrics :: source_metrics
  wk_connection_state :: connection_state
  wk_paused :: bool
  wk_stopped :: bool
  wk_shutdown :: bool
  wk_live :: bool
  wk_gap_open :: "(instant \<times> u64 \<times> gap_cause) option"
  wk_ledger :: "gap_incident list"
  wk_seen :: "seen_trade_ids option"
  wk_recent_trades :: "instant list"
  wk_recent_ids :: "u64 list"
  wk_last_pos :: "(trading_pair, trade_pos) hash_map"
  wk_last_book_ts_us :: u64
  wk_last_trade_ts_us :: u64
  wk_triggers :: nat
  wk_fetching :: "trade_pos option"
  wk_recovered :: "'d trade list"
  wk_snapshots_produced :: u64
  wk_since_flush :: u64
  wk_flushes :: u32
  wk_total_events :: u64
  wk_reconnects :: u32
  wk_drain_partial :: bool
  wk_fed :: "'d market_input list"
  wk_sink_ops :: "'d sink_op list"

definition worker_start ::
  "'d market_synchronizer \<Rightarrow> ('x, 'd) sink_set \<Rightarrow> reconnect_policy \<Rightarrow> feed_set \<Rightarrow> bool \<Rightarrow> ('x, 'd) worker"
where
  "worker_start sync sinks policy feeds replays =
     \<lparr>wk_phase = Between, wk_sync = sync, wk_sinks = sinks, wk_policy = policy, wk_feeds = feeds,
      wk_metrics = metrics_default, wk_connection_state = Connecting, wk_paused = False, wk_stopped = False,
      wk_shutdown = False, wk_live = False, wk_gap_open = None, wk_ledger = [],
      wk_seen = (if replays then Some (seen_with_capacity REPLAY_DEDUP_CAPACITY) else None),
      wk_recent_trades = [], wk_recent_ids = [], wk_last_pos = [], wk_last_book_ts_us = 0, wk_last_trade_ts_us = 0,
      wk_triggers = 0, wk_fetching = None, wk_recovered = [], wk_snapshots_produced = 0, wk_since_flush = 0,
      wk_flushes = 0, wk_total_events = 0, wk_reconnects = 0, wk_drain_partial = False, wk_fed = [], wk_sink_ops = []\<rparr>"

definition framework_reconnect_policy ::
  "nat option \<Rightarrow> nat option \<Rightarrow> u32 option \<Rightarrow> rat option \<Rightarrow> (reconnect_policy, panic) result"
where
  "framework_reconnect_policy initial_delay_ms max_delay_ms max_attempts jitter_factor =
     policy_build (unwrap_or (map_option from_millis initial_delay_ms) (10 ^ 9))
       (unwrap_or (map_option from_millis max_delay_ms) (30 * 10 ^ 9)) max_attempts (unwrap_or jitter_factor (1 / 2))"

section \<open>Synchronizer and sinks\<close>

definition feed_sync :: "'d market_input \<Rightarrow> ('x, 'd) worker \<Rightarrow> ('x, 'd) worker" where
  "feed_sync i w = w\<lparr>wk_sync := mk_feed i (wk_sync w), wk_fed := wk_fed w @ [i]\<rparr>"

definition emit_to_sinks :: "'d market_snapshot \<Rightarrow> ('x, 'd) worker \<Rightarrow> ('x, 'd) worker" where
  "emit_to_sinks snapshot w =
     w\<lparr>wk_sinks := set_emit_snapshot snapshot (wk_sinks w), wk_sink_ops := wk_sink_ops w @ [OpEmit snapshot]\<rparr>"

definition flush_sinks :: "'d worker_env \<Rightarrow> ('x, 'd) worker \<Rightarrow> (unit, string) result \<times> ('x, 'd) worker" where
  "flush_sinks env w =
     (case set_flush (we_flusher env) (we_epoch_us env) (wk_sinks w) of
        (r, sinks) \<Rightarrow>
          (r, w\<lparr>wk_sinks := sinks, wk_sink_ops := wk_sink_ops w @ [OpFlush (we_flusher env) (we_epoch_us env)]\<rparr>))"

definition drain_and_emit :: "('x, 'd) worker \<Rightarrow> u64 \<times> ('x, 'd) worker" where
  "drain_and_emit w =
     (case mk_drain (wk_sync w) of
        (ready, sync) \<Rightarrow> (of_nat (length ready), fold emit_to_sinks ready (w\<lparr>wk_sync := sync\<rparr>)))"

definition maybe_flush ::
  "worker_config \<Rightarrow> 'd worker_env \<Rightarrow> ('x, 'd) worker \<Rightarrow> (unit, string) result \<times> ('x, 'd) worker"
where
  "maybe_flush C env w =
     (if wc_flush_threshold C > 0 \<and> wk_since_flush w \<ge> of_nat (wc_flush_threshold C) then
        (case flush_sinks env w of
           (Err e, w) \<Rightarrow> (Err e, w)
         | (Ok _, w) \<Rightarrow> (Ok (), w\<lparr>wk_since_flush := 0, wk_flushes := wk_flushes w + 1\<rparr>))
      else (Ok (), w))"

definition produce ::
  "worker_config \<Rightarrow> 'd worker_env \<Rightarrow> ('x, 'd) worker \<Rightarrow> (unit, string) result \<times> ('x, 'd) worker"
where
  "produce C env w =
     (case drain_and_emit w of
        (n, w) \<Rightarrow> maybe_flush C env (w\<lparr>wk_snapshots_produced := wk_snapshots_produced w + n,
                                      wk_since_flush := wk_since_flush w + n\<rparr>))"

section \<open>The gap sentinel\<close>

definition window_since :: "'d worker_env \<Rightarrow> instant \<Rightarrow> u64" where
  "window_since env opened = of_nat ((we_now env - opened) div 1000)"

definition record_incident ::
  "worker_config \<Rightarrow> 'd worker_env \<Rightarrow> u64 \<Rightarrow> gap_cause \<Rightarrow> u64 \<Rightarrow> u64 option \<Rightarrow> ('x, 'd) worker \<Rightarrow> ('x, 'd) worker"
where
  "record_incident C env opened_epoch cause window_us estimate w =
     (if wc_has_ledger C then
        (case ledger_append (we_io_error env)
                \<lparr>gi_opened_epoch_us = opened_epoch, gi_closed_epoch_us = we_epoch_us env, gi_window_us = window_us,
                 gi_cause = cause, gi_exchange = wc_exchange C, gi_symbol = wc_symbol C,
                 gi_possible_dropped_trades = estimate\<rparr> (wk_ledger w) of
           (Ok _, ls) \<Rightarrow> w\<lparr>wk_ledger := ls\<rparr>
         | (Err _, ls) \<Rightarrow> w\<lparr>wk_ledger := ls, wk_metrics := bump_flush_failures (wk_metrics w)\<rparr>)
      else w)"

definition older_than_60s :: "instant \<Rightarrow> instant \<Rightarrow> bool" where
  "older_than_60s now t \<longleftrightarrow> (now - t) div 10 ^ 9 > 60"

text \<open>The first event of a connection closes the open window.\<close>

definition gap_recovered :: "worker_config \<Rightarrow> 'd worker_env \<Rightarrow> ('x, 'd) worker \<Rightarrow> ('x, 'd) worker" where
  "gap_recovered C env w =
     (case wk_gap_open w of
        None \<Rightarrow> w
      | Some (opened, opened_epoch, cause) \<Rightarrow>
          let w = w\<lparr>wk_gap_open := None\<rparr>;
              w = (if wc_reconcile_active C \<and> wk_triggers w < 4 then w\<lparr>wk_triggers := wk_triggers w + 1\<rparr> else w);
              window_us = window_since env opened;
              w = w\<lparr>wk_metrics := record_book_gap_incident window_us (wk_metrics w)\<rparr>
          in if mt_trade_loss_confidence (wk_metrics w) = 0 then
               let w = w\<lparr>wk_recent_trades := dropWhile (older_than_60s (we_now env)) (wk_recent_trades w)\<rparr>;
                   n = estimate_possible_dropped (we_rnd env) (length (wk_recent_trades w)) window_us;
                   w = w\<lparr>wk_metrics := record_trade_suspicion window_us n (wk_metrics w)\<rparr>
               in record_incident C env opened_epoch cause window_us (Some n) w
             else record_incident C env opened_epoch cause window_us None w)"

text \<open>A window still open when the worker stops is recorded up to that moment.\<close>

definition gap_at_stop :: "worker_config \<Rightarrow> 'd worker_env \<Rightarrow> ('x, 'd) worker \<Rightarrow> ('x, 'd) worker" where
  "gap_at_stop C env w =
     (case wk_gap_open w of
        None \<Rightarrow> w
      | Some (opened, opened_epoch, cause) \<Rightarrow>
          let w = w\<lparr>wk_gap_open := None\<rparr>;
              window_us = window_since env opened;
              w = w\<lparr>wk_metrics := record_book_gap_incident window_us (wk_metrics w)\<rparr>
          in record_incident C env opened_epoch cause window_us None w)"

definition gap_opens :: "'d worker_env \<Rightarrow> runtime_outcome \<Rightarrow> ('x, 'd) worker \<Rightarrow> ('x, 'd) worker" where
  "gap_opens env outcome w =
     (if wk_gap_open w = None
      then w\<lparr>wk_gap_open := Some (we_now env, we_epoch_us env,
                                   if outcome = ResyncRequired then CauseResync else CauseDisconnect)\<rparr>
      else w)"

section \<open>Events of a connection\<close>

fun trim_recent :: "instant \<Rightarrow> instant list \<Rightarrow> instant list" where
  "trim_recent now [] = []"
| "trim_recent now (t # ts) =
     (if older_than_60s now t \<or> length (t # ts) > 4096 then trim_recent now ts else t # ts)"

definition push_recent_id :: "u64 \<Rightarrow> u64 list \<Rightarrow> u64 list" where
  "push_recent_id i ids = (let ids = ids @ [i] in if length ids > 2048 then tl ids else ids)"

definition note_book_ts :: "u64 \<Rightarrow> ('x, 'd) worker \<Rightarrow> ('x, 'd) worker" where
  "note_book_ts ts w =
     (if ts > 0 then
        (case wire_ts_regressed (wk_last_book_ts_us w) ts of
           (regressed, last_ts) \<Rightarrow>
             w\<lparr>wk_last_book_ts_us := last_ts,
               wk_metrics := (if regressed then bump_out_of_order_frames (wk_metrics w) else wk_metrics w)\<rparr>)
      else w)"

definition note_trade_ts :: "u64 \<Rightarrow> ('x, 'd) worker \<Rightarrow> ('x, 'd) worker" where
  "note_trade_ts ts w =
     (if ts > 0 then
        (case wire_ts_regressed (wk_last_trade_ts_us w) ts of
           (regressed, last_ts) \<Rightarrow>
             w\<lparr>wk_last_trade_ts_us := last_ts,
               wk_metrics := (if regressed then bump_out_of_order_frames (wk_metrics w) else wk_metrics w)\<rparr>)
      else w)"

text \<open>Whether a print is a replay the worker has seen, with the updated window.\<close>

definition replayed :: "'d trade \<Rightarrow> ('x, 'd) worker \<Rightarrow> bool \<times> ('x, 'd) worker" where
  "replayed trade w =
     (case (wk_seen w, parse_u64 (tr_id trade)) of
        (Some seen, Some tid) \<Rightarrow>
          (case seen_insert tid seen of (fresh, seen) \<Rightarrow> (\<not> fresh, w\<lparr>wk_seen := Some seen\<rparr>))
      | _ \<Rightarrow> (False, w))"

definition note_anchor :: "worker_config \<Rightarrow> 'd trade \<Rightarrow> ('x, 'd) worker \<Rightarrow> ('x, 'd) worker" where
  "note_anchor C trade w =
     (case parse_u64 (tr_id trade) of
        Some idn \<Rightarrow>
          if wc_reconcile_active C
          then w\<lparr>wk_last_pos := hm_insert (tr_pair trade) \<lparr>tpos_id = idn, tpos_ts_us = source_trade_ts_us trade\<rparr> (wk_last_pos w),
                 wk_recent_ids := push_recent_id idn (wk_recent_ids w)\<rparr>
          else w
      | None \<Rightarrow> w)"

text \<open>The match on the event; \<open>True\<close> is the \<open>continue\<close> of a replayed print.\<close>

fun route_event ::
  "worker_config \<Rightarrow> 'd worker_env \<Rightarrow> 'd reconstructed_event \<Rightarrow> ('x, 'd) worker \<Rightarrow> bool \<times> ('x, 'd) worker"
where
  "route_event C env (RBook pair ts book) w = (False, feed_sync (MBook pair ts book) (note_book_ts ts w))"
| "route_event C env (RFundingRate fr) w = (False, feed_sync (MFunding fr) w)"
| "route_event C env (ROpenInterest oi) w = (False, feed_sync (MOpenInterest oi) w)"
| "route_event C env (RFundingSettlement fs) w = (False, feed_sync (MSettlement fs) w)"
| "route_event C env (RTrade trade) w =
     (case replayed trade w of
        (True, w) \<Rightarrow> (True, w\<lparr>wk_metrics := bump_replay_duplicates (wk_metrics w)\<rparr>)
      | (False, w) \<Rightarrow>
          let w = note_trade_ts (source_trade_ts_us trade) w;
              w = w\<lparr>wk_recent_trades := trim_recent (we_now env) (wk_recent_trades w @ [we_now env])\<rparr>;
              w = note_anchor C trade w
          in (False, feed_sync (MTrade trade) w))"

definition first_event :: "worker_config \<Rightarrow> 'd worker_env \<Rightarrow> ('x, 'd) worker \<Rightarrow> ('x, 'd) worker" where
  "first_event C env w =
     (if wk_live w then w
      else gap_recovered C env (w\<lparr>wk_live := True, wk_policy := policy_on_connected (wk_policy w)\<rparr>))"

definition worker_on_event ::
  "worker_config \<Rightarrow> 'd worker_env \<Rightarrow> 'd reconstructed_event \<Rightarrow> ('x, 'd) worker
     \<Rightarrow> (unit, string) result \<times> ('x, 'd) worker"
where
  "worker_on_event C env ev w =
     (let w = w\<lparr>wk_total_events := wk_total_events w + 1, wk_connection_state := Streaming\<rparr>;
          w = first_event C env w;
          w = w\<lparr>wk_policy := policy_on_message_received (wk_policy w)\<rparr>
      in if wk_paused w then (Ok (), w)
         else case route_event C env ev w of
                (True, w) \<Rightarrow> (Ok (), w)
              | (False, w) \<Rightarrow> if wc_external_clock C then (Ok (), w) else produce C env w)"

definition worker_on_tick ::
  "worker_config \<Rightarrow> 'd worker_env \<Rightarrow> ('x, 'd) worker \<Rightarrow> (unit, string) result \<times> ('x, 'd) worker"
where
  "worker_on_tick C env w =
     (if wk_paused w then (Ok (), w) else produce C env (feed_sync (MTime (we_epoch_us env)) w))"

text \<open>A print recovered over REST.\<close>

definition note_recovered_anchor :: "u64 \<Rightarrow> 'd trade \<Rightarrow> ('x, 'd) worker \<Rightarrow> ('x, 'd) worker" where
  "note_recovered_anchor idn rt w =
     (let e = unwrap_or (hm_get (wk_last_pos w) (tr_pair rt)) \<lparr>tpos_id = 0, tpos_ts_us = 0\<rparr>
      in w\<lparr>wk_recent_ids := push_recent_id idn (wk_recent_ids w),
           wk_last_pos := hm_insert (tr_pair rt)
             (if idn > tpos_id e then \<lparr>tpos_id = idn, tpos_ts_us = source_trade_ts_us rt\<rparr> else e) (wk_last_pos w)\<rparr>)"

definition worker_on_recovered :: "'d trade \<Rightarrow> ('x, 'd) worker \<Rightarrow> ('x, 'd) worker" where
  "worker_on_recovered rt w =
     (if wk_paused w then w
      else
        let idn = unwrap_or (parse_u64 (tr_id rt)) 0 in
        if idn \<noteq> 0 \<and> idn \<in> set (wk_recent_ids w) then w
        else
          let w = (if idn \<noteq> 0 then note_recovered_anchor idn rt w else w);
              w = w\<lparr>wk_metrics := add_trades_recovered 1 (wk_metrics w)\<rparr>
          in feed_sync (MTrade (rt\<lparr>tr_origin := Rest\<rparr>)) w)"

datatype worker_command = CmdPause | CmdResume | CmdStop | CmdRestart

fun worker_on_command :: "worker_command \<Rightarrow> ('x, 'd) worker \<Rightarrow> ('x, 'd) worker" where
  "worker_on_command CmdPause w = w\<lparr>wk_paused := True, wk_connection_state := Paused\<rparr>"
| "worker_on_command CmdResume w = w\<lparr>wk_paused := False, wk_connection_state := Streaming\<rparr>"
| "worker_on_command CmdStop w = w\<lparr>wk_stopped := True, wk_phase := Leaving\<rparr>"
| "worker_on_command CmdRestart w = w\<lparr>wk_stopped := True, wk_phase := Leaving\<rparr>"

section \<open>The reconnect loop\<close>

text \<open>The head of the loop: a new connection, or the way out.\<close>

definition worker_connect :: "('x, 'd) worker \<Rightarrow> ('x, 'd) worker" where
  "worker_connect w =
     (if wk_stopped w \<or> wk_shutdown w then w\<lparr>wk_phase := Exited\<rparr>
      else w\<lparr>wk_phase := InConnection, wk_feeds := mark_all_subscribing (wk_feeds w), wk_last_book_ts_us := 0,
             wk_last_trade_ts_us := 0, wk_live := False,
             wk_connection_state := (case wk_connection_state w of CReconnecting n \<Rightarrow> CReconnecting n | _ \<Rightarrow> Connecting)\<rparr>)"

fun exit_reason :: "task_exit \<Rightarrow> disconnect_reason" where
  "exit_reason (TaskFailed reason) = reason"
| "exit_reason _ = CleanClose"

fun is_protocol_rejection :: "disconnect_reason \<Rightarrow> bool" where
  "is_protocol_rejection (ProtocolRejection _ _) = True"
| "is_protocol_rejection _ = False"

definition give_up :: "disconnect_reason \<Rightarrow> string \<Rightarrow> ('x, 'd) worker \<Rightarrow> ('x, 'd) worker" where
  "give_up policy_reason reason w =
     w\<lparr>wk_connection_state := Disconnected, wk_stopped := True,
       wk_feeds := (if is_protocol_rejection policy_reason then mark_all_rejected reason (wk_feeds w)
                    else mark_all_failed reason (wk_feeds w))\<rparr>"

definition worker_reconnect ::
  "'d worker_env \<Rightarrow> task_exit \<Rightarrow> runtime_outcome \<Rightarrow> ('x, 'd) worker \<Rightarrow> ('x, 'd) worker"
where
  "worker_reconnect env adapter_exit outcome w =
     (let w = gap_opens env outcome w;
          w = w\<lparr>wk_reconnects := wk_reconnects w + 1, wk_metrics := bump_reconnects (wk_metrics w),
                wk_connection_state := CReconnecting (wk_reconnects w + 1),
                wk_feeds := mark_all_reconnecting (wk_feeds w), wk_phase := Between\<rparr>;
          policy_reason = exit_reason adapter_exit
      in case next_action (we_rng env) (we_show_dur env) (we_now env) policy_reason (wk_policy w) of
           (Ok (GiveUp reason), p) \<Rightarrow> give_up policy_reason reason (w\<lparr>wk_policy := p\<rparr>)
         | (Ok _, p) \<Rightarrow> w\<lparr>wk_policy := p\<rparr>
         | (Err Panic, p) \<Rightarrow> w\<lparr>wk_policy := p, wk_phase := WorkerFailed ''panic''\<rparr>)"

text \<open>Both tasks of the connection have ended.\<close>

definition worker_on_runtime_end ::
  "'d worker_env \<Rightarrow> task_exit \<Rightarrow> runtime_outcome \<Rightarrow> ('x, 'd) worker \<Rightarrow> ('x, 'd) worker"
where
  "worker_on_runtime_end env adapter_exit outcome w =
     (if adapter_exit = TaskExhausted
      then w\<lparr>wk_metrics := mark_source_exhausted (wk_metrics w), wk_phase := Exited\<rparr>
      else if wk_stopped w \<or> wk_shutdown w
      then w\<lparr>wk_drain_partial := (adapter_exit = TaskDrainTimedOut), wk_phase := Exited\<rparr>
      else worker_reconnect env adapter_exit outcome w)"

definition worker_finish :: "worker_config \<Rightarrow> 'd worker_env \<Rightarrow> ('x, 'd) worker \<Rightarrow> ('x, 'd) worker" where
  "worker_finish C env w =
     (let w = gap_at_stop C env w;
          w = w\<lparr>wk_feeds := mark_all_draining (wk_feeds w), wk_sync := mk_finalize (wk_sync w)\<rparr>
      in case drain_and_emit w of
           (n, w) \<Rightarrow>
             (case flush_sinks env (w\<lparr>wk_snapshots_produced := wk_snapshots_produced w + n\<rparr>) of
                (Err e, w) \<Rightarrow> w\<lparr>wk_phase := WorkerFailed e\<rparr>
              | (Ok _, w) \<Rightarrow>
                  w\<lparr>wk_flushes := wk_flushes w + 1, wk_feeds := mark_all_closed (wk_drain_partial w) (wk_feeds w),
                    wk_connection_state := Disconnected, wk_phase := WorkerDone\<rparr>))"

section \<open>The reconciler task\<close>

definition reconcile_begins :: "worker_config \<Rightarrow> ('x, 'd) worker \<Rightarrow> ('x, 'd) worker" where
  "reconcile_begins C w =
     (case hm_get (wk_last_pos w) (wc_pair C) of
        None \<Rightarrow> w
      | Some pos \<Rightarrow> w\<lparr>wk_fetching := Some pos, wk_metrics := bump_reconcile_fetches (wk_metrics w)\<rparr>)"

definition reconcile_ends :: "(trade_pos \<Rightarrow> ('d trade list, string) result) \<Rightarrow> ('x, 'd) worker \<Rightarrow> ('x, 'd) worker" where
  "reconcile_ends fetch_after w =
     (case wk_fetching w of
        None \<Rightarrow> w
      | Some pos \<Rightarrow>
          (case fetch_after pos of
             Ok trades \<Rightarrow> w\<lparr>wk_fetching := None, wk_recovered := wk_recovered w @ trades\<rparr>
           | Err _ \<Rightarrow> w\<lparr>wk_fetching := None, wk_metrics := bump_reconcile_failures (wk_metrics w)\<rparr>))"

section \<open>The worker as a step relation\<close>

text \<open>The counters only the worker and its reconciler write.\<close>

definition own_counters :: "source_metrics \<Rightarrow> u64 list" where
  "own_counters m =
     [mt_book_gap_incidents m, mt_book_gap_window_us m, mt_flush_failures m, mt_trade_gap_incidents m, mt_reconnects m,
      mt_replay_duplicates m, mt_out_of_order_frames m, mt_trades_recovered m, mt_reconcile_fetches m,
      mt_reconcile_failures m, mt_source_exhausted m]"

definition conclude :: "(unit, string) result \<times> ('x, 'd) worker \<Rightarrow> ('x, 'd) worker" where
  "conclude r = (case r of (Ok _, w) \<Rightarrow> w | (Err e, w) \<Rightarrow> w\<lparr>wk_phase := WorkerFailed e\<rparr>)"

inductive worker_step :: "worker_config \<Rightarrow> ('x, 'd) worker \<Rightarrow> ('x, 'd) worker \<Rightarrow> bool" for C where
  connects: "wk_phase w = Between \<Longrightarrow> worker_step C w (worker_connect w)"
| shutdown_set: "worker_step C w (w\<lparr>wk_shutdown := True\<rparr>)"
| shutdown_seen: "wk_phase w = InConnection \<Longrightarrow> wk_shutdown w \<Longrightarrow>
    worker_step C w (w\<lparr>wk_stopped := True, wk_phase := Leaving\<rparr>)"
| ticks: "wk_phase w = InConnection \<Longrightarrow> wc_external_clock C \<Longrightarrow> worker_step C w (conclude (worker_on_tick C env w))"
| event_arrives: "wk_phase w = InConnection \<Longrightarrow> worker_step C w (conclude (worker_on_event C env ev w))"
| output_closed: "wk_phase w = InConnection \<Longrightarrow> worker_step C w (w\<lparr>wk_phase := Leaving\<rparr>)"
| print_recovered: "wk_phase w = InConnection \<Longrightarrow> wk_recovered w = rt # rts \<Longrightarrow>
    worker_step C w (worker_on_recovered rt (w\<lparr>wk_recovered := rts\<rparr>))"
| commanded: "wk_phase w = InConnection \<Longrightarrow> worker_step C w (worker_on_command cmd w)"
| tasks_end: "wk_phase w = Leaving \<Longrightarrow> worker_step C w (worker_on_runtime_end env adapter_exit outcome w)"
| finishes: "wk_phase w = Exited \<Longrightarrow> worker_step C w (worker_finish C env w)"
| fetch_triggered: "wc_reconcile_active C \<Longrightarrow> wk_fetching w = None \<Longrightarrow> wk_triggers w > 0 \<Longrightarrow>
    worker_step C w (reconcile_begins C (w\<lparr>wk_triggers := wk_triggers w - 1\<rparr>))"
| fetch_swept: "wc_reconcile_active C \<Longrightarrow> wk_fetching w = None \<Longrightarrow> worker_step C w (reconcile_begins C w)"
| fetch_done: "worker_step C w (reconcile_ends fetch_after w)"
| runtime_acts: "wk_phase w \<in> {InConnection, Leaving} \<Longrightarrow> feed_step (wk_feeds w) fs \<Longrightarrow>
    own_counters m = own_counters (wk_metrics w) \<Longrightarrow> worker_step C w (w\<lparr>wk_feeds := fs, wk_metrics := m\<rparr>)"


section \<open>Replay de-duplication is a sliding window\<close>

definition last_n :: "nat \<Rightarrow> 'a list \<Rightarrow> 'a list" where
  "last_n n xs = drop (length xs - n) xs"

text \<open>The reference: a print is accepted unless it is among the last \<open>n\<close> accepted ones.\<close>

fun accept_window :: "nat \<Rightarrow> u64 list \<Rightarrow> u64 list \<Rightarrow> u64 list" where
  "accept_window n acc [] = acc"
| "accept_window n acc (i # ids) = accept_window n (if i \<in> set (last_n n acc) then acc else acc @ [i]) ids"

definition seen_window :: "u64 list \<Rightarrow> seen_trade_ids \<Rightarrow> bool" where
  "seen_window acc s \<longleftrightarrow> si_order s = last_n (si_capacity s) acc \<and> si_ids s = set (si_order s) \<and> distinct (si_order s)"

lemma last_n_snoc:
  "last_n n (xs @ [x]) = (if length (last_n n xs @ [x]) > n then tl (last_n n xs @ [x]) else last_n n xs @ [x])"
proof (cases "n = 0")
  case True
  then show ?thesis by (simp add: last_n_def)
next
  case False
  then have "drop (Suc (length xs) - n) xs = drop (Suc 0) (drop (length xs - n) xs)" if "n \<le> length xs"
    using that by (simp add: Suc_diff_le)
  with False show ?thesis by (auto simp: last_n_def drop_Suc tl_drop)
qed

lemma seen_insert_window:
  assumes "seen_window acc s"
  shows "fst (seen_insert i s) \<longleftrightarrow> i \<notin> set (last_n (si_capacity s) acc)"
    and "seen_window (if i \<in> set (last_n (si_capacity s) acc) then acc else acc @ [i]) (snd (seen_insert i s))"
    and "si_capacity (snd (seen_insert i s)) = si_capacity s"
proof -
  from assms have o: "si_order s = last_n (si_capacity s) acc" and ids: "si_ids s = set (si_order s)"
    and d: "distinct (si_order s)"
    unfolding seen_window_def by blast+
  show "fst (seen_insert i s) \<longleftrightarrow> i \<notin> set (last_n (si_capacity s) acc)"
    using o ids by (auto simp: seen_insert_def Let_def split: list.splits)
  show "si_capacity (snd (seen_insert i s)) = si_capacity s"
    by (auto simp: seen_insert_def Let_def split: list.splits)
  show "seen_window (if i \<in> set (last_n (si_capacity s) acc) then acc else acc @ [i]) (snd (seen_insert i s))"
  proof (cases "i \<in> set (si_order s)")
    case True
    with assms o ids show ?thesis by (simp add: seen_insert_def)
  next
    case False
    then have "distinct (si_order s @ [i])" using d by simp
    then obtain e r where er: "si_order s @ [i] = e # r" "distinct (e # r)"
      by (metis append_is_Nil_conv list.distinct(1) neq_Nil_conv)
    have set: "insert i (set (si_order s)) = set (e # r)" using er(1) by (metis rotate1.simps(2) set_rotate1 list.simps(15))
    have st: "snd (seen_insert i s) =
        (if length (e # r) > si_capacity s then s\<lparr>si_order := r, si_ids := set (e # r) - {e}\<rparr>
         else s\<lparr>si_order := e # r, si_ids := set (e # r)\<rparr>)"
      using False set by (simp add: seen_insert_def Let_def ids er(1) del: set_simps list.set)
    have "last_n (si_capacity s) (acc @ [i]) = (if length (e # r) > si_capacity s then r else e # r)"
      unfolding last_n_snoc o [symmetric] er(1) by simp
    with False er(2) show ?thesis by (simp add: st seen_window_def flip: o)
  qed
qed
lemma seen_run_window:
  assumes "seen_window acc s"
  shows "seen_window (accept_window (si_capacity s) acc ids) (fold (\<lambda>i s. snd (seen_insert i s)) ids s)
    \<and> si_capacity (fold (\<lambda>i s. snd (seen_insert i s)) ids s) = si_capacity s"
  using assms
proof (induction ids arbitrary: acc s)
  case (Cons i ids)
  show ?case
    using Cons.IH [OF seen_insert_window(2) [OF Cons.prems]] by (simp add: seen_insert_window(3) [OF Cons.prems])
qed simp

text \<open>
  C11: the ring that drops prints replayed after a resubscription is an exact sliding window.  After any
  stream of ids it holds the last \<open>n\<close> accepted ones, in order and without repetition, its hash set
  agrees with its queue, and the next id is refused exactly when it is one of them.
\<close>

theorem seen_ids_are_a_window:
  "let s = fold (\<lambda>i s. snd (seen_insert i s)) ids (seen_with_capacity n); accepted = accept_window n [] ids in
     si_order s = last_n n accepted \<and> distinct (si_order s) \<and> si_ids s = set (si_order s)
   \<and> fst (seen_insert i s) = (i \<notin> set (last_n n accepted))"
proof -
  have "seen_window [] (seen_with_capacity n)" by (simp add: seen_window_def seen_with_capacity_def last_n_def)
  from seen_run_window [OF this, of ids] show ?thesis
    using seen_insert_window(1) by (auto simp: Let_def seen_with_capacity_def seen_window_def)
qed

section \<open>Draining commutes with feeding\<close>

text \<open>Feeding the synchronizer only appends rows: what was drained before does not matter.\<close>

lemma drain_events_buffer:
  "drain_events prev lst (s\<lparr>mk_buffer := b\<rparr>) = (case drain_events prev lst s of (out, s') \<Rightarrow> (out, s'\<lparr>mk_buffer := b\<rparr>))"
  by (simp add: drain_events_def Let_def split: prod.splits)

lemma drain_events_keeps_buffer: "mk_buffer (snd (drain_events prev lst s)) = mk_buffer s"
  by (simp add: drain_events_def Let_def split: prod.splits)

lemma emit_rows_buffer:
  assumes "book = as_of_book_any \<or> (\<exists>key. book = as_of_book key)"
  shows "emit_rows book prev fill (s\<lparr>mk_buffer := b @ mk_buffer s\<rparr>)
    = (emit_rows book prev fill s)\<lparr>mk_buffer := b @ mk_buffer (emit_rows book prev fill s)\<rparr>"
proof -
  obtain out s' where d: "drain_events prev (prev + fill) s = (out, s')" by fastforce
  have "mk_buffer s' = mk_buffer s" using drain_events_keeps_buffer [of prev "prev + fill" s] d by simp
  moreover have "book p (s'\<lparr>mk_buffer := b @ mk_buffer s\<rparr>) = book p s'" for p
    using assms by (auto simp: as_of_book_any_def as_of_book_def)
  ultimately show ?thesis
    by (simp add: emit_rows_def Let_def drain_events_buffer d prune_books_def)
qed

lemma emit_rows_buffer_any:
  "emit_rows as_of_book_any prev fill (s\<lparr>mk_buffer := b @ mk_buffer s\<rparr>)
    = (emit_rows as_of_book_any prev fill s)\<lparr>mk_buffer := b @ mk_buffer (emit_rows as_of_book_any prev fill s)\<rparr>"
  "emit_rows (as_of_book key) prev fill (s\<lparr>mk_buffer := b @ mk_buffer s\<rparr>)
    = (emit_rows (as_of_book key) prev fill s)\<lparr>mk_buffer := b @ mk_buffer (emit_rows (as_of_book key) prev fill s)\<rparr>"
  by (rule emit_rows_buffer, blast)+

lemma advance_grid_buffer:
  "snd (advance_grid ts (s\<lparr>mk_buffer := b @ mk_buffer s\<rparr>))
    = (snd (advance_grid ts s))\<lparr>mk_buffer := b @ mk_buffer (snd (advance_grid ts s))\<rparr>"
  by (simp add: advance_grid_def Let_def ripe_period_def emit_rows_buffer_any split: option.splits)

lemma market_update_swap:
  "s\<lparr>mk_buffer := b, mk_trades := t\<rparr> = s\<lparr>mk_trades := t, mk_buffer := b\<rparr>"
  "s\<lparr>mk_buffer := b, mk_liquidations := l\<rparr> = s\<lparr>mk_liquidations := l, mk_buffer := b\<rparr>"
  "s\<lparr>mk_buffer := b, mk_last_period := m\<rparr> = s\<lparr>mk_last_period := m, mk_buffer := b\<rparr>"
  by simp_all

lemma mk_feed_buffer:
  "mk_feed i (s\<lparr>mk_buffer := b @ mk_buffer s\<rparr>) = (mk_feed i s)\<lparr>mk_buffer := b @ mk_buffer (mk_feed i s)\<rparr>"
proof (cases i)
  case (MTrade t)
  then show ?thesis using advance_grid_buffer [where ts = "source_trade_ts_us t" and s = "s\<lparr>mk_trades := mk_trades s @ [t]\<rparr>"]
    by (simp add: mk_on_trade_def mk_drop_post_finalize_def Let_def market_update_swap)
next
  case (MLiquidation l)
  then show ?thesis using advance_grid_buffer [where ts = "liquidation_ts_us l" and s = "s\<lparr>mk_liquidations := mk_liquidations s @ [l]\<rparr>"]
    by (simp add: mk_on_liquidation_def mk_drop_post_finalize_def Let_def market_update_swap)
next
  case (MBook pair ts ob)
  then show ?thesis
    by (simp add: mk_on_orderbook_def mk_drop_post_finalize_def Let_def record_book_def ripe_period_def emit_rows_buffer_any
        split: option.splits)
qed (simp_all add: mk_on_time_def mk_on_funding_def mk_on_funding_settlement_def mk_on_open_interest_def
      mk_drop_post_finalize_def advance_grid_buffer)

section \<open>What the sinks saw\<close>

definition apply_sink_op :: "'d sink_op \<Rightarrow> ('x, 'd) sink_set \<Rightarrow> ('x, 'd) sink_set" where
  "apply_sink_op op sinks =
     (case op of OpEmit x \<Rightarrow> set_emit_snapshot x sinks | OpFlush fl now_us \<Rightarrow> snd (set_flush fl now_us sinks))"

text \<open>Every buffered sink of the set is where the history of calls takes it.\<close>

definition sinks_track :: "('x, 'd) sink_set \<Rightarrow> 'd sink_op list \<Rightarrow> ('x, 'd) sink_set \<Rightarrow> bool" where
  "sinks_track ss0 ops ss \<longleftrightarrow> length ss = length ss0 \<and>
     (\<forall>i < length ss0. \<forall>b. ss0 ! i = Buffered b \<longrightarrow> ss ! i = Buffered (snd (fold do_sink_op ops ([], b))))"

lemma do_sink_op_snd: "snd (do_sink_op op (w, s)) = snd (do_sink_op op (v, s))"
  by (cases op) (auto split: prod.splits result.splits)

lemma sinks_track_op:
  assumes "sinks_track ss0 ops ss"
  shows "sinks_track ss0 (ops @ [op]) (apply_sink_op op ss)"
proof -
  have "apply_sink_op op ss ! i = Buffered (snd (fold do_sink_op (ops @ [op]) ([], b)))"
    if "i < length ss0" "ss0 ! i = Buffered b" for i b
  proof -
    obtain w s where ws: "fold do_sink_op ops ([], b) = (w, s)" by fastforce
    with assms that have "ss ! i = Buffered s" "i < length ss" by (auto simp: sinks_track_def)
    then show ?thesis
      by (cases op) (auto simp: ws apply_sink_op_def set_emit_snapshot_def set_flush_def split: prod.splits result.splits)
  qed
  moreover have "length (apply_sink_op op ss) = length ss"
    by (cases op) (simp_all add: apply_sink_op_def set_emit_snapshot_def set_flush_def)
  ultimately show ?thesis using assms by (simp add: sinks_track_def)
qed

lemma sinks_track_ops: "sinks_track ss0 ops ss \<Longrightarrow> sinks_track ss0 (ops @ ops') (fold apply_sink_op ops' ss)"
proof (induction ops' rule: rev_induct)
  case (snoc op ops')
  with sinks_track_op [of ss0 "ops @ ops'"] show ?case by simp
qed simp

section \<open>Producing snapshots\<close>

lemma fold_emit_to_sinks:
  "fold emit_to_sinks xs w =
     w\<lparr>wk_sinks := fold apply_sink_op (map OpEmit xs) (wk_sinks w), wk_sink_ops := wk_sink_ops w @ map OpEmit xs\<rparr>"
  by (induction xs arbitrary: w) (simp_all add: emit_to_sinks_def apply_sink_op_def)

lemma flush_sinks_eq:
  "flush_sinks env w =
     (Ok (), w\<lparr>wk_sinks := apply_sink_op (OpFlush (we_flusher env) (we_epoch_us env)) (wk_sinks w),
              wk_sink_ops := wk_sink_ops w @ [OpFlush (we_flusher env) (we_epoch_us env)]\<rparr>)"
  by (simp add: flush_sinks_def apply_sink_op_def set_flush_def)

text \<open>
  Draining and flushing never fail and touch the synchronizer's buffer, the sinks and the counters of
  snapshots only.
\<close>

lemma emitted_by_emits: "emitted_by (map OpEmit xs) = xs"
  by (induction xs) simp_all

lemma produce_eq:
  "\<exists>ops n k. emitted_by ops = mk_buffer (wk_sync w)
     \<and> produce C env w =
        (Ok (), w\<lparr>wk_sync := (wk_sync w)\<lparr>mk_buffer := []\<rparr>, wk_sinks := fold apply_sink_op ops (wk_sinks w),
                 wk_sink_ops := wk_sink_ops w @ ops,
                 wk_snapshots_produced := wk_snapshots_produced w + of_nat (length (mk_buffer (wk_sync w))),
                 wk_since_flush := n, wk_flushes := k\<rparr>)"
proof -
  let ?emits = "map OpEmit (mk_buffer (wk_sync w))"
  let ?n = "wk_since_flush w + of_nat (length (mk_buffer (wk_sync w)))"
  show ?thesis
  proof (cases "wc_flush_threshold C > 0 \<and> ?n \<ge> of_nat (wc_flush_threshold C)")
    case True
    show ?thesis
      by (rule exI [of _ "?emits @ [OpFlush (we_flusher env) (we_epoch_us env)]"], rule exI [of _ 0],
          rule exI [of _ "wk_flushes w + 1"])
         (use True in \<open>simp add: produce_def drain_and_emit_def mk_drain_def fold_emit_to_sinks maybe_flush_def flush_sinks_eq
           emitted_by_append emitted_by_emits\<close>)
  next
    case False
    show ?thesis
      by (rule exI [of _ ?emits], rule exI [of _ ?n], rule exI [of _ "wk_flushes w"])
         (use False in \<open>auto simp: produce_def drain_and_emit_def mk_drain_def fold_emit_to_sinks maybe_flush_def
           emitted_by_emits\<close>)
  qed
qed

section \<open>The flow of events through the worker\<close>

definition held :: "('x, 'd) worker \<Rightarrow> 'd market_synchronizer" where
  "held w = (wk_sync w)\<lparr>mk_buffer := emitted_by (wk_sink_ops w) @ mk_buffer (wk_sync w)\<rparr>"

text \<open>The rows the end of the stream adds.\<close>

definition final_rows :: "'d market_synchronizer \<Rightarrow> 'd market_snapshot list" where
  "final_rows s =
     (if mk_clock_mode s = OrderbookDriven
      then map (\<lambda>(symbol, period). market_row (mk_period_us s) (period + 1) (as_of_book symbol (- 1) s) (pending_events s))
             (mk_last_period s)
      else case mk_clock_period s of
             None \<Rightarrow> []
           | Some period \<Rightarrow> [market_row (mk_period_us s) (period + 1) (as_of_book_any (- 1) s) (pending_events s)])"

definition grid_part :: "'d market_synchronizer \<Rightarrow> clock_mode \<times> (string, u64) hash_map \<times> u64 option \<times> u64" where
  "grid_part s = (mk_clock_mode s, mk_last_period s, mk_clock_period s, mk_late_events_dropped s)"

lemma finalize_ob_driven_grid: "grid_part (finalize_ob_driven s) = grid_part s"
proof -
  have fb: "grid_part (fold (\<lambda>(symbol, period) s'. s'\<lparr>mk_buffer := mk_buffer s' @ [row symbol period],
      mk_total_captured := mk_total_captured s' + 1\<rparr>) m s') = grid_part s'" for row m s'
    by (induction m arbitrary: s') (auto simp: grid_part_def)
  show ?thesis unfolding finalize_ob_driven_def fb by (simp add: grid_part_def clear_events_def)
qed

lemma finalize_rows:
  assumes "\<not> mk_finalized s"
  shows "mk_buffer (mk_finalize s) = mk_buffer s @ final_rows s" and "grid_part (mk_finalize s) = grid_part s"
  using assms finalize_ob_driven_grid [of "s\<lparr>mk_finalized := True\<rparr>"]
  by (auto simp: mk_finalize_def Let_def finalize_ob_driven_buffer finalize_global_clock_def final_rows_def grid_part_def
      as_of_book_def as_of_book_any_def pending_events_def clear_events_def split: option.splits)

lemma final_rows_held: "final_rows (s\<lparr>mk_buffer := b\<rparr>) = final_rows s"
  by (simp add: final_rows_def as_of_book_def as_of_book_any_def pending_events_def split: option.splits)

definition done_inv :: "('x, 'd) worker \<Rightarrow> bool" where
  "done_inv w \<longleftrightarrow>
     (\<exists>s. market_inv (fed_events (wk_fed w)) (fed_books (wk_fed w)) s
        \<and> emitted_by (wk_sink_ops w) = mk_buffer s @ final_rows s \<and> grid_part (wk_sync w) = grid_part s)"

definition flow_inv :: "('x, 'd) sink_set \<Rightarrow> ('x, 'd) worker \<Rightarrow> bool" where
  "flow_inv ss0 w \<longleftrightarrow>
     sinks_track ss0 (wk_sink_ops w) (wk_sinks w)
   \<and> wk_snapshots_produced w = of_nat (length (emitted_by (wk_sink_ops w)))
   \<and> (wk_phase w \<noteq> WorkerDone \<longrightarrow> market_inv (fed_events (wk_fed w)) (fed_books (wk_fed w)) (held w))
   \<and> (wk_phase w = WorkerDone \<longrightarrow> done_inv w)"

definition flow_part :: "('x, 'd) worker \<Rightarrow>
    'd market_synchronizer \<times> ('x, 'd) sink_set \<times> 'd sink_op list \<times> 'd market_input list \<times> u64" where
  "flow_part w = (wk_sync w, wk_sinks w, wk_sink_ops w, wk_fed w, wk_snapshots_produced w)"

lemma flow_inv_same:
  "flow_inv ss0 w \<Longrightarrow> flow_part w' = flow_part w \<Longrightarrow> (wk_phase w = WorkerDone \<longleftrightarrow> wk_phase w' = WorkerDone) \<Longrightarrow> flow_inv ss0 w'"
  by (auto simp: flow_inv_def flow_part_def held_def done_inv_def)

lemma flow_feed_sync:
  assumes "flow_inv ss0 w" "wk_phase w \<noteq> WorkerDone"
  shows "flow_inv ss0 (feed_sync i w)"
proof -
  have "fed_events (wk_fed w @ [i]) = note_fed i (fed_events (wk_fed w))" by (simp add: fed_events_def)
  moreover have "fed_books (wk_fed w @ [i]) = fed_books (wk_fed w) @ fed_books [i]"
    by (simp add: fed_books_def List.map_filter_def)
  moreover have "held (feed_sync i w) = mk_feed i (held w)"
    by (simp add: held_def feed_sync_def mk_feed_buffer)
  ultimately show ?thesis
    using assms mk_feed_inv [of "fed_events (wk_fed w)" "fed_books (wk_fed w)" "held w" i]
    by (simp add: flow_inv_def feed_sync_def)
qed

lemma flow_produce:
  assumes "flow_inv ss0 w" "wk_phase w \<noteq> WorkerDone"
  shows "flow_inv ss0 (conclude (produce C env w))"
proof -
  obtain ops n k where ops: "emitted_by ops = mk_buffer (wk_sync w)"
    and w': "produce C env w = (Ok (), w\<lparr>wk_sync := (wk_sync w)\<lparr>mk_buffer := []\<rparr>,
      wk_sinks := fold apply_sink_op ops (wk_sinks w), wk_sink_ops := wk_sink_ops w @ ops,
      wk_snapshots_produced := wk_snapshots_produced w + of_nat (length (mk_buffer (wk_sync w))),
      wk_since_flush := n, wk_flushes := k\<rparr>)"
    using produce_eq [of w C env] by blast
  from assms ops show ?thesis
    by (simp add: w' conclude_def flow_inv_def sinks_track_ops emitted_by_append held_def)
qed

lemma feed_sync_phase [simp]: "wk_phase (feed_sync i w) = wk_phase w"
  by (simp add: feed_sync_def)

lemma conclude_Ok [simp]: "conclude (Ok u, w) = w"
  by (simp add: conclude_def)

named_theorems gap_defs
declare gap_recovered_def [gap_defs] gap_at_stop_def [gap_defs] record_incident_def [gap_defs]
  ledger_append_def [gap_defs] gap_opens_def [gap_defs] Let_def [gap_defs]

lemma gap_flow [simp]:
  "flow_part (gap_recovered C env w) = flow_part w" "flow_part (gap_at_stop C env w) = flow_part w"
  "flow_part (gap_opens env outcome w) = flow_part w"
  "wk_phase (gap_recovered C env w) = wk_phase w" "wk_phase (gap_at_stop C env w) = wk_phase w"
  "wk_phase (gap_opens env outcome w) = wk_phase w"
  "wk_paused (gap_recovered C env w) = wk_paused w"
  by (auto simp: flow_part_def gap_defs split: option.splits)

lemma first_event_flow [simp]:
  "flow_part (first_event C env w) = flow_part w" "wk_phase (first_event C env w) = wk_phase w"
  "wk_paused (first_event C env w) = wk_paused w"
  by (simp_all add: first_event_def) (simp_all add: flow_part_def)

lemma note_flow [simp]:
  "flow_part (note_book_ts ts w) = flow_part w" "wk_phase (note_book_ts ts w) = wk_phase w"
  "flow_part (note_trade_ts ts w) = flow_part w" "wk_phase (note_trade_ts ts w) = wk_phase w"
  "flow_part (note_anchor C t w) = flow_part w" "wk_phase (note_anchor C t w) = wk_phase w"
  "flow_part (note_recovered_anchor i t w) = flow_part w" "wk_phase (note_recovered_anchor i t w) = wk_phase w"
  "flow_part (snd (replayed t w)) = flow_part w" "wk_phase (snd (replayed t w)) = wk_phase w"
  by (auto simp: note_book_ts_def note_trade_ts_def note_anchor_def note_recovered_anchor_def replayed_def flow_part_def
      Let_def split: prod.splits option.splits)

lemma recent_trades_flow [simp]: "flow_part (w\<lparr>wk_recent_trades := x\<rparr>) = flow_part w"
  by (simp add: flow_part_def)

lemma flow_route:
  assumes "flow_inv ss0 w" "wk_phase w \<noteq> WorkerDone"
  shows "flow_inv ss0 (snd (route_event C env ev w)) \<and> wk_phase (snd (route_event C env ev w)) = wk_phase w"
proof -
  have feed: "flow_inv ss0 (feed_sync i w') \<and> wk_phase (feed_sync i w') = wk_phase w"
    if "flow_part w' = flow_part w" "wk_phase w' = wk_phase w" for i w'
    using assms that flow_feed_sync [OF flow_inv_same [OF assms(1) that(1)], of i] by simp
  show ?thesis
  proof (cases ev)
    case (RTrade t)
    obtain r w1 where r: "replayed t w = (r, w1)" by fastforce
    then have w1: "flow_part w1 = flow_part w" "wk_phase w1 = wk_phase w"
      using note_flow(9,10) [of t w] by simp_all
    show ?thesis
    proof (cases r)
      case True
      then show ?thesis using assms w1 by (auto simp: RTrade r intro!: flow_inv_same [OF assms(1)] simp: flow_part_def)
    next
      case False
      then show ?thesis using w1 by (simp add: RTrade r Let_def feed)
    qed
  qed (simp_all add: feed)
qed

lemma flow_inv_update:
  "flow_inv ss0 (w\<lparr>wk_shutdown := b\<rparr>) = flow_inv ss0 w" "flow_inv ss0 (w\<lparr>wk_policy := p\<rparr>) = flow_inv ss0 w"
  "flow_inv ss0 (w\<lparr>wk_metrics := m\<rparr>) = flow_inv ss0 w" "flow_inv ss0 (w\<lparr>wk_feeds := fs\<rparr>) = flow_inv ss0 w"
  "flow_inv ss0 (w\<lparr>wk_triggers := n\<rparr>) = flow_inv ss0 w" "flow_inv ss0 (w\<lparr>wk_fetching := f\<rparr>) = flow_inv ss0 w"
  "flow_inv ss0 (w\<lparr>wk_recovered := r\<rparr>) = flow_inv ss0 w"
  by (simp_all add: flow_inv_def held_def done_inv_def)

lemma flow_event:
  assumes "flow_inv ss0 w" "wk_phase w \<noteq> WorkerDone"
  shows "flow_inv ss0 (conclude (worker_on_event C env ev w))"
proof -
  define w0 where "w0 = w\<lparr>wk_total_events := wk_total_events w + 1, wk_connection_state := Streaming\<rparr>"
  define w1 where "w1 = (first_event C env w0)\<lparr>wk_policy := policy_on_message_received (wk_policy (first_event C env w0))\<rparr>"
  have w0: "flow_part w0 = flow_part w" "wk_phase w0 = wk_phase w" by (simp_all add: w0_def flow_part_def)
  have w1: "flow_part w1 = flow_part w" "wk_phase w1 = wk_phase w"
    using w0 first_event_flow(1) [of C env w0] by (simp_all add: w1_def flow_part_def)
  have f1: "flow_inv ss0 w1" by (rule flow_inv_same [OF assms(1) w1(1)]) (simp add: w1)
  obtain d w2 where r: "route_event C env ev w1 = (d, w2)" by fastforce
  with flow_route [OF f1, of C env ev] assms(2) w1(2) have f2: "flow_inv ss0 w2" "wk_phase w2 \<noteq> WorkerDone" by auto
  have "worker_on_event C env ev w = (if wk_paused w1 then (Ok (), w1)
      else if d \<or> wc_external_clock C then (Ok (), w2) else produce C env w2)"
    by (cases d) (simp_all add: worker_on_event_def Let_def r flip: w0_def w1_def, simp_all add: w1_def)
  with f1 f2 flow_produce [OF f2, of C env] show ?thesis by simp
qed

lemma flow_recovered:
  assumes "flow_inv ss0 w" "wk_phase w \<noteq> WorkerDone"
  shows "flow_inv ss0 (worker_on_recovered rt w)"
proof -
  have "flow_inv ss0 (feed_sync i (w'\<lparr>wk_metrics := m\<rparr>))" if "flow_part w' = flow_part w" "wk_phase w' = wk_phase w" for i m w'
    using flow_inv_same [OF assms(1) that(1)] assms that by (intro flow_feed_sync) (simp_all add: flow_inv_update)
  then show ?thesis using assms(1) by (simp add: worker_on_recovered_def Let_def)
qed

lemma flow_reconnect:
  assumes "flow_inv ss0 w" "wk_phase w \<noteq> WorkerDone"
  shows "flow_inv ss0 (worker_reconnect env adapter_exit outcome w)"
proof -
  have "flow_part (worker_reconnect env adapter_exit outcome w) = flow_part (gap_opens env outcome w)"
    by (auto simp: worker_reconnect_def Let_def flow_part_def give_up_def split: prod.splits result.splits
        reconnect_action.splits panic.splits)
  moreover have "wk_phase (worker_reconnect env adapter_exit outcome w) \<noteq> WorkerDone"
    by (auto simp: worker_reconnect_def Let_def give_up_def split: prod.splits result.splits
        reconnect_action.splits panic.splits)
  ultimately show ?thesis using assms by (intro flow_inv_same [OF assms(1)]) simp_all
qed

lemma drain_and_emit_eq:
  "drain_and_emit w =
     (of_nat (length (mk_buffer (wk_sync w))),
      w\<lparr>wk_sync := (wk_sync w)\<lparr>mk_buffer := []\<rparr>,
        wk_sinks := fold apply_sink_op (map OpEmit (mk_buffer (wk_sync w))) (wk_sinks w),
        wk_sink_ops := wk_sink_ops w @ map OpEmit (mk_buffer (wk_sync w))\<rparr>)"
  by (simp add: drain_and_emit_def mk_drain_def fold_emit_to_sinks)

lemma flow_finish:
  assumes "flow_inv ss0 w" and "wk_phase w \<noteq> WorkerDone"
  shows "flow_inv ss0 (worker_finish C env w)" and "wk_phase (worker_finish C env w) = WorkerDone"
proof -
  define g where "g = gap_at_stop C env w"
  have g: "wk_sync g = wk_sync w" "wk_sinks g = wk_sinks w" "wk_sink_ops g = wk_sink_ops w" "wk_fed g = wk_fed w"
    "wk_snapshots_produced g = wk_snapshots_produced w"
    using gap_flow(2) [of C env w] by (simp_all add: flow_part_def g_def)
  have inv: "market_inv (fed_events (wk_fed w)) (fed_books (wk_fed w)) (held w)" and nf: "\<not> mk_finalized (wk_sync w)"
    using assms by (simp_all add: flow_inv_def market_inv_def held_def)
  show "wk_phase (worker_finish C env w) = WorkerDone"
    by (simp add: worker_finish_def Let_def drain_and_emit_eq flush_sinks_eq)
  have "done_inv (worker_finish C env w)"
    unfolding done_inv_def
    by (rule exI [of _ "held w"])
       (use inv finalize_rows [OF nf] in \<open>simp add: worker_finish_def Let_def drain_and_emit_eq flush_sinks_eq g emitted_by_append
         emitted_by_emits held_def final_rows_held grid_part_def flip: g_def\<close>)
  then show "flow_inv ss0 (worker_finish C env w)" using assms
    by (simp add: worker_finish_def Let_def drain_and_emit_eq flush_sinks_eq g flow_inv_def emitted_by_append
        emitted_by_emits sinks_track_op sinks_track_ops flip: append_assoc g_def)
qed

lemma flow_step:
  assumes "worker_step C w w'" "flow_inv ss0 w"
  shows "flow_inv ss0 w'"
  using assms(1)
proof cases
  case connects
  with assms(2) show ?thesis by (intro flow_inv_same [OF assms(2)]) (auto simp: worker_connect_def flow_part_def)
next
  case (ticks env)
  with assms(2) show ?thesis
    by (auto simp: worker_on_tick_def intro!: flow_produce flow_feed_sync)
next
  case (event_arrives env ev)
  with assms(2) show ?thesis by (simp add: flow_event)
next
  case (print_recovered rt rts)
  with assms(2) show ?thesis by (simp add: flow_recovered flow_inv_update)
next
  case (commanded cmd)
  with assms(2) show ?thesis by (intro flow_inv_same [OF assms(2)]) (cases cmd; auto simp: flow_part_def)+
next
  case (tasks_end env adapter_exit outcome)
  with assms(2) show ?thesis
    by (auto simp: worker_on_runtime_end_def flow_reconnect intro!: flow_inv_same [OF assms(2)] simp: flow_part_def)
next
  case (finishes env)
  with flow_finish(1) [OF assms(2)] show ?thesis by simp
next
  case fetch_triggered
  with assms(2) show ?thesis by (simp add: reconcile_begins_def flow_inv_update split: option.splits)
next
  case fetch_swept
  with assms(2) show ?thesis by (simp add: reconcile_begins_def flow_inv_update split: option.splits)
next
  case (fetch_done fetch_after)
  with assms(2) show ?thesis by (simp add: reconcile_ends_def flow_inv_update split: option.splits result.splits)
qed (use assms(2) in \<open>auto simp: flow_inv_update intro!: flow_inv_same [OF assms(2)] simp: flow_part_def\<close>)

interpretation flow: step_invariant "worker_step C" "flow_inv ss0" for C ss0
  by unfold_locales (rule flow_step)

lemma flow_start:
  assumes "with_clock_mode P mode = Some s0"
  shows "flow_inv sinks (worker_start (set_emission_delay_us delay s0) sinks policy feeds replays)"
proof -
  have "sinks_track sinks [] sinks" by (simp add: sinks_track_def)
  then show ?thesis using market_new_inv [OF assms, of delay]
    by (simp add: flow_inv_def worker_start_def held_def fed_events_def fed_books_def List.map_filter_def)
qed

lemma flow_run:
  assumes "with_clock_mode P mode = Some s0"
    and "(worker_step C)\<^sup>*\<^sup>* (worker_start (set_emission_delay_us delay s0) sinks policy feeds replays) w"
  shows "flow_inv sinks w"
  by (rule flow.reach_keeps [OF assms(2)]) (rule flow_start [OF assms(1)])

text \<open>What a buffered sink that keeps trades has written or holds is what was emitted.\<close>

lemma sink_holds_trades:
  assumes "flow_inv sinks w" "i < length sinks" "sinks ! i = Buffered (buffered_new dir cb declared)"
    and "DtTrades \<in> set declared" "length (emitted_by (wk_sink_ops w)) \<le> 200000"
    and "fold do_sink_op (wk_sink_ops w) ([], buffered_new dir cb declared) = (written, b)"
  shows "wk_sinks w ! i = Buffered b"
    and "map ms_trades (written @ bs_buffer b) = map ms_trades (emitted_by (wk_sink_ops w))"
proof -
  show "wk_sinks w ! i = Buffered b" using assms by (auto simp: flow_inv_def sinks_track_def)
  have "written @ bs_buffer b = map (fst \<circ> strip_undeclared declared) (emitted_by (wk_sink_ops w))"
    using sink_run_inv [of declared "wk_sink_ops w" dir cb] assms(5,6) by (simp add: sink_inv_def MAX_BUFFERED_SNAPSHOTS_def)
  then show "map ms_trades (written @ bs_buffer b) = map ms_trades (emitted_by (wk_sink_ops w))"
    using assms(4) by (simp add: strip_undeclared_fields del: map_append)
qed

lemma ledger_trades:
  assumes "ledger fed s"
  obtains late others where "accounted (pe_trades fed) (concat (map ms_trades (mk_buffer s))) (mk_trades s) late"
    and "mk_late_events_dropped s = of_nat (size late + others)"
  using assms unfolding ledger_def by (elim exE conjE) (simp only: add.assoc)



section \<open>The gap ledger\<close>

definition gap_part :: "('x, 'd) worker \<Rightarrow>
    worker_phase \<times> bool \<times> (instant \<times> u64 \<times> gap_cause) option \<times> gap_incident list \<times> feed_set \<times> u64 \<times> u64" where
  "gap_part w = (wk_phase w, wk_live w, wk_gap_open w, wk_ledger w, wk_feeds w,
     mt_book_gap_incidents (wk_metrics w), mt_flush_failures (wk_metrics w))"

definition gap_inv :: "worker_config \<Rightarrow> ('x, 'd) worker \<Rightarrow> bool" where
  "gap_inv C w \<longleftrightarrow>
     (wk_live w \<and> wk_phase w \<in> {InConnection, Leaving} \<longrightarrow> wk_gap_open w = None)
   \<and> (wk_phase w = Between \<longrightarrow> wk_gap_open w \<noteq> None \<or> wk_connection_state w = Connecting)
   \<and> (wk_phase w = WorkerDone \<longrightarrow> wk_gap_open w = None \<and> (\<forall>f \<in> set (wk_feeds w). is_terminal (fd_state f)))
   \<and> (if wc_has_ledger C
      then mt_book_gap_incidents (wk_metrics w) = of_nat (length (wk_ledger w)) + mt_flush_failures (wk_metrics w)
      else wk_ledger w = [])
   \<and> (\<forall>g \<in> set (wk_ledger w). gi_exchange g = wc_exchange C \<and> gi_symbol g = wc_symbol C)"

lemma gap_inv_same: "gap_inv C w \<Longrightarrow> gap_part w' = gap_part w \<Longrightarrow> wk_phase w \<noteq> Between \<Longrightarrow> gap_inv C w'"
  by (simp add: gap_inv_def gap_part_def)

lemmas counter_defs =
  record_book_gap_incident_def record_trade_suspicion_def bump_flush_failures_def bump_out_of_order_frames_def
  bump_replay_duplicates_def bump_reconnects_def add_trades_recovered_def mark_source_exhausted_def
  bump_reconcile_fetches_def bump_reconcile_failures_def

lemma gap_recovered_inv:
  assumes "gap_inv C w" "wk_phase w = InConnection"
  shows "gap_inv C (gap_recovered C env (w\<lparr>wk_live := b, wk_policy := p\<rparr>))"
    and "wk_gap_open (gap_recovered C env w) = None"
  using assms
  by (auto simp: gap_inv_def gap_defs counter_defs split: option.splits if_splits)

lemma first_event_inv:
  assumes "gap_inv C w" "wk_phase w = InConnection"
  shows "gap_inv C (first_event C env w)"
  using assms by (simp add: first_event_def gap_recovered_inv)

lemma gap_part_produce [simp]: "gap_part (conclude (produce C env w)) = gap_part w"
proof -
  obtain ops n k where "produce C env w = (Ok (), w\<lparr>wk_sync := (wk_sync w)\<lparr>mk_buffer := []\<rparr>,
      wk_sinks := fold apply_sink_op ops (wk_sinks w), wk_sink_ops := wk_sink_ops w @ ops,
      wk_snapshots_produced := wk_snapshots_produced w + of_nat (length (mk_buffer (wk_sync w))),
      wk_since_flush := n, wk_flushes := k\<rparr>)"
    using produce_eq [of w C env] by blast
  then show ?thesis by (simp add: gap_part_def)
qed

lemma produce_phase [simp]: "wk_phase (conclude (produce C env w)) = wk_phase w"
  using gap_part_produce [of C env w] by (simp add: gap_part_def)

lemma gap_part_feed_sync [simp]: "gap_part (feed_sync i w) = gap_part w"
  by (simp add: gap_part_def feed_sync_def)

lemma gap_part_route: "gap_part (snd (route_event C env ev w)) = gap_part w"
  by (cases ev)
    (auto simp: note_book_ts_def note_trade_ts_def note_anchor_def replayed_def gap_part_def feed_sync_def counter_defs
      Let_def split: prod.splits option.splits bool.splits)

lemma gap_part_event:
  "gap_part (conclude (worker_on_event C env ev w))
     = gap_part (first_event C env (w\<lparr>wk_total_events := wk_total_events w + 1, wk_connection_state := Streaming\<rparr>))"
proof -
  define w1 where "w1 = first_event C env (w\<lparr>wk_total_events := wk_total_events w + 1, wk_connection_state := Streaming\<rparr>)"
  have p: "gap_part (w1\<lparr>wk_policy := p\<rparr>) = gap_part w1" for p by (simp add: gap_part_def)
  obtain d w2 where r: "route_event C env ev (w1\<lparr>wk_policy := policy_on_message_received (wk_policy w1)\<rparr>) = (d, w2)" by fastforce
  then have "gap_part w2 = gap_part w1"
    using gap_part_route [of C env ev "w1\<lparr>wk_policy := policy_on_message_received (wk_policy w1)\<rparr>"] p by simp
  then show ?thesis unfolding worker_on_event_def Let_def w1_def [symmetric] by (auto simp: r p split: bool.splits)
qed

lemma gap_part_recovered: "gap_part (worker_on_recovered rt w) = gap_part w"
  by (auto simp: worker_on_recovered_def note_recovered_anchor_def Let_def counter_defs) (auto simp: gap_part_def counter_defs)

lemma gap_reconnect_inv:
  assumes "gap_inv C w" "wk_phase w = Leaving"
  shows "gap_inv C (worker_reconnect env adapter_exit outcome w)"
  using assms
  by (auto simp: worker_reconnect_def gap_defs give_up_def gap_inv_def counter_defs
      split: prod.splits result.splits reconnect_action.splits panic.splits)

lemma closed_feeds_terminal: "f \<in> set (mark_all_closed p fs) \<Longrightarrow> is_terminal (fd_state f)"
  by (auto simp: mark_all_closed_def each_live_def feed_setter_defs split: if_splits)

lemma gap_finish_inv:
  assumes "gap_inv C w" "wk_phase w = Exited"
  shows "gap_inv C (worker_finish C env w)"
proof -
  define g where "g = gap_at_stop C env w"
  have g: "gap_inv C g" "wk_gap_open g = None"
    using assms by (auto simp: g_def gap_inv_def gap_defs counter_defs split: option.splits if_splits)
  then show ?thesis
    by (auto simp: worker_finish_def Let_def drain_and_emit_eq flush_sinks_eq gap_inv_def closed_feeds_terminal simp flip: g_def)
qed

lemma gap_step:
  assumes "worker_step C w w'" "gap_inv C w"
  shows "gap_inv C w'"
  using assms(1)
proof cases
  case connects
  with assms(2) show ?thesis by (auto simp: worker_connect_def gap_inv_def)
next
  case (ticks env)
  with assms(2) show ?thesis by (auto simp: worker_on_tick_def intro: gap_inv_same)
next
  case (event_arrives env ev)
  with assms(2) have "gap_inv C (first_event C env (w\<lparr>wk_total_events := wk_total_events w + 1, wk_connection_state := Streaming\<rparr>))"
    by (intro first_event_inv) (simp_all add: gap_inv_def)
  with event_arrives show ?thesis by (auto intro: gap_inv_same simp: gap_part_event)
next
  case (print_recovered rt rts)
  with assms(2) show ?thesis by (auto intro!: gap_inv_same [OF assms(2)] simp: gap_part_recovered) (simp add: gap_part_def)
next
  case (commanded cmd)
  with assms(2) show ?thesis by (cases cmd) (auto simp: gap_inv_def)
next
  case (tasks_end env adapter_exit outcome)
  with assms(2) show ?thesis
    by (auto simp: worker_on_runtime_end_def gap_reconnect_inv) (auto simp: gap_inv_def counter_defs)
next
  case (finishes env)
  with assms(2) show ?thesis by (simp add: gap_finish_inv)
next
  case fetch_triggered
  with assms(2) show ?thesis by (auto simp: reconcile_begins_def gap_inv_def counter_defs split: option.splits)
next
  case fetch_swept
  with assms(2) show ?thesis by (auto simp: reconcile_begins_def gap_inv_def counter_defs split: option.splits)
next
  case (fetch_done fetch_after)
  with assms(2) show ?thesis by (auto simp: reconcile_ends_def gap_inv_def counter_defs split: option.splits result.splits)
next
  case (runtime_acts fs m)
  with assms(2) show ?thesis by (auto simp: gap_inv_def own_counters_def)
qed (use assms(2) in \<open>auto simp: gap_inv_def\<close>)

interpretation gaps: step_invariant "worker_step C" "gap_inv C" for C
  by unfold_locales (rule gap_step)

lemma gap_start: "gap_inv C (worker_start sync sinks policy feeds replays)"
  by (simp add: gap_inv_def worker_start_def metrics_default_def)

text \<open>An event that arrives while the worker is paused is discarded, yet the state shown is \<open>Streaming\<close>.\<close>

lemma gap_recovered_state [simp]: "wk_connection_state (gap_recovered C env w) = wk_connection_state w"
  by (auto simp: gap_defs split: option.splits)

lemma paused_event_shows_streaming:
  "wk_paused w \<Longrightarrow> wk_connection_state (conclude (worker_on_event C env ev w)) = Streaming
     \<and> wk_fed (conclude (worker_on_event C env ev w)) = wk_fed w"
  using first_event_flow(1) [of C env "w\<lparr>wk_total_events := wk_total_events w + 1, wk_connection_state := Streaming\<rparr>"]
  by (simp add: worker_on_event_def Let_def flow_part_def) (simp add: first_event_def)


section \<open>Where reconciliation starts\<close>

lemma binance_rows_later:
  assumes "\<forall>x \<in> set (snd acc). \<exists>m > tpos_id pos. tr_id x = u64_to_string m"
  shows "\<forall>x \<in> set (snd (binance_rows D pair pos rows acc)). \<exists>m > tpos_id pos. tr_id x = u64_to_string m"
  using assms
proof (induction D pair pos rows acc rule: binance_rows.induct)
  case (2 D pair pos r rows start out)
  have "tr_id (binance_trade D pair r) = u64_to_string (bn_id r)" by (simp add: binance_trade_def)
  with 2 show ?case by (auto simp: linorder_not_le)
qed simp

lemma binance_pages_later:
  assumes "\<forall>x \<in> set (snd acc). \<exists>m > tpos_id pos. tr_id x = u64_to_string m"
    and "binance_pages D rest pair pos k acc = Ok ts"
  shows "\<forall>x \<in> set ts. \<exists>m > tpos_id pos. tr_id x = u64_to_string m"
  using assms
proof (induction k arbitrary: acc)
  case (Suc k)
  from Suc.prems(2) obtain rows where rows: "rest (fst acc) = Ok rows" by (auto split: result.splits)
  note later = binance_rows_later [OF Suc.prems(1), of D pair rows]
  show ?case
  proof (cases "length rows < 1000")
    case True
    with Suc.prems(2) rows later show ?thesis by (simp add: Let_def)
  next
    case False
    with Suc.prems(2) rows Suc.IH [OF later] show ?thesis by (simp add: Let_def)
  qed
qed simp

lemma gap_recovered_triggers:
  "wk_gap_open w \<noteq> None \<Longrightarrow> wc_reconcile_active C \<Longrightarrow> wk_triggers w = 0 \<Longrightarrow> wk_triggers (gap_recovered C env w) = 1"
  "wk_last_pos (gap_recovered C env w) = wk_last_pos w" "wk_seen (gap_recovered C env w) = wk_seen w"
  "wk_fetching (gap_recovered C env w) = wk_fetching w"
  by (auto simp: gap_defs split: option.splits)

definition anchor_part :: "('x, 'd) worker \<Rightarrow> nat \<times> trade_pos option \<times> (trading_pair, trade_pos) hash_map" where
  "anchor_part w = (wk_triggers w, wk_fetching w, wk_last_pos w)"

lemma anchor_part_produce [simp]: "anchor_part (conclude (produce C env w)) = anchor_part w"
proof -
  obtain ops n k where "produce C env w = (Ok (), w\<lparr>wk_sync := (wk_sync w)\<lparr>mk_buffer := []\<rparr>,
      wk_sinks := fold apply_sink_op ops (wk_sinks w), wk_sink_ops := wk_sink_ops w @ ops,
      wk_snapshots_produced := wk_snapshots_produced w + of_nat (length (mk_buffer (wk_sync w))),
      wk_since_flush := n, wk_flushes := k\<rparr>)"
    using produce_eq [of w C env] by blast
  then show ?thesis by (simp add: anchor_part_def)
qed


section \<open>Concrete runs\<close>

definition sample_config :: "bool \<Rightarrow> worker_config" where
  "sample_config reconcile =
     \<lparr>wc_flush_threshold = 0, wc_exchange = ''binance'', wc_symbol = ''BTCUSDT'', wc_pair = sample_pair,
      wc_external_clock = True, wc_reconcile_active = reconcile, wc_has_ledger = True\<rparr>"

definition sample_env :: "xdec worker_env" where
  "sample_env =
     \<lparr>we_now = 9, we_epoch_us = 5, we_flusher = (\<lambda>_ _. Ok \<lparr>fp_bytes_written = 10, fp_files_written = 1\<rparr>),
      we_io_error = None, we_rnd = (\<lambda>x. x), we_rng = (\<lambda>x. 0), we_show_dur = (\<lambda>_. [])\<rparr>"

definition sample_print :: "xdec trade" where
  "sample_print = sample_trade ''1'' (100, 0) (1, 0)"

definition sample_sinks :: "(unit, xdec) sink_set" where
  "sample_sinks = [Buffered (buffered_new ''out'' None [DtTrades])]"

definition sample_worker :: "xdec market_synchronizer \<Rightarrow> (unit, xdec) worker" where
  "sample_worker sync = worker_start (set_emission_delay_us 0 sync) sample_sinks sample_policy [] False"

text \<open>One connection that ticks and delivers a print.\<close>

definition sample_running :: "xdec market_synchronizer \<Rightarrow> (unit, xdec) worker" where
  "sample_running sync =
     conclude (worker_on_event (sample_config False) sample_env (RTrade sample_print)
       (conclude (worker_on_tick (sample_config False) sample_env (worker_connect (sample_worker sync)))))"

definition sample_stopped :: "xdec market_synchronizer \<Rightarrow> (unit, xdec) worker" where
  "sample_stopped sync =
     worker_finish (sample_config False) sample_env
       (worker_on_runtime_end sample_env TaskCompleted Finished
         ((sample_running sync)\<lparr>wk_shutdown := True, wk_stopped := True, wk_phase := Leaving\<rparr>))"

definition sample_reconnected :: "xdec market_synchronizer \<Rightarrow> (unit, xdec) worker" where
  "sample_reconnected sync =
     conclude (worker_on_event (sample_config False) sample_env (RTrade sample_print)
       (worker_connect (worker_on_runtime_end sample_env TaskCompleted ResyncRequired
         ((sample_running sync)\<lparr>wk_phase := Leaving\<rparr>))))"

lemma sample_running_eq:
  assumes "with_clock_mode 10 ExternalClock = Some sync"
  shows "sample_running sync =
    (sample_worker sync)\<lparr>wk_phase := InConnection, wk_live := True, wk_connection_state := Streaming, wk_total_events := 1,
      wk_policy := policy_on_message_received (policy_on_connected sample_policy), wk_recent_trades := [9],
      wk_last_trade_ts_us := 7, wk_fed := [MTime 5, MTrade sample_print],
      wk_sync := sync\<lparr>mk_clock_period := Some 0, mk_trades := [sample_print]\<rparr>\<rparr>"
proof -
  have s: "mk_buffer sync = []" "\<not> mk_finalized sync" "mk_clock_mode sync = ExternalClock" "mk_clock_period sync = None"
    "mk_trades sync = []" "mk_period_us sync = 10" "mk_emission_delay_us sync = 0"
    using assms by (auto simp: with_clock_mode_def)
  let ?C = "sample_config False"
  define w1 where "w1 = (sample_worker sync)\<lparr>wk_phase := InConnection\<rparr>"
  have 1: "worker_connect (sample_worker sync) = w1"
    by (simp add: worker_connect_def sample_worker_def worker_start_def w1_def mark_all_subscribing_def each_live_def)
  define w2 where "w2 = w1\<lparr>wk_fed := [MTime 5], wk_sync := sync\<lparr>mk_clock_period := Some 0\<rparr>\<rparr>"
  have 2: "conclude (worker_on_tick ?C sample_env w1) = w2"
    by (simp add: worker_on_tick_def w1_def w2_def sample_worker_def worker_start_def feed_sync_def produce_def
        drain_and_emit_def mk_drain_def maybe_flush_def sample_config_def sample_env_def mk_on_time_def s
        set_emission_delay_us_def advance_grid_def ripe_period_def Let_def saturating_sub_def)
  have live: "\<not> wk_live w2" "wk_gap_open w2 = None" "\<not> wk_paused w2" "wk_seen w2 = None" "wk_last_trade_ts_us w2 = 0"
    "wk_recent_trades w2 = []" "wk_total_events w2 = 0" "wk_fed w2 = [MTime 5]" "wk_policy w2 = sample_policy"
    "wk_sync w2 = sync\<lparr>mk_clock_period := Some 0\<rparr>"
    by (simp_all add: w2_def w1_def sample_worker_def worker_start_def)
  have "conclude (worker_on_event ?C sample_env (RTrade sample_print) w2) =
    w2\<lparr>wk_live := True, wk_connection_state := Streaming, wk_total_events := 1,
      wk_policy := policy_on_message_received (policy_on_connected sample_policy), wk_recent_trades := [9],
      wk_last_trade_ts_us := 7, wk_fed := [MTime 5, MTrade sample_print],
      wk_sync := sync\<lparr>mk_clock_period := Some 0, mk_trades := [sample_print]\<rparr>\<rparr>"
    using live s
    by (simp add: worker_on_event_def Let_def first_event_def gap_recovered_def replayed_def note_trade_ts_def
        wire_ts_regressed_def note_anchor_def feed_sync_def mk_on_trade_def sample_config_def sample_env_def
        older_than_60s_def sample_print_def sample_trade_def split: option.splits)
  then show ?thesis unfolding sample_running_def 1 2 by (simp add: w2_def w1_def)
qed

lemma sample_running_reached:
  "(worker_step (sample_config False))\<^sup>*\<^sup>* (sample_worker sync) (sample_running sync)"
proof -
  let ?C = "sample_config False" and ?w1 = "worker_connect (sample_worker sync)"
  let ?w2 = "conclude (worker_on_tick ?C sample_env ?w1)"
  have "worker_step ?C (sample_worker sync) ?w1"
    by (rule worker_step.connects) (simp add: sample_worker_def worker_start_def)
  moreover have p1: "wk_phase ?w1 = InConnection" by (simp add: worker_connect_def sample_worker_def worker_start_def)
  then have "worker_step ?C ?w1 ?w2" by (rule worker_step.ticks) (simp add: sample_config_def)
  moreover have "wk_phase ?w2 = InConnection"
    using p1 by (simp add: worker_on_tick_def)
  then have "worker_step ?C ?w2 (sample_running sync)" unfolding sample_running_def by (rule worker_step.event_arrives)
  ultimately show ?thesis by (meson rtranclp.rtrancl_into_rtrancl rtranclp.rtrancl_refl)
qed

lemma sample_running_facts:
  assumes "with_clock_mode 10 ExternalClock = Some sync"
  shows "wk_phase (sample_running sync) = InConnection" "\<not> wk_shutdown (sample_running sync)"
    "\<not> wk_stopped (sample_running sync)" "wk_fed (sample_running sync) = [MTime 5, MTrade sample_print]"
    "wk_sink_ops (sample_running sync) = []" "wk_gap_open (sample_running sync) = None" "wk_ledger (sample_running sync) = []"
    "mk_clock_period (wk_sync (sample_running sync)) = Some 0" "mk_clock_mode (wk_sync (sample_running sync)) = ExternalClock"
    "\<not> mk_finalized (wk_sync (sample_running sync))" "mk_buffer (wk_sync (sample_running sync)) = []"
    "wk_policy (sample_running sync) = policy_on_message_received (policy_on_connected sample_policy)"
  using assms by (auto simp: sample_running_eq [OF assms] sample_worker_def worker_start_def with_clock_mode_def)


lemma sample_stopped_reached:
  assumes "with_clock_mode 10 ExternalClock = Some sync"
  shows "(worker_step (sample_config False))\<^sup>*\<^sup>* (sample_worker sync) (sample_stopped sync)"
proof -
  let ?C = "sample_config False" and ?r = "sample_running sync"
  let ?w1 = "?r\<lparr>wk_shutdown := True\<rparr>" and ?w2 = "?r\<lparr>wk_shutdown := True, wk_stopped := True, wk_phase := Leaving\<rparr>"
  let ?w3 = "worker_on_runtime_end sample_env TaskCompleted Finished ?w2"
  have "worker_step ?C ?r ?w1" by (rule worker_step.shutdown_set)
  moreover have "worker_step ?C ?w1 ?w2"
    using worker_step.shutdown_seen [of ?w1 ?C] sample_running_facts(1) [OF assms] by simp
  moreover have "worker_step ?C ?w2 ?w3" by (rule worker_step.tasks_end) simp
  moreover have "worker_step ?C ?w3 (sample_stopped sync)"
    unfolding sample_stopped_def by (rule worker_step.finishes) (simp add: worker_on_runtime_end_def)
  ultimately show ?thesis
    using sample_running_reached [of sync] by (meson rtranclp.rtrancl_into_rtrancl)
qed

lemma sample_stopped_facts:
  assumes "with_clock_mode 10 ExternalClock = Some sync"
  shows "wk_phase (sample_stopped sync) = WorkerDone" "wk_fed (sample_stopped sync) = [MTime 5, MTrade sample_print]"
    "length (emitted_by (wk_sink_ops (sample_stopped sync))) = 1"
    "grid_part (wk_sync (sample_stopped sync)) = grid_part (wk_sync (sample_running sync))"
proof -
  note f = sample_running_facts [OF assms]
  note fin = finalize_rows [OF f(10)]
  have rows: "length (final_rows (wk_sync (sample_running sync))) = 1" by (simp add: final_rows_def f)
  show "wk_phase (sample_stopped sync) = WorkerDone" "wk_fed (sample_stopped sync) = [MTime 5, MTrade sample_print]"
    "length (emitted_by (wk_sink_ops (sample_stopped sync))) = 1"
    "grid_part (wk_sync (sample_stopped sync)) = grid_part (wk_sync (sample_running sync))"
    using f fin rows
    by (simp_all add: sample_stopped_def worker_on_runtime_end_def worker_finish_def Let_def drain_and_emit_eq flush_sinks_eq
        gap_at_stop_def emitted_by_append emitted_by_emits grid_part_def)
qed


lemma sample_reconnected_reached:
  assumes "with_clock_mode 10 ExternalClock = Some sync"
  shows "(worker_step (sample_config False))\<^sup>*\<^sup>* (sample_worker sync) (sample_reconnected sync)"
    and "length (wk_ledger (sample_reconnected sync)) = 1"
proof -
  note f = sample_running_facts [OF assms]
  let ?C = "sample_config False" and ?r = "sample_running sync"
  let ?w1 = "?r\<lparr>wk_phase := Leaving\<rparr>"
  let ?w2 = "worker_on_runtime_end sample_env TaskCompleted ResyncRequired ?w1"
  have na: "next_action (\<lambda>x. 0) (\<lambda>_. []) 9 CleanClose (wk_policy ?r) = (Ok RetryImmediately, wk_policy ?r)"
    by (simp add: f next_action_def policy_on_message_received_def policy_on_connected_def)
  have w2: "wk_phase ?w2 = Between" "\<not> wk_stopped ?w2" "\<not> wk_shutdown ?w2" "wk_ledger ?w2 = []"
      "wk_gap_open ?w2 = Some (9, 5, CauseResync)"
    using na by (simp_all add: worker_on_runtime_end_def f worker_reconnect_def Let_def gap_opens_def sample_env_def)
  have w3: "wk_phase (worker_connect ?w2) = InConnection" "\<not> wk_live (worker_connect ?w2)"
      "wk_ledger (worker_connect ?w2) = []" "wk_gap_open (worker_connect ?w2) = Some (9, 5, CauseResync)"
    using w2 by (simp_all add: worker_connect_def)
  have "worker_step ?C ?r ?w1" by (rule worker_step.output_closed) (rule f(1))
  moreover have "worker_step ?C ?w1 ?w2" by (rule worker_step.tasks_end) simp
  moreover have "worker_step ?C ?w2 (worker_connect ?w2)" by (rule worker_step.connects) (rule w2(1))
  moreover have "worker_step ?C (worker_connect ?w2) (sample_reconnected sync)"
    unfolding sample_reconnected_def by (rule worker_step.event_arrives) (rule w3(1))
  ultimately show "(worker_step ?C)\<^sup>*\<^sup>* (sample_worker sync) (sample_reconnected sync)"
    using sample_running_reached [of sync] by (meson rtranclp.rtrancl_into_rtrancl)
  have "gap_part (sample_reconnected sync) = gap_part (first_event ?C sample_env ((worker_connect ?w2)
      \<lparr>wk_total_events := wk_total_events (worker_connect ?w2) + 1, wk_connection_state := Streaming\<rparr>))"
    unfolding sample_reconnected_def by (rule gap_part_event)
  then show "length (wk_ledger (sample_reconnected sync)) = 1"
    using w3 by (simp add: gap_part_def first_event_def gap_defs sample_config_def sample_env_def)
qed



end
