(* ===== verification/Entrepot.thy ===== *)
theory Entrepot
  imports Transport Gaps Reconcile "HOL-Library.Char_ord" "HOL-Library.List_Lexorder" "HOL-Library.Product_Lexorder"
begin

text \<open>
  The object-store crate (\<open>aetelier-entrepot/src\<close>) apart from the S3 client: its errors, the codec of
  stored objects, the local directory source, atomic downloads, the retry policy, the request pacing
  and the request signature.

  The LZ4 frame decoder (crate \<open>lz4_flex\<close>), the digests (crates \<open>sha2\<close>, \<open>hmac\<close>, \<open>md5\<close>) and the
  random draws are arguments.  A string is its sequence of bytes.  Backoff arithmetic on \<open>f64\<close> is
  exact (\<open>rat\<close>) up to the overflow to infinity, and a multiplier is not negative: the product of a
  negative one would be refused by \<open>Duration::from_secs_f64\<close> with a panic.
\<close>

section \<open>Errors and objects\<close>

datatype entrepot_error =
    ErrTransport string
  | ErrStatus u16 string string
  | ErrListParse string
  | ErrIo string bool
  | ErrDecode string string
  | ErrIntegrity string string
  | ErrExhausted u32 string string
  | ErrCredentials string

text \<open>The flag of an I/O error says that its kind is \<open>NotFound\<close>.\<close>

record object_meta =
  om_key :: string
  om_size :: u64
  om_etag :: "string option"
  om_last_modified :: "string option"

section \<open>Stored objects\<close>

definition MAX_DECODED_OBJECT_BYTES :: nat where
  "MAX_DECODED_OBJECT_BYTES = 256 * 2 ^ 20"

text \<open>
  \<open>frame bytes\<close> is what the frame decoder produces: the bytes it yields and the error it then stops
  with, if any.  \<open>take(n)\<close> cuts the stream after \<open>n\<close> bytes, so an error behind them is not seen.
\<close>

type_synonym lz4_frame = "byte list \<Rightarrow> byte list \<times> string option"

definition read_capped :: "lz4_frame \<Rightarrow> nat \<Rightarrow> byte list \<Rightarrow> (byte list, string) result" where
  "read_capped frame n bytes =
     (case frame bytes of
        (out, err) \<Rightarrow>
          if n \<le> length out then Ok (take n out)
          else case err of Some e \<Rightarrow> Err e | None \<Rightarrow> Ok out)"

definition decode_lz4_capped ::
  "lz4_frame \<Rightarrow> string \<Rightarrow> byte list \<Rightarrow> nat \<Rightarrow> (byte list, entrepot_error) result"
where
  "decode_lz4_capped frame key bytes cap =
     (case read_capped frame (cap + 1) bytes of
        Err e \<Rightarrow> Err (ErrDecode key e)
      | Ok out \<Rightarrow>
          if length out > cap then Err (ErrDecode key (''object inflates past '' @ nat_digits cap @ '' bytes''))
          else Ok out)"

definition decode_lz4 :: "lz4_frame \<Rightarrow> string \<Rightarrow> byte list \<Rightarrow> (byte list, entrepot_error) result" where
  "decode_lz4 frame key bytes = decode_lz4_capped frame key bytes MAX_DECODED_OBJECT_BYTES"

text \<open>\<open>str::lines\<close>: pieces ended by a newline, each without one trailing carriage return; no last empty piece.\<close>

definition strip_cr :: "string \<Rightarrow> string" where
  "strip_cr s = unwrap_or (strip_suffix s [CHR 0x0D]) s"

fun newline_pieces :: "string list \<Rightarrow> string list" where
  "newline_pieces [] = []"
| "newline_pieces [w] = (if w = [] then [] else [w])"
| "newline_pieces (w # ws) = strip_cr w # newline_pieces ws"

definition str_lines :: "string \<Rightarrow> string list" where
  "str_lines s = newline_pieces (split_on CHR 0x0A s)"

definition utf8_lines :: "string \<Rightarrow> byte list \<Rightarrow> (string list, entrepot_error) result" where
  "utf8_lines key decoded =
     (case from_utf8 decoded of
        Err e \<Rightarrow> Err (ErrDecode key (''not utf-8: '' @ e))
      | Ok txt \<Rightarrow> Ok (str_lines txt))"

section \<open>The local directory source\<close>

text \<open>
  A directory tree as \<open>read_dir\<close> shows it: entries in its order; \<open>FsDenied\<close> is a directory that
  cannot be read, \<open>FsBroken\<close> a file whose metadata cannot, \<open>FsOther\<close> neither file nor directory.
\<close>

datatype fs_node = FsFile "byte list" | FsDir "(string \<times> fs_node) list" | FsDenied | FsBroken | FsOther

definition guard_key :: "string \<Rightarrow> (unit, entrepot_error) result" where
  "guard_key key = (if list_ex (\<lambda>seg. seg = ''..'') (split_on CHR ''/'' key) then Err (ErrIo key False) else Ok ())"

text \<open>\<open>base\<close> is the root directory, \<open>rel\<close> the path below it, \<open>out\<close> the accumulated list.\<close>

definition display_under :: "string \<Rightarrow> string list \<Rightarrow> string" where
  "display_under base rel = (if rel = [] then base else path_join base (join ''/'' rel))"

fun walk_dir :: "string \<Rightarrow> string list \<Rightarrow> fs_node \<Rightarrow> object_meta list \<Rightarrow> (object_meta list, entrepot_error) result"
  and walk_entries ::
    "string \<Rightarrow> string list \<Rightarrow> (string \<times> fs_node) list \<Rightarrow> object_meta list \<Rightarrow> (object_meta list, entrepot_error) result"
where
  "walk_dir base rel (FsDir entries) out = walk_entries base rel entries out"
| "walk_dir base rel FsDenied out = Err (ErrIo (display_under base rel) False)"
| "walk_dir base rel (FsFile bytes) out =
     Ok (out @ [\<lparr>om_key = join ''/'' rel, om_size = of_nat (length bytes), om_etag = None, om_last_modified = None\<rparr>])"
| "walk_dir base rel FsBroken out = Err (ErrIo (display_under base rel) False)"
| "walk_dir base rel FsOther out = Ok out"
| "walk_entries base rel [] out = Ok out"
| "walk_entries base rel ((name, node) # entries) out =
     (case walk_dir base (rel @ [name]) node out of
        Err e \<Rightarrow> Err e
      | Ok out \<Rightarrow> walk_entries base rel entries out)"

definition local_list :: "string \<Rightarrow> fs_node \<Rightarrow> string \<Rightarrow> (object_meta list, entrepot_error) result" where
  "local_list base tree pre =
     (case walk_dir base [] tree [] of
        Err e \<Rightarrow> Err e
      | Ok out \<Rightarrow> Ok (sort_key om_key (filter (\<lambda>m. prefix pre (om_key m)) out)))"

text \<open>\<open>read\<close> reads a file by its path; its error says whether the file does not exist.\<close>

definition local_get :: "(string \<Rightarrow> (byte list, bool) result) \<Rightarrow> string \<Rightarrow> string \<Rightarrow> (byte list, entrepot_error) result" where
  "local_get read base key =
     (case guard_key key of
        Err e \<Rightarrow> Err e
      | Ok _ \<Rightarrow>
          (let path = path_join base key in
           case read path of Ok bytes \<Rightarrow> Ok bytes | Err not_found \<Rightarrow> Err (ErrIo path not_found)))"

section \<open>Downloads\<close>

text \<open>
  Files as a map from paths to contents; \<open>io_ok\<close> says which of the three file operations of a
  download succeed.  A write that fails may leave any content behind (\<open>torn\<close>).
\<close>

record download_io =
  mkdir_ok :: bool
  write_ok :: bool
  rename_ok :: bool
  torn :: "byte list option"

text \<open>A destination: its directory and its file name (\<open>None\<close>: the path ends in \<open>..\<close>).\<close>

record destination =
  ds_dir :: string
  ds_name :: "string option"

definition dest_path :: "destination \<Rightarrow> string" where
  "dest_path dest = (case ds_name dest of Some name \<Rightarrow> path_join (ds_dir dest) name | None \<Rightarrow> ds_dir dest)"

definition part_path :: "destination \<Rightarrow> string" where
  "part_path dest = path_join (ds_dir dest) (unwrap_or (ds_name dest) ''download'' @ ''.part'')"

definition already_complete :: "(string \<rightharpoonup> byte list) \<Rightarrow> destination \<Rightarrow> u64 \<Rightarrow> bool" where
  "already_complete files dest expected_size =
     (case files (dest_path dest) of Some bytes \<Rightarrow> of_nat (length bytes) = expected_size | None \<Rightarrow> False)"

definition fetch_to_file ::
  "(string \<Rightarrow> (byte list, entrepot_error) result) \<Rightarrow> download_io \<Rightarrow> string \<Rightarrow> destination \<Rightarrow> (string \<rightharpoonup> byte list)
     \<Rightarrow> (u64, entrepot_error) result \<times> (string \<rightharpoonup> byte list)"
where
  "fetch_to_file get io key dest files =
     (case get key of
        Err e \<Rightarrow> (Err e, files)
      | Ok bytes \<Rightarrow>
          if \<not> mkdir_ok io then (Err (ErrIo (ds_dir dest) False), files)
          else
            let part = part_path dest in
            if \<not> write_ok io then
              (Err (ErrIo part False), case torn io of None \<Rightarrow> files | Some t \<Rightarrow> files(part \<mapsto> t))
            else
              let files = files(part \<mapsto> bytes) in
              if \<not> rename_ok io then (Err (ErrIo (dest_path dest) False), files)
              else (Ok (of_nat (length bytes)), (files(part := None))(dest_path dest \<mapsto> bytes)))"

section \<open>Retries and pacing\<close>

datatype verdict = VSuccess | VRetryAfterBackoff | VFatal

record retry_policy =
  rt_max_retries :: u32
  rt_base_delay :: duration
  rt_max_delay :: duration
  rt_multiplier :: rat

definition retry_policy_default :: retry_policy where
  "retry_policy_default =
     \<lparr>rt_max_retries = 8, rt_base_delay = 500 * 10 ^ 6, rt_max_delay = 120 * 10 ^ 9, rt_multiplier = 2\<rparr>"

definition as_secs :: "duration \<Rightarrow> rat" where
  "as_secs d = of_nat d / 10 ^ 9"

text \<open>\<open>Duration::from_secs_f64\<close> rounds to the nearest nanosecond, ties to even.\<close>

definition from_secs :: "rat \<Rightarrow> duration" where
  "from_secs r =
     (let x = r * 10 ^ 9; n = \<lfloor>x\<rfloor>; rest = x - of_int n in
      nat (if rest < 1 / 2 \<or> (rest = 1 / 2 \<and> even n) then n else n + 1))"

definition f64_overflows :: "rat \<Rightarrow> bool" where
  "f64_overflows x \<longleftrightarrow> x \<ge> 2 ^ 1024"

definition retry_ceiling :: "retry_policy \<Rightarrow> u32 \<Rightarrow> duration" where
  "retry_ceiling p attempt =
     (let pow = rt_multiplier p ^ min (unat attempt) 1024;
          scaled = as_secs (rt_base_delay p) * pow
      in if f64_overflows pow \<or> f64_overflows scaled \<or> scaled \<ge> as_secs (rt_max_delay p) then rt_max_delay p
         else from_secs scaled)"

text \<open>\<open>rng x\<close> is a draw from the closed range between zero and \<open>x\<close>.\<close>

definition retry_jittered :: "(rat \<Rightarrow> rat) \<Rightarrow> retry_policy \<Rightarrow> u32 \<Rightarrow> duration" where
  "retry_jittered rng p attempt =
     (let half = retry_ceiling p attempt div 2 in half + from_secs (rng (as_secs half)))"

definition delay_for :: "(rat \<Rightarrow> rat) \<Rightarrow> retry_policy \<Rightarrow> u32 \<Rightarrow> duration option \<Rightarrow> duration" where
  "delay_for rng p attempt retry_after =
     (case retry_after of
        Some hinted \<Rightarrow> max (min hinted (rt_max_delay p)) (retry_jittered rng p attempt)
      | None \<Rightarrow> retry_jittered rng p attempt)"

definition retry_exhausted :: "retry_policy \<Rightarrow> u32 \<Rightarrow> bool" where
  "retry_exhausted p attempt \<longleftrightarrow> attempt \<ge> rt_max_retries p"

definition classify_status :: "u16 \<Rightarrow> verdict" where
  "classify_status status =
     (if 200 \<le> status \<and> status \<le> 299 then VSuccess
      else if status = 408 \<or> status = 425 \<or> status = 429 then VRetryAfterBackoff
      else if 500 \<le> status \<and> status \<le> 599 then VRetryAfterBackoff
      else VFatal)"

text \<open>What the classification reads of a \<open>reqwest::Error\<close>.\<close>

record reqwest_error =
  rq_timeout :: bool
  rq_connect :: bool
  rq_request :: bool
  rq_body :: bool
  rq_decode :: bool
  rq_text :: string

definition is_retryable_transport :: "reqwest_error \<Rightarrow> bool" where
  "is_retryable_transport e \<longleftrightarrow> rq_timeout e \<or> rq_connect e \<or> rq_request e \<or> rq_body e \<or> rq_decode e"

definition parse_retry_after :: "string \<Rightarrow> duration option" where
  "parse_retry_after raw = map_option (\<lambda>secs. unat (min secs 600) * 10 ^ 9) (parse_u64 (trim raw))"

record jitter =
  jt_min :: duration
  jt_max :: duration

definition jitter_default :: jitter where
  "jitter_default = \<lparr>jt_min = 120 * 10 ^ 6, jt_max = 650 * 10 ^ 6\<rparr>"

definition jitter_new :: "duration \<Rightarrow> duration \<Rightarrow> jitter" where
  "jitter_new mn mx = \<lparr>jt_min = mn, jt_max = max mx mn\<rparr>"

definition jitter_sample :: "(rat \<Rightarrow> rat) \<Rightarrow> jitter \<Rightarrow> duration" where
  "jitter_sample rng j =
     (if jt_max j \<le> jt_min j then jt_min j
      else jt_min j + from_secs (rng (as_secs (jt_max j - jt_min j))))"

section \<open>Request signatures\<close>

definition EMPTY_PAYLOAD_SHA256 :: string where
  "EMPTY_PAYLOAD_SHA256 = ''e3b0c44298fc1c149afbf4c8996fb92427ae41e4649b934ca495991b7852b855''"

record credentials =
  cr_access_key :: string
  cr_secret_key :: string

record signed_header =
  sh_authorization :: string
  sh_x_amz_date :: string

definition upper_hex_digit :: "nat \<Rightarrow> char" where
  "upper_hex_digit n = (if n < 10 then char_of (48 + n) else char_of (55 + n))"

definition percent_byte :: "char \<Rightarrow> string" where
  "percent_byte c = (let n = of_char c :: nat in [CHR ''%'', upper_hex_digit (n div 16), upper_hex_digit (n mod 16)])"

definition unreserved :: "char \<Rightarrow> bool" where
  "unreserved c \<longleftrightarrow> is_ascii_alphanumeric c \<or> c \<in> set ''-_.~''"

definition uri_encode :: "string \<Rightarrow> bool \<Rightarrow> string" where
  "uri_encode input encode_slash =
     concat (map (\<lambda>b. if unreserved b then [b]
                      else if b = CHR ''/'' \<and> \<not> encode_slash then ''/''
                      else percent_byte b) input)"

definition canonical_query :: "(string \<times> string) list \<Rightarrow> string" where
  "canonical_query query =
     join ''&'' (map (\<lambda>(k, v). k @ ''='' @ v)
       (sort (map (\<lambda>(k, v). (uri_encode k True, uri_encode v True)) query)))"

fun split_whitespace :: "string \<Rightarrow> string list" where
  "split_whitespace [] = []"
| "split_whitespace (c # s) =
     (if is_space c then split_whitespace s
      else case s of
             [] \<Rightarrow> [[c]]
           | d # _ \<Rightarrow>
               if is_space d then [c] # split_whitespace s
               else case split_whitespace s of [] \<Rightarrow> [[c]] | w # ws \<Rightarrow> (c # w) # ws)"

definition canonical_header_value :: "string \<Rightarrow> string" where
  "canonical_header_value v = join '' '' (split_whitespace v)"

definition canonical_headers :: "string \<Rightarrow> (string \<times> string) list \<Rightarrow> string \<Rightarrow> (string \<times> string) list" where
  "canonical_headers host extra_headers amz_date =
     sort (map (\<lambda>(k, v). (to_lowercase k, canonical_header_value v)) extra_headers
       @ [(''host'', canonical_header_value host), (''x-amz-date'', amz_date)])"

definition newline :: string where
  "newline = [CHR 0x0A]"

definition build_canonical ::
  "string \<Rightarrow> string \<Rightarrow> string \<Rightarrow> (string \<times> string) list \<Rightarrow> (string \<times> string) list \<Rightarrow> string \<Rightarrow> string \<Rightarrow> string \<times> string"
where
  "build_canonical method host path query extra_headers payload_hash amz_date =
     (let headers = canonical_headers host extra_headers amz_date;
          header_lines = concat (map (\<lambda>(k, v). k @ '':'' @ v @ newline) headers);
          signed_headers = join '';'' (map fst headers)
      in (method @ newline @ uri_encode path False @ newline @ canonical_query query @ newline
            @ header_lines @ newline @ signed_headers @ newline @ payload_hash,
          signed_headers))"

text \<open>The digests: hexadecimal SHA-256, HMAC-SHA-256 and \<open>hex::encode\<close>.\<close>

record digests =
  hex_sha256 :: "string \<Rightarrow> string"
  hmac_sha256 :: "string \<Rightarrow> string \<Rightarrow> string"
  hex_encode :: "string \<Rightarrow> string"

text \<open>\<open>amz_date\<close> and \<open>date\<close> are the two printed forms of the time of signing.\<close>

definition sign ::
  "digests \<Rightarrow> credentials \<Rightarrow> string \<Rightarrow> string \<Rightarrow> string \<Rightarrow> (string \<times> string) list \<Rightarrow> (string \<times> string) list
     \<Rightarrow> string \<Rightarrow> string \<Rightarrow> string \<Rightarrow> string \<Rightarrow> string \<Rightarrow> signed_header"
where
  "sign G creds method host path query extra_headers payload_hash region service amz_date date =
     (case build_canonical method host path query extra_headers payload_hash amz_date of
        (canonical_request, signed_headers) \<Rightarrow>
          let scope = date @ ''/'' @ region @ ''/'' @ service @ ''/aws4_request'';
              string_to_sign = ''AWS4-HMAC-SHA256'' @ newline @ amz_date @ newline @ scope @ newline
                                 @ hex_sha256 G canonical_request;
              k_date = hmac_sha256 G (''AWS4'' @ cr_secret_key creds) date;
              k_region = hmac_sha256 G k_date region;
              k_service = hmac_sha256 G k_region service;
              k_signing = hmac_sha256 G k_service ''aws4_request'';
              signature = hex_encode G (hmac_sha256 G k_signing string_to_sign)
          in \<lparr>sh_authorization = ''AWS4-HMAC-SHA256 Credential='' @ cr_access_key creds @ ''/'' @ scope
                @ '', SignedHeaders='' @ signed_headers @ '', Signature='' @ signature,
              sh_x_amz_date = amz_date\<rparr>)"

section \<open>Delays are bounded\<close>

definition closed_draw :: "(rat \<Rightarrow> rat) \<Rightarrow> bool" where
  "closed_draw rng \<longleftrightarrow> (\<forall>x \<ge> 0. 0 \<le> rng x \<and> rng x \<le> x)"

lemma from_secs_le: "0 \<le> r \<Longrightarrow> r \<le> as_secs n \<Longrightarrow> from_secs r \<le> n"
proof -
  assume r: "0 \<le> r" "r \<le> as_secs n"
  define x where "x = r * 10 ^ 9"
  from r have x: "0 \<le> x" "x \<le> of_nat n" by (simp_all add: x_def as_secs_def field_simps)
  have "\<lfloor>x\<rfloor> \<le> int n" using x(2) by (simp add: floor_le_iff)
  moreover have "\<lfloor>x\<rfloor> < int n" if "x \<noteq> of_int \<lfloor>x\<rfloor>"
  proof (rule ccontr)
    assume "\<not> \<lfloor>x\<rfloor> < int n"
    then have "of_nat n \<le> (of_int \<lfloor>x\<rfloor> :: rat)" by (metis linorder_not_less of_int_le_iff of_int_of_nat_eq)
    with x(2) of_int_floor_le [of x] that show False by linarith
  qed
  ultimately show ?thesis unfolding from_secs_def Let_def x_def [symmetric] by auto
qed

lemma retry_ceiling_le: "0 \<le> rt_multiplier p \<Longrightarrow> retry_ceiling p attempt \<le> rt_max_delay p"
  by (auto simp: retry_ceiling_def Let_def not_le intro!: from_secs_le mult_nonneg_nonneg)
    (simp add: as_secs_def)

lemma from_secs_draw: "closed_draw rng \<Longrightarrow> from_secs (rng (as_secs n)) \<le> n"
proof -
  assume "closed_draw rng"
  moreover have "0 \<le> as_secs n" by (simp add: as_secs_def)
  ultimately show ?thesis unfolding closed_draw_def by (blast intro: from_secs_le)
qed

lemma retry_jittered_bounds:
  assumes "closed_draw rng"
  shows "retry_ceiling p attempt div 2 \<le> retry_jittered rng p attempt \<and> retry_jittered rng p attempt \<le> retry_ceiling p attempt"
  using from_secs_draw [OF assms, of "retry_ceiling p attempt div 2"] by (simp add: retry_jittered_def Let_def)

lemma delay_for_le:
  assumes "closed_draw rng" "0 \<le> rt_multiplier p"
  shows "delay_for rng p attempt hint \<le> rt_max_delay p"
proof -
  have "retry_jittered rng p attempt \<le> rt_max_delay p"
    using retry_jittered_bounds [OF assms(1), of p attempt] retry_ceiling_le [OF assms(2), of attempt] by simp
  then show ?thesis by (simp add: delay_for_def split: option.split)
qed

lemma jitter_sample_bounds:
  assumes "closed_draw rng"
  shows "jt_min j \<le> jitter_sample rng j \<and> jitter_sample rng j \<le> max (jt_min j) (jt_max j)"
  using from_secs_draw [OF assms, of "jt_max j - jt_min j"] by (auto simp: jitter_sample_def)

section \<open>Stored objects stay within the cap\<close>

lemma decode_lz4_capped_iff:
  "decode_lz4_capped frame key bytes cap = Ok out \<longleftrightarrow> frame bytes = (out, None) \<and> length out \<le> cap"
  by (auto simp: decode_lz4_capped_def read_capped_def min_def split: prod.splits option.splits if_splits)

lemma split_on_no_sep: "c \<notin> set s \<Longrightarrow> split_on c s = [s]"
  by (induction s) auto

lemma split_on_append: "c \<notin> set a \<Longrightarrow> split_on c (a @ c # b) = a # split_on c b"
  by (induction a) auto

lemma split_on_nonempty: "split_on c s \<noteq> []"
  by (induction s) (auto split: list.splits)

lemma str_lines_concat:
  assumes "\<forall>l \<in> set ls. CHR 0x0A \<notin> set l \<and> (l = [] \<or> last l \<noteq> CHR 0x0D)"
  shows "str_lines (concat (map (\<lambda>l. l @ newline) ls)) = ls"
  using assms
proof (induction ls)
  case (Cons l ls)
  then have l: "strip_cr l = l"
    by (auto simp: strip_cr_def strip_suffix_Some unwrap_or_def split: option.splits)
  obtain w ws where "split_on CHR 0x0A (concat (map (\<lambda>l. l @ newline) ls)) = w # ws"
    using split_on_nonempty by (metis list.exhaust)
  with Cons l show ?case by (simp add: str_lines_def newline_def split_on_append)
qed (simp add: str_lines_def)

section \<open>The local source\<close>

lemma guard_key_ok: "guard_key key = Ok () \<longleftrightarrow> ''..'' \<notin> set (split_on CHR ''/'' key)"
  by (auto simp: guard_key_def list_ex_iff)

text \<open>An absolute key passes the guard and names a file outside the directory.\<close>

lemma absolute_key_leaves_root:
  assumes "''..'' \<notin> set (split_on CHR ''/'' (CHR ''/'' # rest))" "read (CHR ''/'' # rest) = Ok bytes"
  shows "local_get read base (CHR ''/'' # rest) = Ok bytes"
  using assms guard_key_ok [of "CHR ''/'' # rest"] by (simp add: local_get_def path_join_def)

text \<open>The files of a readable tree, as relative paths.\<close>

fun readable :: "fs_node \<Rightarrow> bool" where
  "readable (FsDir entries) \<longleftrightarrow> (\<forall>e \<in> set entries. readable (snd e))"
| "readable (FsFile _) \<longleftrightarrow> True"
| "readable FsOther \<longleftrightarrow> True"
| "readable _ \<longleftrightarrow> False"

inductive holds_file :: "fs_node \<Rightarrow> string list \<Rightarrow> byte list \<Rightarrow> bool" where
  here: "holds_file (FsFile bytes) [] bytes"
| below: "(name, node) \<in> set entries \<Longrightarrow> holds_file node rel bytes \<Longrightarrow> holds_file (FsDir entries) (name # rel) bytes"

inductive_simps holds_file_simps:
  "holds_file (FsFile b) rel bytes" "holds_file (FsDir entries) rel bytes" "holds_file FsOther rel bytes"

abbreviation listed_file :: "string list \<Rightarrow> byte list \<Rightarrow> object_meta" where
  "listed_file rel bytes \<equiv> \<lparr>om_key = join ''/'' rel, om_size = of_nat (length bytes), om_etag = None, om_last_modified = None\<rparr>"

lemma walk_lists_files:
  "readable node \<Longrightarrow>
     \<exists>found. walk_dir base rel node out = Ok (out @ found) \<and> set found = {listed_file (rel @ r) b |r b. holds_file node r b}"
  "\<forall>e \<in> set entries. readable (snd e) \<Longrightarrow>
     \<exists>found. walk_entries base rel entries out = Ok (out @ found)
       \<and> set found = {listed_file (rel @ n # r) b |n node r b. (n, node) \<in> set entries \<and> holds_file node r b}"
proof (induction base rel node out and base rel entries out rule: walk_dir_walk_entries.induct)
  case (1 base rel entries out)
  then obtain found where f: "walk_entries base rel entries out = Ok (out @ found)"
    "set found = {listed_file (rel @ n # r) b |n node r b. (n, node) \<in> set entries \<and> holds_file node r b}" by auto
  then show ?case by (auto simp: holds_file_simps)
next
  case (7 base rel name node entries out)
  then obtain f1 where f1: "walk_dir base (rel @ [name]) node out = Ok (out @ f1)"
    "set f1 = {listed_file ((rel @ [name]) @ r) b |r b. holds_file node r b}" by auto
  with 7 obtain f2 where f2: "walk_entries base rel entries (out @ f1) = Ok ((out @ f1) @ f2)"
    "set f2 = {listed_file (rel @ n # r) b |n node r b. (n, node) \<in> set entries \<and> holds_file node r b}" by fastforce
  show ?case
    by (intro exI [of _ "f1 @ f2"]) (auto simp: f1 f2)
qed (auto simp: holds_file_simps)

lemma local_list_exact:
  assumes "readable tree"
  shows "\<exists>out. local_list base tree pre = Ok out \<and> sorted (map om_key out)
     \<and> set out = {listed_file r b |r b. holds_file tree r b \<and> prefix pre (join ''/'' r)}"
proof -
  obtain found where "walk_dir base [] tree [] = Ok found" "set found = {listed_file r b |r b. holds_file tree r b}"
    using walk_lists_files(1) [OF assms, of base "[]" "[]"] by auto
  then show ?thesis by (auto simp: local_list_def sorted_filter)
qed

section \<open>Downloads are atomic\<close>

lemma part_differs: "part_path dest \<noteq> dest_path dest"
proof (cases "ds_name dest")
  case (Some name)
  then show ?thesis by (cases name) (simp_all add: part_path_def dest_path_def path_join_def)
qed (simp add: part_path_def dest_path_def path_join_def)

lemma fetch_to_file_atomic:
  assumes "fetch_to_file get io key dest files = (r, files')"
  shows "(case r of
      Ok n \<Rightarrow> (\<exists>bytes. get key = Ok bytes \<and> n = of_nat (length bytes) \<and> files' (dest_path dest) = Some bytes)
                \<and> files' (part_path dest) = None \<and> already_complete files' dest n
    | Err _ \<Rightarrow> files' (dest_path dest) = files (dest_path dest))
   \<and> (\<forall>p. p \<notin> {dest_path dest, part_path dest} \<longrightarrow> files' p = files p)"
  using assms part_differs [of dest]
  by (auto simp: fetch_to_file_def Let_def already_complete_def split: result.splits if_splits option.splits)

section \<open>The signature covers the request\<close>

fun hex_val :: "char \<Rightarrow> nat" where
  "hex_val c = (let n = of_char c in if n < 58 then n - 48 else n - 55)"

fun uri_decode :: "string \<Rightarrow> string" where
  "uri_decode [] = []"
| "uri_decode (c # s) =
     (if c = CHR ''%'' then case s of a # b # r \<Rightarrow> char_of (16 * hex_val a + hex_val b) # uri_decode r | _ \<Rightarrow> []
      else c # uri_decode s)"

lemma hex_val_digit: "n < 16 \<Longrightarrow> hex_val (upper_hex_digit n) = n"
  by (simp add: upper_hex_digit_def Let_def)

lemma unreserved_chars: "unreserved c \<Longrightarrow> c \<noteq> CHR ''%'' \<and> c \<noteq> CHR ''='' \<and> c \<noteq> CHR ''&''"
  by (auto simp: unreserved_def is_ascii_alphanumeric_def)

lemma uri_decode_percent: "uri_decode (percent_byte c @ s) = c # uri_decode s"
proof -
  have "of_char c < (256 :: nat)" by simp
  then have "of_char c div 16 < (16 :: nat)" by (simp add: less_mult_imp_div_less)
  then show ?thesis by (simp add: percent_byte_def Let_def hex_val_digit del: hex_val.simps)
qed

lemma uri_encode_Cons: "uri_encode (c # s) b =
  (if unreserved c then [c] else if c = CHR ''/'' \<and> \<not> b then ''/'' else percent_byte c) @ uri_encode s b"
  by (simp add: uri_encode_def)

lemma uri_decode_encode: "uri_decode (uri_encode s b) = s"
proof (induction s)
  case (Cons c s)
  then show ?case using unreserved_chars [of c] by (cases b) (simp_all add: uri_encode_Cons uri_decode_percent)
qed (simp add: uri_encode_def)

lemma hex_digit_alnum: "n < 16 \<Longrightarrow> is_ascii_alphanumeric (upper_hex_digit n)"
  by (simp add: upper_hex_digit_def is_ascii_alphanumeric_def Let_def)

lemma uri_encode_chars: "c \<in> set (uri_encode s True) \<Longrightarrow> unreserved c \<or> c = CHR ''%''"
proof -
  have "of_char x < (256 :: nat)" for x by simp
  then have "of_char x div 16 < (16 :: nat)" for x by (simp add: less_mult_imp_div_less)
  then have "y \<in> set (percent_byte x) \<Longrightarrow> unreserved y \<or> y = CHR ''%''" for x y
    using hex_digit_alnum by (auto simp: percent_byte_def unreserved_def Let_def)
  then show "c \<in> set (uri_encode s True) \<Longrightarrow> unreserved c \<or> c = CHR ''%''"
    by (auto simp: uri_encode_def split: if_splits)
qed

lemma uri_encode_no_sep: "CHR ''='' \<notin> set (uri_encode s True) \<and> CHR ''&'' \<notin> set (uri_encode s True)"
  using uri_encode_chars unreserved_chars by blast

lemma split_join:
  assumes "ws \<noteq> []" "\<forall>w \<in> set ws. c \<notin> set w"
  shows "split_on c (join [c] ws) = ws"
  using assms by (induction "[c]" ws rule: join.induct) (auto simp: split_on_no_sep split_on_append)

text \<open>Reading a canonical query back.\<close>

definition query_of :: "string \<Rightarrow> (string \<times> string) list" where
  "query_of q =
     (if q = [] then []
      else map (\<lambda>w. case split_once CHR ''='' w of Some (k, v) \<Rightarrow> (uri_decode k, uri_decode v) | None \<Rightarrow> ([], []))
             (split_on CHR ''&'' q))"

text \<open>
  The canonical query string that is signed determines the query: percent-encoding leaves no
  separator inside a name or a value, so reading the string back gives exactly the parameters, up to
  their order.  Two requests with different parameters never share a canonical form.
\<close>

lemma canonical_query_determines_query: "mset (query_of (canonical_query query)) = mset query"
proof -
  define enc where "enc = (\<lambda>(k, v). (uri_encode k True, uri_encode v True))"
  define dec where "dec = (\<lambda>w. case split_once CHR ''='' w of Some (k, v) \<Rightarrow> (uri_decode k, uri_decode v) | None \<Rightarrow> ([], []))"
  define ws where "ws = map (\<lambda>(k, v). k @ ''='' @ v) (sort (map enc query))"
  have q: "canonical_query query = join ''&'' ws" by (simp add: canonical_query_def ws_def enc_def)
  have from_enc: "\<exists>kv. p = enc kv" if "p \<in> set (sort (map enc query))" for p using that by auto
  have "\<forall>w \<in> set ws. CHR ''&'' \<notin> set w"
    using from_enc uri_encode_no_sep by (fastforce simp: ws_def enc_def)
  with split_join have split: "ws \<noteq> [] \<Longrightarrow> split_on CHR ''&'' (join ''&'' ws) = ws" by blast
  have inv: "dec ((\<lambda>(k, v). k @ ''='' @ v) (enc kv)) = kv" for kv
    using uri_encode_no_sep by (cases kv) (simp add: enc_def dec_def split_once_append uri_decode_encode)
  have "mset (map dec ws) = mset query"
    using inv by (simp add: ws_def image_mset.compositionality comp_def)
  moreover have "join ''&'' ws = [] \<longleftrightarrow> ws = []"
  proof (cases ws)
    case (Cons w ws')
    with from_enc have "w \<noteq> []" by (auto simp: ws_def enc_def)
    with Cons show ?thesis by (cases ws') simp_all
  qed simp
  ultimately show ?thesis using split by (auto simp: query_of_def q dec_def)
qed

end
