(* ===== verification/S3_Client.thy ===== *)
theory S3_Client
  imports Entrepot
begin

text \<open>
  The S3 client (\<open>aetelier-entrepot/src/s3.rs\<close>): signed requests with pacing, retries and transfer
  counters, the paged listing and the integrity check of a fetched object.

  Everything outside the client is in an \<open>s3_world\<close>: the answer of the HTTP library to a request, the
  random draws and the clock, each a function of what the client did so far (its log of pauses and
  requests, the current one last), the digests, and the XML reader (crate \<open>quick_xml\<close>), which turns
  a document into a sequence of events or errors.  The cut of a long error body counts characters in
  the source and bytes here.
\<close>

section \<open>Configuration and counters\<close>

record fetched_object =
  fo_bytes :: "byte list"
  fo_etag :: "string option"
  fo_request_charged :: bool

definition fetched_from_bytes :: "byte list \<Rightarrow> fetched_object" where
  "fetched_from_bytes bytes = \<lparr>fo_bytes = bytes, fo_etag = None, fo_request_charged = False\<rparr>"

record transfer_stats =
  ts_get_requests :: u64
  ts_list_requests :: u64
  ts_retries :: u64
  ts_bytes_in :: u64
  ts_unpaid_responses :: u64
  ts_integrity_fail :: u64

definition transfer_stats_default :: transfer_stats where
  "transfer_stats_default =
     \<lparr>ts_get_requests = 0, ts_list_requests = 0, ts_retries = 0, ts_bytes_in = 0, ts_unpaid_responses = 0,
      ts_integrity_fail = 0\<rparr>"

record s3_config =
  s3_bucket :: string
  s3_region :: string
  s3_requester_pays :: bool
  s3_credentials :: "credentials option"
  s3_endpoint :: "string option"

definition s3_from_env :: "(string \<Rightarrow> string option) \<Rightarrow> string \<Rightarrow> string \<Rightarrow> (s3_config, entrepot_error) result" where
  "s3_from_env env bucket region =
     result_bind (ok_or (env ''AWS_ACCESS_KEY_ID'') (ErrCredentials ''AWS_ACCESS_KEY_ID unset'')) (\<lambda>access_key.
     result_bind (ok_or (env ''AWS_SECRET_ACCESS_KEY'') (ErrCredentials ''AWS_SECRET_ACCESS_KEY unset'')) (\<lambda>secret_key.
     Ok \<lparr>s3_bucket = bucket, s3_region = region, s3_requester_pays = True,
         s3_credentials = Some \<lparr>cr_access_key = access_key, cr_secret_key = secret_key\<rparr>, s3_endpoint = None\<rparr>))"

definition s3_anonymous :: "string \<Rightarrow> string \<Rightarrow> string option \<Rightarrow> s3_config" where
  "s3_anonymous bucket region endpoint =
     \<lparr>s3_bucket = bucket, s3_region = region, s3_requester_pays = False, s3_credentials = None, s3_endpoint = endpoint\<rparr>"

function trim_start_matches :: "string \<Rightarrow> string \<Rightarrow> string" where
  "trim_start_matches p s = (if p \<noteq> [] \<and> prefix p s then trim_start_matches p (drop (length p) s) else s)"
  by auto
termination
  by (relation "measure (\<lambda>(p, s). length s)") (auto simp: prefix_def)

declare trim_start_matches.simps [simp del]

definition trim_end_char :: "char \<Rightarrow> string \<Rightarrow> string" where
  "trim_end_char c s = rev (dropWhile (\<lambda>x. x = c) (rev s))"

definition trim_matches :: "char \<Rightarrow> string \<Rightarrow> string" where
  "trim_matches c s = trim_end_char c (dropWhile (\<lambda>x. x = c) s)"

definition s3_host :: "s3_config \<Rightarrow> string" where
  "s3_host cfg =
     (case s3_endpoint cfg of
        Some e \<Rightarrow> trim_end_char CHR ''/'' (trim_start_matches ''http://'' (trim_start_matches ''https://'' e))
      | None \<Rightarrow> s3_bucket cfg @ ''.s3.'' @ s3_region cfg @ ''.amazonaws.com'')"

definition s3_base_url :: "s3_config \<Rightarrow> string" where
  "s3_base_url cfg =
     (case s3_endpoint cfg of Some e \<Rightarrow> trim_end_char CHR ''/'' e | None \<Rightarrow> ''https://'' @ s3_host cfg)"

datatype request_kind = ReqGet | ReqList

record resp_meta =
  rm_etag :: "string option"
  rm_content_length :: "u64 option"
  rm_request_charged :: bool

definition is_ascii_hexdigit :: "char \<Rightarrow> bool" where
  "is_ascii_hexdigit c = (let n = of_char c :: nat in
     (48 \<le> n \<and> n \<le> 57) \<or> (65 \<le> n \<and> n \<le> 70) \<or> (97 \<le> n \<and> n \<le> 102))"

definition md5_etag :: "string \<Rightarrow> bool" where
  "md5_etag tag \<longleftrightarrow> length tag = 32 \<and> list_all is_ascii_hexdigit tag"

definition verify_tag :: "(byte list \<Rightarrow> string) \<Rightarrow> string \<Rightarrow> byte list \<Rightarrow> string option \<Rightarrow> (unit, entrepot_error) result" where
  "verify_tag md5 key bytes etag =
     (case etag of
        Some tag \<Rightarrow>
          if md5_etag tag \<and> to_lowercase (md5 bytes) \<noteq> to_lowercase tag
          then Err (ErrIntegrity key (''md5 '' @ md5 bytes @ '' vs etag '' @ tag)) else Ok ()
      | None \<Rightarrow> Ok ())"

definition verify_integrity ::
  "(byte list \<Rightarrow> string) \<Rightarrow> string \<Rightarrow> byte list \<Rightarrow> string option \<Rightarrow> u64 option \<Rightarrow> (unit, entrepot_error) result"
where
  "verify_integrity md5 key bytes etag content_length =
     (case content_length of
        Some cl \<Rightarrow>
          if cl \<noteq> of_nat (length bytes) then
            Err (ErrIntegrity key (''body '' @ nat_digits (length bytes) @ '' bytes vs content-length '' @ u64_to_string cl))
          else verify_tag md5 key bytes etag
      | None \<Rightarrow> verify_tag md5 key bytes etag)"

section \<open>Requests with retries\<close>

record http_response =
  hr_status :: u16
  hr_header :: "string \<Rightarrow> string option"
  hr_body :: "(byte list, reqwest_error) result"
  hr_text :: "string option"

datatype s3_event = Slept duration | Requested string "(string \<times> string) list"

datatype xml_event = XStart string | XEnd string | XText "(string, string) result" | XOther

record s3_world =
  w_send :: "s3_event list \<Rightarrow> (http_response, reqwest_error) result"
  w_rng :: "s3_event list \<Rightarrow> rat \<Rightarrow> rat"
  w_now :: "s3_event list \<Rightarrow> string \<times> string"
  w_digests :: digests
  w_md5_hex :: "byte list \<Rightarrow> string"
  w_xml :: "string \<Rightarrow> (xml_event, string) result list"
  w_lossy :: "byte list \<Rightarrow> string"

record s3_client =
  cl_cfg :: s3_config
  cl_policy :: retry_policy
  cl_pace :: jitter

record s3_state =
  s3_stats :: transfer_stats
  s3_log :: "s3_event list"

definition s3_new :: "s3_config \<Rightarrow> s3_client" where
  "s3_new cfg = \<lparr>cl_cfg = cfg, cl_policy = retry_policy_default, cl_pace = jitter_default\<rparr>"

definition s3_with_policy :: "retry_policy \<Rightarrow> jitter \<Rightarrow> s3_client \<Rightarrow> s3_client" where
  "s3_with_policy policy pace C = C\<lparr>cl_policy := policy, cl_pace := pace\<rparr>"

definition s3_start :: s3_state where
  "s3_start = \<lparr>s3_stats = transfer_stats_default, s3_log = []\<rparr>"

definition signed_headers ::
  "s3_world \<Rightarrow> s3_config \<Rightarrow> s3_event list \<Rightarrow> string \<Rightarrow> (string \<times> string) list \<Rightarrow> (string \<times> string) list"
where
  "signed_headers W cfg trace path query =
     (case s3_credentials cfg of
        None \<Rightarrow> []
      | Some creds \<Rightarrow>
          let extra = [(''x-amz-content-sha256'', EMPTY_PAYLOAD_SHA256)]
                @ (if s3_requester_pays cfg then [(''x-amz-request-payer'', ''requester'')] else []);
              signed = sign (w_digests W) creds ''GET'' (s3_host cfg) path query extra EMPTY_PAYLOAD_SHA256
                         (s3_region cfg) ''s3'' (fst (w_now W trace)) (snd (w_now W trace))
          in extra @ [(''authorization'', sh_authorization signed), (''x-amz-date'', sh_x_amz_date signed)])"

definition s3_sleep :: "duration \<Rightarrow> s3_state \<Rightarrow> s3_state" where
  "s3_sleep d st = st\<lparr>s3_log := s3_log st @ [Slept d]\<rparr>"

definition count_retry :: "s3_state \<Rightarrow> s3_state" where
  "count_retry st = st\<lparr>s3_stats := (s3_stats st)\<lparr>ts_retries := ts_retries (s3_stats st) + 1\<rparr>\<rparr>"

text \<open>An error to return, or \<open>None\<close> after a pause.\<close>

definition retry_transport ::
  "s3_world \<Rightarrow> s3_client \<Rightarrow> reqwest_error \<Rightarrow> u32 \<Rightarrow> s3_state \<Rightarrow> entrepot_error option \<times> s3_state"
where
  "retry_transport W C err attempt st =
     (if \<not> is_retryable_transport err \<or> retry_exhausted (cl_policy C) attempt then (Some (ErrTransport (rq_text err)), st)
      else (None, s3_sleep (delay_for (w_rng W (s3_log st)) (cl_policy C) attempt None) (count_retry st)))"

definition request_url :: "s3_config \<Rightarrow> string \<Rightarrow> (string \<times> string) list \<Rightarrow> string" where
  "request_url cfg path query =
     (if query = [] then s3_base_url cfg @ path
      else s3_base_url cfg @ path @ ''?'' @ join ''&'' (map (\<lambda>(k, v). k @ ''='' @ uri_encode v True) query))"

definition count_request :: "request_kind \<Rightarrow> transfer_stats \<Rightarrow> transfer_stats" where
  "count_request kind t =
     (case kind of
        ReqGet \<Rightarrow> t\<lparr>ts_get_requests := ts_get_requests t + 1\<rparr>
      | ReqList \<Rightarrow> t\<lparr>ts_list_requests := ts_list_requests t + 1\<rparr>)"

definition s3_request ::
  "s3_world \<Rightarrow> s3_client \<Rightarrow> request_kind \<Rightarrow> string \<Rightarrow> (string \<times> string) list \<Rightarrow> s3_state \<Rightarrow> s3_state"
where
  "s3_request W C kind path query st =
     (let st = s3_sleep (jitter_sample (w_rng W (s3_log st)) (cl_pace C)) st
      in st\<lparr>s3_log := s3_log st
                @ [Requested (request_url (cl_cfg C) path query) (signed_headers W (cl_cfg C) (s3_log st) path query)],
            s3_stats := count_request kind (s3_stats st)\<rparr>)"

definition resp_meta_of :: "http_response \<Rightarrow> resp_meta" where
  "resp_meta_of resp =
     \<lparr>rm_etag = map_option (trim_matches (CHR 0x22)) (hr_header resp ''etag''),
      rm_content_length = Option.bind (hr_header resp ''content-length'') parse_u64,
      rm_request_charged = (hr_header resp ''x-amz-request-charged'' = Some ''requester'')\<rparr>"

definition note_unpaid :: "s3_config \<Rightarrow> resp_meta \<Rightarrow> s3_state \<Rightarrow> s3_state" where
  "note_unpaid cfg meta st =
     (if s3_requester_pays cfg \<and> s3_credentials cfg \<noteq> None \<and> \<not> rm_request_charged meta
      then st\<lparr>s3_stats := (s3_stats st)\<lparr>ts_unpaid_responses := ts_unpaid_responses (s3_stats st) + 1\<rparr>\<rparr> else st)"

datatype 'r attempt_end = Finished 'r | TryAgain

fun after_retry :: "entrepot_error option \<times> s3_state \<Rightarrow> ('a, entrepot_error) result attempt_end \<times> s3_state" where
  "after_retry (Some fatal, st) = (Finished (Err fatal), st)"
| "after_retry (None, st) = (TryAgain, st)"

text \<open>The answer to one request.\<close>

definition on_response ::
  "s3_world \<Rightarrow> s3_client \<Rightarrow> string \<Rightarrow> u32 \<Rightarrow> http_response \<Rightarrow> s3_state
     \<Rightarrow> (byte list \<times> resp_meta, entrepot_error) result attempt_end \<times> s3_state"
where
  "on_response W C label attempt resp st =
     (let status = hr_status resp in
      case classify_status status of
        VSuccess \<Rightarrow>
          (let meta = resp_meta_of resp; st = note_unpaid (cl_cfg C) meta st in
           case hr_body resp of
             Ok body \<Rightarrow>
               (Finished (Ok (body, meta)),
                st\<lparr>s3_stats := (s3_stats st)\<lparr>ts_bytes_in := ts_bytes_in (s3_stats st) + of_nat (length body)\<rparr>\<rparr>)
           | Err err \<Rightarrow> after_retry (retry_transport W C err attempt st))
      | VRetryAfterBackoff \<Rightarrow>
          (let hint = Option.bind (hr_header resp ''retry-after'') parse_retry_after in
           if retry_exhausted (cl_policy C) attempt
           then (Finished (Err (ErrExhausted (attempt + 1) label (''http '' @ nat_digits (unat status)))), st)
           else (TryAgain, s3_sleep (delay_for (w_rng W (s3_log st)) (cl_policy C) attempt hint) (count_retry st)))
      | VFatal \<Rightarrow> (Finished (Err (ErrStatus status label (take 2048 (unwrap_or (hr_text resp) [])))), st))"

text \<open>One iteration of the loop.\<close>

definition s3_attempt ::
  "s3_world \<Rightarrow> s3_client \<Rightarrow> request_kind \<Rightarrow> string \<Rightarrow> string \<Rightarrow> (string \<times> string) list \<Rightarrow> u32 \<Rightarrow> s3_state
     \<Rightarrow> (byte list \<times> resp_meta, entrepot_error) result attempt_end \<times> s3_state"
where
  "s3_attempt W C kind label path query attempt st =
     (let st = s3_request W C kind path query st in
      case w_send W (s3_log st) of
        Ok resp \<Rightarrow> on_response W C label attempt resp st
      | Err err \<Rightarrow> after_retry (retry_transport W C err attempt st))"

lemma on_response_again: "on_response W C label attempt resp st = (TryAgain, st') \<Longrightarrow> attempt < rt_max_retries (cl_policy C)"
  by (auto simp: on_response_def Let_def retry_transport_def retry_exhausted_def split: verdict.splits result.splits if_splits)

lemma s3_attempt_again:
  "s3_attempt W C kind label path query attempt st = (TryAgain, st') \<Longrightarrow> attempt < rt_max_retries (cl_policy C)"
  by (auto simp: s3_attempt_def Let_def retry_transport_def retry_exhausted_def dest: on_response_again
      split: result.splits if_splits)

lemma unat_Suc: "(a :: u32) < b \<Longrightarrow> unat (a + 1) = Suc (unat a)"
  using unsigned_less [of b, where ?'a = nat] by (simp add: word_less_nat_alt unat_word_ariths)

function get_with_retry ::
  "s3_world \<Rightarrow> s3_client \<Rightarrow> request_kind \<Rightarrow> string \<Rightarrow> string \<Rightarrow> (string \<times> string) list \<Rightarrow> u32 \<Rightarrow> s3_state
     \<Rightarrow> (byte list \<times> resp_meta, entrepot_error) result \<times> s3_state"
where
  "get_with_retry W C kind label path query attempt st =
     (case s3_attempt W C kind label path query attempt st of
        (Finished r, st) \<Rightarrow> (r, st)
      | (TryAgain, st) \<Rightarrow> get_with_retry W C kind label path query (attempt + 1) st)"
  by auto
termination
proof (relation "measure (\<lambda>(W, C, kind, label, path, query, attempt, st). unat (rt_max_retries (cl_policy C)) - unat attempt)",
    goal_cases)
  case (2 W C kind label path query attempt st e st')
  then have "attempt < rt_max_retries (cl_policy C)" by (metis s3_attempt_again)
  then show ?case by (simp add: unat_Suc word_less_nat_alt)
qed simp

declare get_with_retry.simps [simp del]

section \<open>Listings\<close>

record list_page =
  lp_objects :: "object_meta list"
  lp_common_prefixes :: "string list"
  lp_is_truncated :: bool
  lp_next_token :: "string option"

record list_parse =
  lq_page :: list_page
  lq_path :: "string list"
  lq_key :: string
  lq_size :: "u64 option"
  lq_etag :: "string option"
  lq_last_modified :: "string option"

definition list_parse_start :: list_parse where
  "list_parse_start =
     \<lparr>lq_page = \<lparr>lp_objects = [], lp_common_prefixes = [], lp_is_truncated = False, lp_next_token = None\<rparr>,
      lq_path = [], lq_key = [], lq_size = None, lq_etag = None, lq_last_modified = None\<rparr>"

definition list_start_tag :: "string \<Rightarrow> list_parse \<Rightarrow> list_parse" where
  "list_start_tag name q =
     (let q = (if name = ''Contents''
               then q\<lparr>lq_key := [], lq_size := None, lq_etag := None, lq_last_modified := None\<rparr> else q)
      in q\<lparr>lq_path := lq_path q @ [name]\<rparr>)"

definition list_end_tag :: "string \<Rightarrow> list_parse \<Rightarrow> list_parse" where
  "list_end_tag name q =
     (let q = (case lq_size q of
                 Some sz \<Rightarrow>
                   if name = ''Contents'' \<and> lq_key q \<noteq> []
                   then q\<lparr>lq_page := (lq_page q)\<lparr>lp_objects := lp_objects (lq_page q)
                          @ [\<lparr>om_key = lq_key q, om_size = sz, om_etag = lq_etag q, om_last_modified = lq_last_modified q\<rparr>]\<rparr>\<rparr>
                   else q
               | None \<Rightarrow> q)
      in q\<lparr>lq_path := butlast (lq_path q)\<rparr>)"

definition list_text :: "string \<Rightarrow> list_parse \<Rightarrow> list_parse" where
  "list_text val q =
     (let path = lq_path q; page = lq_page q;
          in_contents = (length path \<ge> 2 \<and> path ! (length path - 2) = ''Contents'');
          in_common = (length path \<ge> 2 \<and> path ! (length path - 2) = ''CommonPrefixes'')
      in if path = [] then q
         else let name = last path in
           if name = ''Prefix'' \<and> in_common then q\<lparr>lq_page := page\<lparr>lp_common_prefixes := lp_common_prefixes page @ [val]\<rparr>\<rparr>
           else if name = ''Key'' \<and> in_contents then q\<lparr>lq_key := val\<rparr>
           else if name = ''Size'' \<and> in_contents then q\<lparr>lq_size := parse_u64 val\<rparr>
           else if name = ''ETag'' \<and> in_contents then q\<lparr>lq_etag := Some (trim_matches (CHR 0x22) val)\<rparr>
           else if name = ''LastModified'' \<and> in_contents then q\<lparr>lq_last_modified := Some val\<rparr>
           else if name = ''IsTruncated'' then q\<lparr>lq_page := page\<lparr>lp_is_truncated := (val = ''true'')\<rparr>\<rparr>
           else if name = ''NextContinuationToken'' then q\<lparr>lq_page := page\<lparr>lp_next_token := Some val\<rparr>\<rparr>
           else q)"

fun parse_list_events :: "(xml_event, string) result list \<Rightarrow> list_parse \<Rightarrow> (list_page, entrepot_error) result" where
  "parse_list_events [] q = Ok (lq_page q)"
| "parse_list_events (Err e # events) q = Err (ErrListParse e)"
| "parse_list_events (Ok (XStart name) # events) q = parse_list_events events (list_start_tag name q)"
| "parse_list_events (Ok (XEnd name) # events) q = parse_list_events events (list_end_tag name q)"
| "parse_list_events (Ok (XText (Err e)) # events) q = Err (ErrListParse e)"
| "parse_list_events (Ok (XText (Ok val)) # events) q = parse_list_events events (list_text val q)"
| "parse_list_events (Ok XOther # events) q = parse_list_events events q"

definition parse_list_page :: "(string \<Rightarrow> (xml_event, string) result list) \<Rightarrow> string \<Rightarrow> (list_page, entrepot_error) result" where
  "parse_list_page xml txt = parse_list_events (xml txt) list_parse_start"

definition list_delimited ::
  "s3_world \<Rightarrow> s3_client \<Rightarrow> string \<Rightarrow> string \<Rightarrow> s3_state \<Rightarrow> (list_page, entrepot_error) result \<times> s3_state"
where
  "list_delimited W C pre delimiter st =
     (case get_with_retry W C ReqList pre ''/'' [(''delimiter'', delimiter), (''list-type'', ''2''), (''prefix'', pre)] 0 st of
        (Err e, st) \<Rightarrow> (Err e, st)
      | (Ok (body, _), st) \<Rightarrow> (parse_list_page (w_xml W) (w_lossy W body), st))"

definition list_query :: "string \<Rightarrow> string option \<Rightarrow> (string \<times> string) list" where
  "list_query pre token =
     [(''list-type'', ''2''), (''prefix'', pre)]
       @ (case token of Some t \<Rightarrow> [(''continuation-token'', t)] | None \<Rightarrow> [])"

text \<open>The loop over the pages; a server that never ends its listing keeps it running, so it has fuel.\<close>

fun s3_list ::
  "nat \<Rightarrow> s3_world \<Rightarrow> s3_client \<Rightarrow> string \<Rightarrow> string option \<Rightarrow> object_meta list \<Rightarrow> s3_state
     \<Rightarrow> ((object_meta list, entrepot_error) result \<times> s3_state) option"
where
  "s3_list 0 W C pre token out st = None"
| "s3_list (Suc fuel) W C pre token out st =
     (case get_with_retry W C ReqList pre ''/'' (list_query pre token) 0 st of
        (Err e, st) \<Rightarrow> Some (Err e, st)
      | (Ok (body, _), st) \<Rightarrow>
          (case parse_list_page (w_xml W) (w_lossy W body) of
             Err e \<Rightarrow> Some (Err e, st)
           | Ok page \<Rightarrow>
               (let out = out @ lp_objects page in
                case lp_next_token page of
                  Some t \<Rightarrow>
                    if lp_is_truncated page then s3_list fuel W C pre (Some t) out st else Some (Ok out, st)
                | None \<Rightarrow> Some (Ok out, st))))"

section \<open>Objects\<close>

definition get_object ::
  "s3_world \<Rightarrow> s3_client \<Rightarrow> string \<Rightarrow> s3_state \<Rightarrow> (fetched_object, entrepot_error) result \<times> s3_state"
where
  "get_object W C key st =
     (case get_with_retry W C ReqGet key (''/'' @ key) [] 0 st of
        (Err e, st) \<Rightarrow> (Err e, st)
      | (Ok (bytes, meta), st) \<Rightarrow>
          (case verify_integrity (w_md5_hex W) key bytes (rm_etag meta) (rm_content_length meta) of
             Err e \<Rightarrow>
               (Err e, st\<lparr>s3_stats := (s3_stats st)\<lparr>ts_integrity_fail := ts_integrity_fail (s3_stats st) + 1\<rparr>\<rparr>)
           | Ok _ \<Rightarrow> (Ok \<lparr>fo_bytes = bytes, fo_etag = rm_etag meta, fo_request_charged = rm_request_charged meta\<rparr>, st)))"

definition s3_get ::
  "s3_world \<Rightarrow> s3_client \<Rightarrow> string \<Rightarrow> s3_state \<Rightarrow> (byte list, entrepot_error) result \<times> s3_state"
where
  "s3_get W C key st =
     (case get_object W C key st of (Ok f, st) \<Rightarrow> (Ok (fo_bytes f), st) | (Err e, st) \<Rightarrow> (Err e, st))"

section \<open>Retries are bounded\<close>

definition is_request :: "s3_event \<Rightarrow> bool" where
  "is_request e = (case e of Requested _ _ \<Rightarrow> True | Slept _ \<Rightarrow> False)"

definition slept :: "s3_event list \<Rightarrow> nat" where
  "slept es = sum_list (map (\<lambda>e. case e of Slept d \<Rightarrow> d | Requested _ _ \<Rightarrow> 0) es)"

lemma slept_append [simp]: "slept (a @ b) = slept a + slept b"
  by (simp add: slept_def)

definition pace_max :: "s3_client \<Rightarrow> duration" where
  "pace_max C = max (jt_min (cl_pace C)) (jt_max (cl_pace C))"

definition sound_draws :: "s3_world \<Rightarrow> s3_client \<Rightarrow> bool" where
  "sound_draws W C \<longleftrightarrow> (\<forall>h. closed_draw (w_rng W h)) \<and> 0 \<le> rt_multiplier (cl_policy C)"

text \<open>What one iteration adds to the log and to the counters.\<close>

definition attempt_adds :: "s3_client \<Rightarrow> request_kind \<Rightarrow> string \<Rightarrow> nat \<Rightarrow> nat \<Rightarrow> s3_state \<Rightarrow> s3_state \<Rightarrow> bool" where
  "attempt_adds C kind url n k st st' \<longleftrightarrow>
     (\<exists>new. s3_log st' = s3_log st @ new \<and> length (filter is_request new) = n
        \<and> (\<forall>u h. Requested u h \<in> set new \<longrightarrow> u = url)
        \<and> slept new \<le> n * pace_max C + k * rt_max_delay (cl_policy C))
   \<and> ts_retries (s3_stats st') = ts_retries (s3_stats st) + of_nat k
   \<and> ts_get_requests (s3_stats st') = ts_get_requests (s3_stats st) + (if kind = ReqGet then of_nat n else 0)
   \<and> ts_list_requests (s3_stats st') = ts_list_requests (s3_stats st) + (if kind = ReqList then of_nat n else 0)"

lemma attempt_adds_trans:
  assumes "attempt_adds C kind url n k st st1" "attempt_adds C kind url n' k' st1 st2"
  shows "attempt_adds C kind url (n + n') (k + k') st st2"
proof -
  from assms obtain a b where "s3_log st1 = s3_log st @ a" "s3_log st2 = s3_log st1 @ b"
      "length (filter is_request a) = n" "length (filter is_request b) = n'"
      "\<forall>u h. Requested u h \<in> set a \<longrightarrow> u = url" "\<forall>u h. Requested u h \<in> set b \<longrightarrow> u = url"
      "slept a \<le> n * pace_max C + k * rt_max_delay (cl_policy C)"
      "slept b \<le> n' * pace_max C + k' * rt_max_delay (cl_policy C)"
    unfolding attempt_adds_def by blast
  then have "\<exists>new. s3_log st2 = s3_log st @ new \<and> length (filter is_request new) = n + n'
        \<and> (\<forall>u h. Requested u h \<in> set new \<longrightarrow> u = url)
        \<and> slept new \<le> (n + n') * pace_max C + (k + k') * rt_max_delay (cl_policy C)"
    by (intro exI [of _ "a @ b"]) (auto simp: algebra_simps)
  with assms show ?thesis unfolding attempt_adds_def by simp
qed

lemma request_adds:
  assumes "sound_draws W C"
  shows "attempt_adds C kind (request_url (cl_cfg C) path query) 1 0 st (s3_request W C kind path query st)"
proof -
  have "jitter_sample (w_rng W (s3_log st)) (cl_pace C) \<le> pace_max C"
    using assms jitter_sample_bounds unfolding sound_draws_def pace_max_def by blast
  then show ?thesis
    by (cases kind) (simp_all add: attempt_adds_def s3_request_def s3_sleep_def Let_def is_request_def slept_def count_request_def)
qed

lemma backoff_adds:
  assumes "sound_draws W C"
  shows "attempt_adds C kind url 0 1 st (s3_sleep (delay_for (w_rng W h) (cl_policy C) attempt hint) (count_retry st))"
proof -
  have "delay_for (w_rng W h) (cl_policy C) attempt hint \<le> rt_max_delay (cl_policy C)"
    using assms delay_for_le unfolding sound_draws_def by blast
  then show ?thesis by (simp add: attempt_adds_def s3_sleep_def count_retry_def is_request_def slept_def)
qed

lemma quiet_adds:
  assumes "s3_log st' = s3_log st" "ts_retries (s3_stats st') = ts_retries (s3_stats st)"
    "ts_get_requests (s3_stats st') = ts_get_requests (s3_stats st)"
    "ts_list_requests (s3_stats st') = ts_list_requests (s3_stats st)"
  shows "attempt_adds C kind url 0 0 st st'"
  using assms by (simp add: attempt_adds_def slept_def)

lemma note_unpaid_adds: "attempt_adds C kind url 0 0 st (note_unpaid cfg meta st)"
  by (rule quiet_adds) (simp_all add: note_unpaid_def)

lemma retry_transport_adds:
  assumes "sound_draws W C" "retry_transport W C err attempt st = (x, st')"
  shows "attempt_adds C kind url 0 (if x = None then 1 else 0) st st'"
  using assms backoff_adds [OF assms(1)] quiet_adds [of st st] by (auto simp: retry_transport_def split: if_splits)

lemma after_retry_adds:
  assumes "sound_draws W C" "after_retry (retry_transport W C err attempt st) = (x, st')"
  shows "attempt_adds C kind url 0 (if x = TryAgain then 1 else 0) st st'"
proof -
  obtain e st1 where e: "retry_transport W C err attempt st = (e, st1)" by fastforce
  with retry_transport_adds [OF assms(1) e] assms(2) show ?thesis by (cases e) auto
qed

lemma on_response_adds:
  assumes "sound_draws W C" "on_response W C label attempt resp st = (x, st')"
  shows "attempt_adds C kind url 0 (if x = TryAgain then 1 else 0) st st'"
proof (cases "classify_status (hr_status resp)")
  case VSuccess
  show ?thesis
  proof (cases "hr_body resp")
    case (Ok body)
    with VSuccess assms(2) show ?thesis
      by (auto simp: on_response_def Let_def note_unpaid_def intro: quiet_adds)
  next
    case (Err err)
    with VSuccess assms(2) have "after_retry (retry_transport W C err attempt (note_unpaid (cl_cfg C) (resp_meta_of resp) st)) = (x, st')"
      by (simp add: on_response_def Let_def)
    from attempt_adds_trans [OF note_unpaid_adds after_retry_adds [OF assms(1) this]] show ?thesis by simp
  qed
next
  case VRetryAfterBackoff
  with assms(2) backoff_adds [OF assms(1)] quiet_adds [of st st] show ?thesis
    by (auto simp: on_response_def Let_def split: if_splits)
next
  case VFatal
  with assms(2) quiet_adds [of st st] show ?thesis by (auto simp: on_response_def Let_def)
qed

lemma s3_attempt_adds:
  assumes "sound_draws W C" "s3_attempt W C kind label path query attempt st = (x, st')"
  shows "attempt_adds C kind (request_url (cl_cfg C) path query) 1 (if x = TryAgain then 1 else 0) st st'"
proof -
  let ?st = "s3_request W C kind path query st"
  have "attempt_adds C kind (request_url (cl_cfg C) path query) 0 (if x = TryAgain then 1 else 0) ?st st'"
  proof (cases "w_send W (s3_log ?st)")
    case (Ok resp)
    with assms(2) show ?thesis by (intro on_response_adds [OF assms(1)]) (simp add: s3_attempt_def Let_def)
  next
    case (Err err)
    with assms(2) show ?thesis by (intro after_retry_adds [OF assms(1)]) (simp add: s3_attempt_def Let_def)
  qed
  from attempt_adds_trans [OF request_adds [OF assms(1)] this] show ?thesis by simp
qed

text \<open>How an iteration can end the loop.\<close>

definition finished_by :: "s3_world \<Rightarrow> s3_client \<Rightarrow> u32 \<Rightarrow> s3_state \<Rightarrow> (byte list \<times> resp_meta, entrepot_error) result \<Rightarrow> bool" where
  "finished_by W C attempt st r \<longleftrightarrow>
     (\<forall>body meta. r = Ok (body, meta) \<longrightarrow>
        (\<exists>resp. w_send W (s3_log st) = Ok resp \<and> classify_status (hr_status resp) = VSuccess
           \<and> hr_body resp = Ok body \<and> meta = resp_meta_of resp))
   \<and> (\<forall>n key what. r = Err (ErrExhausted n key what) \<longrightarrow> n = attempt + 1 \<and> rt_max_retries (cl_policy C) \<le> attempt)
   \<and> (\<forall>status key body. r = Err (ErrStatus status key body) \<longrightarrow> classify_status status = VFatal)"

lemma retry_transport_finished:
  "after_retry (retry_transport W C err attempt st) = (Finished r, st') \<Longrightarrow> finished_by W C attempt st'' r"
  by (auto simp: retry_transport_def finished_by_def split: if_splits)

lemma s3_attempt_finished:
  assumes "s3_attempt W C kind label path query attempt st = (Finished r, st')"
  shows "finished_by W C attempt st' r"
proof -
  let ?st = "s3_request W C kind path query st"
  show ?thesis
  proof (cases "w_send W (s3_log ?st)")
    case (Err e)
    with assms show ?thesis by (auto simp: s3_attempt_def Let_def intro: retry_transport_finished)
  next
    case (Ok resp)
    with assms have r: "on_response W C label attempt resp ?st = (Finished r, st')" by (simp add: s3_attempt_def Let_def)
    show ?thesis
    proof (cases "classify_status (hr_status resp)")
      case VSuccess
      show ?thesis
      proof (cases "hr_body resp")
        case body: (Ok body)
        with r VSuccess have "r = Ok (body, resp_meta_of resp)" "s3_log st' = s3_log ?st"
          by (auto simp: on_response_def Let_def note_unpaid_def)
        with Ok VSuccess body show ?thesis by (simp add: finished_by_def)
      next
        case (Err e)
        with r VSuccess show ?thesis by (auto simp: on_response_def Let_def intro: retry_transport_finished)
      qed
    next
      case VRetryAfterBackoff
      with r show ?thesis by (auto simp: on_response_def Let_def finished_by_def retry_exhausted_def split: if_splits)
    next
      case VFatal
      with r show ?thesis by (auto simp: on_response_def Let_def finished_by_def)
    qed
  qed
qed

lemma get_with_retry_from:
  assumes "sound_draws W C" "attempt \<le> rt_max_retries (cl_policy C)"
    and "get_with_retry W C kind label path query attempt st = (r, st')"
  shows "\<exists>n. unat attempt + n \<le> unat (rt_max_retries (cl_policy C))
     \<and> attempt_adds C kind (request_url (cl_cfg C) path query) (n + 1) n st st' \<and> finished_by W C (attempt + of_nat n) st' r"
  using assms
proof (induction W C kind label path query attempt st arbitrary: r st' rule: get_with_retry.induct)
  case (1 W C kind label path query attempt st)
  obtain x st1 where x: "s3_attempt W C kind label path query attempt st = (x, st1)" by fastforce
  note adds = s3_attempt_adds [OF "1.prems"(1) x]
  show ?case
  proof (cases x)
    case (Finished r')
    with x "1.prems"(3) have "r' = r" "st1 = st'" by (simp_all add: get_with_retry.simps [of W C kind label path query attempt st])
    with Finished x s3_attempt_finished adds "1.prems"(2) show ?thesis
      by (intro exI [of _ 0]) (auto simp: word_le_nat_alt)
  next
    case TryAgain
    with x have lt: "attempt < rt_max_retries (cl_policy C)" by (simp add: s3_attempt_again)
    then have le: "attempt + 1 \<le> rt_max_retries (cl_policy C)" and u: "unat (attempt + 1) = Suc (unat attempt)"
      using unat_Suc [OF lt] by (simp_all add: word_le_nat_alt word_less_nat_alt)
    from TryAgain x "1.prems"(3) have "get_with_retry W C kind label path query (attempt + 1) st1 = (r, st')"
      by (simp add: get_with_retry.simps [of W C kind label path query attempt st])
    from "1.IH" [OF x [symmetric] TryAgain "1.prems"(1) le this] obtain n where
      n: "unat (attempt + 1) + n \<le> unat (rt_max_retries (cl_policy C))"
        "attempt_adds C kind (request_url (cl_cfg C) path query) (n + 1) n st1 st'"
        "finished_by W C (attempt + 1 + of_nat n) st' r" by blast
    from attempt_adds_trans [OF adds n(2)] TryAgain n(1,3) u show ?thesis
      by (intro exI [of _ "Suc n"]) (simp add: add.assoc)
  qed
qed

text \<open>
  C20: a request to the object store ends, whatever the network answers.  It is sent at most once more
  than the configured number of retries, every time to the same address; the time slept is at most
  the pacing for each request and the maximal delay for each retry, the counters record exactly the
  requests and the retries; a success is the last answer received, and only a used-up budget is
  reported as exhausted.
\<close>

theorem s3_request_bounded:
  assumes "sound_draws W C" "get_with_retry W C kind label path query 0 st = (r, st')"
  shows "\<exists>n new. n \<le> unat (rt_max_retries (cl_policy C)) \<and> s3_log st' = s3_log st @ new
     \<and> length (filter is_request new) = n + 1 \<and> (\<forall>u h. Requested u h \<in> set new \<longrightarrow> u = request_url (cl_cfg C) path query)
     \<and> slept new \<le> (n + 1) * pace_max C + n * rt_max_delay (cl_policy C)
     \<and> ts_retries (s3_stats st') = ts_retries (s3_stats st) + of_nat n
     \<and> ts_get_requests (s3_stats st') = ts_get_requests (s3_stats st) + (if kind = ReqGet then of_nat (n + 1) else 0)
     \<and> ts_list_requests (s3_stats st') = ts_list_requests (s3_stats st) + (if kind = ReqList then of_nat (n + 1) else 0)
     \<and> (\<forall>body meta. r = Ok (body, meta) \<longrightarrow> (\<exists>resp. w_send W (s3_log st') = Ok resp
           \<and> classify_status (hr_status resp) = VSuccess \<and> hr_body resp = Ok body \<and> meta = resp_meta_of resp))
     \<and> (\<forall>k key what. r = Err (ErrExhausted k key what) \<longrightarrow> n = unat (rt_max_retries (cl_policy C)) \<and> k = of_nat n + 1)"
proof -
  from get_with_retry_from [OF assms(1) _ assms(2)] obtain n where
    n: "n \<le> unat (rt_max_retries (cl_policy C))" "attempt_adds C kind (request_url (cl_cfg C) path query) (n + 1) n st st'"
      "finished_by W C (of_nat n) st' r" by auto
  have "rt_max_retries (cl_policy C) \<le> of_nat n \<Longrightarrow> n = unat (rt_max_retries (cl_policy C))"
    using n(1) by (metis le_antisym le_unat_uoi word_le_nat_alt)
  with n show ?thesis unfolding attempt_adds_def finished_by_def by blast
qed

text \<open>An endpoint that is overloaded once and then answers.\<close>

definition sample_world :: s3_world where
  "sample_world =
     \<lparr>w_send = (\<lambda>h. Ok \<lparr>hr_status = (if length h > 2 then 200 else 503), hr_header = (\<lambda>_. None), hr_body = Ok [1, 2], hr_text = None\<rparr>),
      w_rng = (\<lambda>_ x. x), w_now = (\<lambda>_. ([], [])),
      w_digests = \<lparr>hex_sha256 = id, hmac_sha256 = (\<lambda>_ d. d), hex_encode = id\<rparr>, w_md5_hex = (\<lambda>_. []),
      w_xml = (\<lambda>_. []), w_lossy = (\<lambda>_. [])\<rparr>"

definition sample_client :: s3_client where
  "sample_client = s3_new (s3_anonymous ''b'' ''eu'' None)"

theorem s3_request_bounded_witness:
  "\<exists>n \<le> 8. length (filter is_request (s3_log (snd (get_with_retry sample_world sample_client ReqGet ''k'' ''/k'' [] 0 s3_start)))) = n + 1
     \<and> slept (s3_log (snd (get_with_retry sample_world sample_client ReqGet ''k'' ''/k'' [] 0 s3_start)))
         \<le> (n + 1) * (650 * 10 ^ 6) + n * (120 * 10 ^ 9)"
proof -
  have "sound_draws sample_world sample_client"
    by (simp add: sound_draws_def closed_draw_def sample_world_def sample_client_def s3_new_def retry_policy_default_def)
  from s3_request_bounded [OF this surjective_pairing, of ReqGet "''k''" "''/k''" "[]" s3_start] obtain n new where
    n: "n \<le> unat (rt_max_retries (cl_policy sample_client))"
      "s3_log (snd (get_with_retry sample_world sample_client ReqGet ''k'' ''/k'' [] 0 s3_start)) = s3_log s3_start @ new"
      "length (filter is_request new) = n + 1"
      "slept new \<le> (n + 1) * pace_max sample_client + n * rt_max_delay (cl_policy sample_client)" by blast
  have "unat (rt_max_retries (cl_policy sample_client)) = 8" "pace_max sample_client = 650 * 10 ^ 6"
      "rt_max_delay (cl_policy sample_client) = 120 * 10 ^ 9" "s3_log s3_start = []"
    by (simp_all add: sample_client_def s3_new_def retry_policy_default_def jitter_default_def pace_max_def s3_start_def)
  with n show ?thesis by (intro exI [of _ n]) simp
qed

section \<open>Listings are complete\<close>

text \<open>The events of a listing document as the store writes it.\<close>

definition tag_events :: "string \<Rightarrow> string \<Rightarrow> xml_event list" where
  "tag_events name val = [XStart name, XText (Ok val), XEnd name]"

definition object_events :: "object_meta \<Rightarrow> xml_event list" where
  "object_events m =
     [XStart ''Contents''] @ tag_events ''Key'' (om_key m)
       @ (case om_last_modified m of Some t \<Rightarrow> tag_events ''LastModified'' t | None \<Rightarrow> [])
       @ (case om_etag m of Some t \<Rightarrow> tag_events ''ETag'' ([CHR 0x22] @ t @ [CHR 0x22]) | None \<Rightarrow> [])
       @ tag_events ''Size'' (u64_to_string (om_size m)) @ tag_events ''StorageClass'' ''STANDARD'' @ [XEnd ''Contents'']"

definition head_events :: "string \<Rightarrow> list_page \<Rightarrow> xml_event list" where
  "head_events pre p =
     [XOther, XStart ''ListBucketResult''] @ tag_events ''Prefix'' pre
       @ tag_events ''IsTruncated'' (if lp_is_truncated p then ''true'' else ''false'')
       @ (case lp_next_token p of Some t \<Rightarrow> tag_events ''NextContinuationToken'' t | None \<Rightarrow> [])"

definition prefix_events :: "string \<Rightarrow> xml_event list" where
  "prefix_events c = [XStart ''CommonPrefixes''] @ tag_events ''Prefix'' c @ [XEnd ''CommonPrefixes'']"

definition page_events :: "string \<Rightarrow> list_page \<Rightarrow> xml_event list" where
  "page_events pre p =
     head_events pre p @ concat (map object_events (lp_objects p)) @ concat (map prefix_events (lp_common_prefixes p))
       @ [XEnd ''ListBucketResult'']"

definition quote_free_ends :: "string \<Rightarrow> bool" where
  "quote_free_ends t \<longleftrightarrow> t \<noteq> [] \<and> hd t \<noteq> CHR 0x22 \<and> last t \<noteq> CHR 0x22"

definition object_wf :: "object_meta \<Rightarrow> bool" where
  "object_wf m \<longleftrightarrow> om_key m \<noteq> [] \<and> (case om_etag m of Some t \<Rightarrow> quote_free_ends t | None \<Rightarrow> True)"

lemma trim_quoted: "quote_free_ends t \<Longrightarrow> trim_matches (CHR 0x22) (CHR 0x22 # t @ [CHR 0x22]) = t"
proof -
  assume q: "quote_free_ends t"
  then have t: "t \<noteq> []" "hd t \<noteq> CHR 0x22" "last t \<noteq> CHR 0x22" by (simp_all add: quote_free_ends_def)
  have "dropWhile (\<lambda>x. x = CHR 0x22) (t @ [CHR 0x22]) = t @ [CHR 0x22]" using t(1,2) by (cases t) simp_all
  moreover have "dropWhile (\<lambda>x. x = CHR 0x22) (rev t) = rev t" using t(1,3) by (cases t rule: rev_cases) simp_all
  ultimately show ?thesis by (simp add: trim_matches_def trim_end_char_def)
qed

lemma parse_u64_string: "parse_u64 (u64_to_string v) = Some v"
proof -
  have d: "nat_digits (unat v) \<noteq> []" "list_all is_digit (nat_digits (unat v))" "digits_val (nat_digits (unat v)) = unat v"
    using nat_digits_props [of "unat v"] by auto
  then obtain c r where c: "nat_digits (unat v) = c # r" "is_digit c" by (cases "nat_digits (unat v)") auto
  moreover from c(2) have "c \<noteq> CHR ''+''" by (auto simp: is_digit_def Let_def)
  moreover have "unat v < 2 ^ 64" using unsigned_less [of v, where ?'a = nat] by simp
  ultimately show ?thesis using d by (simp add: parse_u64_def u64_to_string_def)
qed

text \<open>A document is read as a fold of its parts; an element restores the path.\<close>

fun list_event :: "xml_event \<Rightarrow> list_parse \<Rightarrow> list_parse" where
  "list_event (XStart name) q = list_start_tag name q"
| "list_event (XEnd name) q = list_end_tag name q"
| "list_event (XText (Ok val)) q = list_text val q"
| "list_event (XText (Err _)) q = q"
| "list_event XOther q = q"

fun good_event :: "xml_event \<Rightarrow> bool" where
  "good_event (XText (Err _)) = False"
| "good_event _ = True"

lemma parse_list_fold: "list_all good_event events \<Longrightarrow> parse_list_events (map Ok events) q = Ok (lq_page (fold list_event events q))"
proof (induction events arbitrary: q)
  case (Cons e events)
  then show ?case by (cases e) (auto elim: good_event.elims split: result.splits)
qed simp

lemma fold_object:
  assumes "lq_path q = [''ListBucketResult'']" "object_wf m"
  shows "\<exists>k sz e l. fold list_event (object_events m) q =
     q\<lparr>lq_page := (lq_page q)\<lparr>lp_objects := lp_objects (lq_page q) @ [m]\<rparr>, lq_key := k, lq_size := sz, lq_etag := e, lq_last_modified := l\<rparr>"
  using assms
  by (cases m; cases q; cases "om_etag m"; cases "om_last_modified m")
    (auto simp: object_events_def tag_events_def list_start_tag_def list_end_tag_def list_text_def Let_def parse_u64_string object_wf_def trim_quoted)

lemma fold_objects:
  assumes "lq_path q = [''ListBucketResult'']" "\<forall>m \<in> set ms. object_wf m"
  shows "\<exists>k sz e l. fold list_event (concat (map object_events ms)) q =
     q\<lparr>lq_page := (lq_page q)\<lparr>lp_objects := lp_objects (lq_page q) @ ms\<rparr>, lq_key := k, lq_size := sz, lq_etag := e, lq_last_modified := l\<rparr>"
  using assms
proof (induction ms arbitrary: q)
  case Nil
  show ?case by (intro exI [of _ "lq_key q"] exI [of _ "lq_size q"] exI [of _ "lq_etag q"] exI [of _ "lq_last_modified q"]) simp
next
  case (Cons m ms)
  then obtain k sz e l where one: "fold list_event (object_events m) q =
     q\<lparr>lq_page := (lq_page q)\<lparr>lp_objects := lp_objects (lq_page q) @ [m]\<rparr>, lq_key := k, lq_size := sz, lq_etag := e, lq_last_modified := l\<rparr>"
    (is "_ = ?q") using fold_object by (metis list.set_intros(1))
  from Cons.IH [of ?q] Cons.prems obtain k sz e l where "fold list_event (concat (map object_events ms)) ?q =
     ?q\<lparr>lq_page := (lq_page ?q)\<lparr>lp_objects := lp_objects (lq_page ?q) @ ms\<rparr>, lq_key := k, lq_size := sz, lq_etag := e, lq_last_modified := l\<rparr>"
    by auto
  with one show ?case by auto
qed

lemma fold_prefixes:
  assumes "lq_path q = [''ListBucketResult'']"
  shows "fold list_event (concat (map prefix_events cs)) q =
     q\<lparr>lq_page := (lq_page q)\<lparr>lp_common_prefixes := lp_common_prefixes (lq_page q) @ cs\<rparr>\<rparr>"
  using assms
proof (induction cs arbitrary: q)
  case (Cons c cs)
  have "fold list_event (prefix_events c) q =
      q\<lparr>lq_page := (lq_page q)\<lparr>lp_common_prefixes := lp_common_prefixes (lq_page q) @ [c]\<rparr>\<rparr>"
    using Cons.prems
    by (cases q) (auto simp: prefix_events_def tag_events_def list_start_tag_def list_end_tag_def list_text_def Let_def split: option.splits)
  with Cons show ?case by simp
qed simp

definition head_parsed :: "list_page \<Rightarrow> list_parse" where
  "head_parsed p =
     list_parse_start\<lparr>lq_path := [''ListBucketResult''],
       lq_page := (lq_page list_parse_start)\<lparr>lp_is_truncated := lp_is_truncated p, lp_next_token := lp_next_token p\<rparr>\<rparr>"

lemma fold_head: "fold list_event (head_events pre p) list_parse_start = head_parsed p"
  by (auto simp: head_events_def head_parsed_def list_parse_start_def tag_events_def list_start_tag_def list_end_tag_def
      list_text_def Let_def split: option.splits)

lemma head_parsed_fields:
  "lq_path (head_parsed p) = [''ListBucketResult'']" "lp_objects (lq_page (head_parsed p)) = []"
  "lp_common_prefixes (lq_page (head_parsed p)) = []" "lp_is_truncated (lq_page (head_parsed p)) = lp_is_truncated p"
  "lp_next_token (lq_page (head_parsed p)) = lp_next_token p"
  by (simp_all add: head_parsed_def list_parse_start_def)

lemma page_events_good: "list_all good_event (page_events pre p)"
  by (auto simp: page_events_def head_events_def prefix_events_def object_events_def tag_events_def list_all_iff
      split: option.splits)

lemma list_end_other: "name \<noteq> ''Contents'' \<Longrightarrow> lq_page (list_end_tag name q) = lq_page q"
  by (auto simp: list_end_tag_def Let_def split: option.splits)

lemma parse_page:
  assumes "\<forall>m \<in> set (lp_objects p). object_wf m"
  shows "parse_list_events (map Ok (page_events pre p)) list_parse_start = Ok p"
proof -
  let ?h = "head_parsed p"
  obtain k sz e l where o: "fold list_event (concat (map object_events (lp_objects p))) ?h =
     ?h\<lparr>lq_page := (lq_page ?h)\<lparr>lp_objects := lp_objects (lq_page ?h) @ lp_objects p\<rparr>, lq_key := k, lq_size := sz, lq_etag := e, lq_last_modified := l\<rparr>"
    using fold_objects [of ?h, OF _ assms] by (auto simp: head_parsed_fields)
  have "lq_page (fold list_event (page_events pre p) list_parse_start) = p"
    by (simp add: page_events_def fold_head o fold_prefixes list_end_other head_parsed_fields del: map_append)
  with page_events_good show ?thesis by (simp add: parse_list_fold)
qed

text \<open>A store that serves a listing in pages, the continuation token of each naming the next.\<close>

fun serves_pages :: "s3_world \<Rightarrow> s3_client \<Rightarrow> string \<Rightarrow> string option \<Rightarrow> list_page list \<Rightarrow> bool" where
  "serves_pages W C pre token [] \<longleftrightarrow> False"
| "serves_pages W C pre token (p # ps) \<longleftrightarrow>
     (\<forall>h hdr. \<exists>resp body. w_send W (h @ [Requested (request_url (cl_cfg C) ''/'' (list_query pre token)) hdr]) = Ok resp
        \<and> classify_status (hr_status resp) = VSuccess \<and> hr_body resp = Ok body
        \<and> w_xml W (w_lossy W body) = map Ok (page_events pre p))
   \<and> (\<forall>m \<in> set (lp_objects p). object_wf m)
   \<and> (if ps = [] then \<not> lp_is_truncated p
      else lp_is_truncated p \<and> (case lp_next_token p of Some t \<Rightarrow> serves_pages W C pre (Some t) ps | None \<Rightarrow> False))"

lemma get_answered:
  assumes "\<forall>h hdr. \<exists>resp body. w_send W (h @ [Requested (request_url (cl_cfg C) path query) hdr]) = Ok resp
        \<and> classify_status (hr_status resp) = VSuccess \<and> hr_body resp = Ok body \<and> P body"
  shows "\<exists>body meta st'. get_with_retry W C kind label path query 0 st = (Ok (body, meta), st') \<and> P body"
proof -
  let ?st = "s3_request W C kind path query st"
  obtain h hdr where "s3_log ?st = h @ [Requested (request_url (cl_cfg C) path query) hdr]"
    by (simp add: s3_request_def Let_def)
  with assms obtain resp body where "w_send W (s3_log ?st) = Ok resp" "classify_status (hr_status resp) = VSuccess"
    "hr_body resp = Ok body" "P body" by metis
  then show ?thesis
    by (simp add: get_with_retry.simps s3_attempt_def Let_def on_response_def)
qed

lemma s3_list_pages:
  assumes "serves_pages W C pre token ps" "length ps \<le> fuel"
  shows "\<exists>st'. s3_list fuel W C pre token out st = Some (Ok (out @ concat (map lp_objects ps)), st')"
  using assms
proof (induction ps arbitrary: token out st fuel)
  case (Cons p ps)
  from Cons.prems(2) obtain f where f: "fuel = Suc f" "length ps \<le> f" by (cases fuel) auto
  obtain body meta st1 where g: "get_with_retry W C ReqList pre ''/'' (list_query pre token) 0 st = (Ok (body, meta), st1)"
      "w_xml W (w_lossy W body) = map Ok (page_events pre p)"
    using get_answered [of W C "''/''" "list_query pre token" "\<lambda>body. w_xml W (w_lossy W body) = map Ok (page_events pre p)"]
      Cons.prems(1) unfolding serves_pages.simps by blast
  from Cons.prems(1) have page: "parse_list_page (w_xml W) (w_lossy W body) = Ok p"
    by (simp add: parse_list_page_def g(2) parse_page)
  show ?case
  proof (cases "ps = []")
    case True
    with Cons.prems(1) show ?thesis by (auto simp: f g page Let_def split: option.split)
  next
    case False
    with Cons.prems(1) obtain t where t: "lp_is_truncated p" "lp_next_token p = Some t" "serves_pages W C pre (Some t) ps"
      by (auto split: option.splits)
    from Cons.IH [OF t(3) f(2), of "out @ lp_objects p" st1] show ?thesis by (simp add: f g page t)
  qed
qed simp


definition sample_object :: "string \<Rightarrow> object_meta" where
  "sample_object key = \<lparr>om_key = key, om_size = 5, om_etag = Some ''ab'', om_last_modified = None\<rparr>"

definition sample_pages :: "list_page list" where
  "sample_pages =
     [\<lparr>lp_objects = [sample_object ''p/1''], lp_common_prefixes = [], lp_is_truncated = True, lp_next_token = Some ''t''\<rparr>,
      \<lparr>lp_objects = [sample_object ''p/2''], lp_common_prefixes = [], lp_is_truncated = False, lp_next_token = None\<rparr>]"

definition listing_world :: s3_world where
  "listing_world = sample_world\<lparr>
     w_send := (\<lambda>h. Ok \<lparr>hr_status = 200, hr_header = (\<lambda>_. None),
        hr_body = Ok [if (case last h of Requested u _ \<Rightarrow> u | _ \<Rightarrow> []) = request_url (cl_cfg sample_client) ''/'' (list_query ''p'' None)
                      then 0 else 1], hr_text = None\<rparr>),
     w_lossy := (\<lambda>body. if body = [0] then ''0'' else ''1''),
     w_xml := (\<lambda>txt. map Ok (page_events ''p'' (sample_pages ! (if txt = ''0'' then 0 else 1))))\<rparr>"


section \<open>Objects are verified\<close>

lemma verify_integrity_ok:
  "verify_integrity md5 key bytes etag cl = Ok () \<longleftrightarrow>
     (\<forall>n. cl = Some n \<longrightarrow> n = of_nat (length bytes))
   \<and> (\<forall>tag. etag = Some tag \<and> md5_etag tag \<longrightarrow> to_lowercase (md5 bytes) = to_lowercase tag)"
  by (auto simp: verify_integrity_def verify_tag_def split: option.splits)

lemma get_object_ok:
  assumes "get_object W C key st = (Ok f, st')"
  shows "\<forall>tag. fo_etag f = Some tag \<and> md5_etag tag \<longrightarrow> to_lowercase (w_md5_hex W (fo_bytes f)) = to_lowercase tag"
proof -
  obtain r st1 where r: "get_with_retry W C ReqGet key (''/'' @ key) [] 0 st = (r, st1)" by fastforce
  with assms obtain bytes meta where m: "r = Ok (bytes, meta)" by (cases r) (auto simp: get_object_def)
  with assms r have v: "verify_integrity (w_md5_hex W) key bytes (rm_etag meta) (rm_content_length meta) = Ok ()"
      and f: "fo_bytes f = bytes" "fo_etag f = rm_etag meta"
    by (auto simp: get_object_def split: result.splits)
  from v [unfolded verify_integrity_ok] f show ?thesis by simp
qed

end
