(* ===== verification/Replay.thy ===== *)
theory Replay
  imports Driver S3_Client
begin

text \<open>
  Replay of an archive of recorded market data (\<open>framework/entrepot.rs\<close>): the plan of object keys for
  a window of days, the coverage edge, the persisted cursor and the task that fetches, decodes and
  emits the objects in order.

  A date is its day number; \<open>fmt\<close> prints it as eight digits and \<open>parse_day\<close> reads them (both are the
  \<open>chrono\<close> crate's).  The fetch of an object, its decoding, the line
  decoder, the timestamp parser, the clock, the shutdown flag and whether a cursor write succeeds are
  collected in an \<open>archive\<close> record.  A cursor file is its content; writing it goes through a rename,
  so a failed write leaves the old content.
\<close>

section \<open>Objects and errors\<close>

record archive_object =
  ao_bytes :: "byte list"
  ao_etag :: "string option"

record 'd decoded_line =
  dl_events :: "'d domain_event list"
  dl_local_ts_us :: "u64 option"

datatype line_reject = Undecodable string | UnsupportedVersion u64

record archive_receipt =
  rc_get_requests :: u64
  rc_list_requests :: u64
  rc_retries :: u64
  rc_bytes_in :: u64
  rc_unpaid_responses :: u64
  rc_integrity_fail :: u64

text \<open>The two archives: the object store and a local directory.\<close>

definition s3_fetch ::
  "s3_world \<Rightarrow> s3_client \<Rightarrow> string \<Rightarrow> s3_state \<Rightarrow> (archive_object, entrepot_error) result \<times> s3_state"
where
  "s3_fetch W C key st =
     (case get_object W C key st of
        (Ok f, st) \<Rightarrow> (Ok \<lparr>ao_bytes = fo_bytes f, ao_etag = fo_etag f\<rparr>, st)
      | (Err e, st) \<Rightarrow> (Err e, st))"

definition s3_receipt :: "s3_state \<Rightarrow> archive_receipt option" where
  "s3_receipt st =
     (let t = s3_stats st in
      Some \<lparr>rc_get_requests = ts_get_requests t, rc_list_requests = ts_list_requests t, rc_retries = ts_retries t,
            rc_bytes_in = ts_bytes_in t, rc_unpaid_responses = ts_unpaid_responses t,
            rc_integrity_fail = ts_integrity_fail t\<rparr>)"

definition local_fetch ::
  "(string \<Rightarrow> (byte list, bool) result) \<Rightarrow> string \<Rightarrow> string \<Rightarrow> (archive_object, entrepot_error) result"
where
  "local_fetch read base key =
     (case local_get read base key of
        Ok bytes \<Rightarrow> Ok \<lparr>ao_bytes = bytes, ao_etag = None\<rparr>
      | Err e \<Rightarrow> Err e)"

fun object_absent :: "entrepot_error \<Rightarrow> bool" where
  "object_absent (ErrStatus status _ _) = (status = 404)"
| "object_absent (ErrIo _ not_found) = not_found"
| "object_absent _ = False"

text \<open>A decoder run under \<open>catch_unwind\<close>: it returns, or panics with a payload that may hold a text.\<close>

datatype 'a caught = Returned 'a | Panicked "string option"

definition guarded_decode ::
  "(entrepot_error \<Rightarrow> string) \<Rightarrow> string \<Rightarrow> (string list, entrepot_error) result caught \<Rightarrow> (string list, string) result"
where
  "guarded_decode show key run =
     (case run of
        Returned (Ok lines) \<Rightarrow> Ok lines
      | Returned (Err e) \<Rightarrow> Err (show e)
      | Panicked payload \<Rightarrow> Err (''decoder panicked for '' @ key @ '': '' @ unwrap_or payload ''opaque panic''))"

text \<open>The decoding of a fetched object; \<open>frame\<close> is the LZ4 decoder.\<close>

definition decode_object ::
  "(entrepot_error \<Rightarrow> string) \<Rightarrow> (byte list \<Rightarrow> (byte list \<times> string option) caught) \<Rightarrow> string \<Rightarrow> byte list
     \<Rightarrow> (string list, string) result"
where
  "decode_object show frame key bytes =
     guarded_decode show key
       (case frame bytes of
          Panicked payload \<Rightarrow> Panicked payload
        | Returned out \<Rightarrow> Returned (result_bind (decode_lz4 (\<lambda>_. out) key bytes) (utf8_lines key)))"

definition ARCHIVE_CONN_EPOCH_US :: u64 where
  "ARCHIVE_CONN_EPOCH_US = 0"

definition ARCHIVE_LINE_VERSION :: u64 where
  "ARCHIVE_LINE_VERSION = 1"

definition envelope_decode_line ::
  "(string \<Rightarrow> ('d domain_event list, string) result) \<Rightarrow> string \<Rightarrow> ('d decoded_line, line_reject) result"
where
  "envelope_decode_line replay_frame line =
     (case replay_frame line of
        Err e \<Rightarrow> Err (Undecodable e)
      | Ok events \<Rightarrow> Ok \<lparr>dl_events = events, dl_local_ts_us = None\<rparr>)"

text \<open>The decoder of an archive line over the parsed wrapper (time, version, raw frame).\<close>

definition archive_decode_line ::
  "(string \<Rightarrow> (string \<times> u64 \<times> string, string) result) \<Rightarrow> (string \<Rightarrow> ('d domain_event list, string) result)
     \<Rightarrow> (string \<Rightarrow> u64 option) \<Rightarrow> string \<Rightarrow> ('d decoded_line, line_reject) result"
where
  "archive_decode_line parse replay_frame parse_time line =
     (case parse line of
        Err e \<Rightarrow> Err (Undecodable e)
      | Ok (time, ver_num, raw) \<Rightarrow>
          if ver_num \<noteq> ARCHIVE_LINE_VERSION then Err (UnsupportedVersion ver_num)
          else case replay_frame raw of
                 Err e \<Rightarrow> Err (Undecodable e)
               | Ok events \<Rightarrow> Ok \<lparr>dl_events = events, dl_local_ts_us = parse_time time\<rparr>)"

section \<open>Keys\<close>

record entrepot_window =
  ew_start :: nat
  ew_end :: nat
  ew_coins :: "string list"

definition window_days :: "entrepot_window \<Rightarrow> nat list" where
  "window_days w = [ew_start w ..< Suc (ew_end w)]"

definition l2book_key :: "(nat \<Rightarrow> string) \<Rightarrow> nat \<Rightarrow> nat \<Rightarrow> string \<Rightarrow> string" where
  "l2book_key fmt date hour coin =
     ''market_data/'' @ fmt date @ ''/'' @ nat_digits hour @ ''/l2Book/'' @ coin @ ''.lz4''"

definition asset_ctxs_key :: "(nat \<Rightarrow> string) \<Rightarrow> nat \<Rightarrow> string" where
  "asset_ctxs_key fmt date = ''asset_ctxs/'' @ fmt date @ ''.csv.lz4''"

definition day_book_keys :: "(nat \<Rightarrow> string) \<Rightarrow> string list \<Rightarrow> nat \<Rightarrow> string list" where
  "day_book_keys fmt coins date = concat (map (\<lambda>hour. map (l2book_key fmt date hour) coins) [0..<24])"

definition hyperliquid_l2book_keys :: "(nat \<Rightarrow> string) \<Rightarrow> entrepot_window \<Rightarrow> string list" where
  "hyperliquid_l2book_keys fmt w = concat (map (day_book_keys fmt (ew_coins w)) (window_days w))"

definition hyperliquid_asset_ctxs_keys :: "(nat \<Rightarrow> string) \<Rightarrow> entrepot_window \<Rightarrow> string list" where
  "hyperliquid_asset_ctxs_keys fmt w = map (asset_ctxs_key fmt) (window_days w)"

definition planned_keys :: "(nat \<Rightarrow> string) \<Rightarrow> entrepot_window \<Rightarrow> bool \<Rightarrow> string list" where
  "planned_keys fmt w want_ctx =
     concat (map (\<lambda>date. (if want_ctx then [asset_ctxs_key fmt date] else []) @ day_book_keys fmt (ew_coins w) date)
       (window_days w))"

definition parse_u32 :: "string \<Rightarrow> nat option" where
  "parse_u32 s =
     (let ds = (case s of [] \<Rightarrow> [] | c # r \<Rightarrow> if c = CHR ''+'' then r else s) in
      if ds \<noteq> [] \<and> list_all is_digit ds \<and> digits_val ds < 2 ^ 32 then Some (digits_val ds) else None)"

definition parse_l2book_key :: "string \<Rightarrow> (nat \<times> string) option" where
  "parse_l2book_key key =
     (case split_on CHR ''/'' key of
        [base, day, hour, book, file] \<Rightarrow>
          if base = ''market_data'' \<and> book = ''l2Book''
          then Option.bind (parse_u32 hour) (\<lambda>h. map_option (Pair h) (strip_suffix file ''.lz4''))
          else None
      | _ \<Rightarrow> None)"

definition strip_prefix :: "string \<Rightarrow> string \<Rightarrow> string option" where
  "strip_prefix s p = (if prefix p s then Some (drop (length p) s) else None)"

definition key_date :: "(string \<Rightarrow> nat option) \<Rightarrow> string \<Rightarrow> nat option" where
  "key_date parse_day key =
     (case strip_prefix key ''asset_ctxs/'' of
        Some rest \<Rightarrow> if length rest \<ge> 8 then parse_day (take 8 rest) else None
      | None \<Rightarrow> (case split_on CHR ''/'' key of _ # day # _ \<Rightarrow> parse_day day | _ \<Rightarrow> None))"

section \<open>The plan\<close>

type_synonym lister = "string \<Rightarrow> (object_meta list, entrepot_error) result"

definition discover_coins :: "(nat \<Rightarrow> string) \<Rightarrow> lister \<Rightarrow> nat \<Rightarrow> (string list, entrepot_error) result" where
  "discover_coins fmt lst date =
     (case lst (''market_data/'' @ fmt date @ ''/'') of
        Err e \<Rightarrow> Err e
      | Ok listed \<Rightarrow>
          Ok (remdups_adj (sort (map snd (List.map_filter (parse_l2book_key \<circ> om_key) listed)))))"

record window_plan =
  wp_keys :: "string list"
  wp_etags :: "(string, string) hash_map"
  wp_observed_edge :: "nat option"

definition plan_day ::
  "(nat \<Rightarrow> string) \<Rightarrow> bool \<Rightarrow> nat \<Rightarrow> object_meta list \<Rightarrow> window_plan \<Rightarrow> window_plan"
where
  "plan_day fmt want_ctx date listed p =
     (let hour_coins = sort (List.map_filter (parse_l2book_key \<circ> om_key) listed)
      in \<lparr>wp_keys = wp_keys p @ (if want_ctx then [asset_ctxs_key fmt date] else [])
                    @ map (\<lambda>(hour, coin). l2book_key fmt date hour coin) hour_coins,
          wp_etags = fold (\<lambda>m tags. case om_etag m of Some tag \<Rightarrow> hm_insert (om_key m) tag tags | None \<Rightarrow> tags)
                       listed (wp_etags p),
          wp_observed_edge = (if listed \<noteq> [] then Some date else wp_observed_edge p)\<rparr>)"

fun plan_days ::
  "(nat \<Rightarrow> string) \<Rightarrow> lister \<Rightarrow> bool \<Rightarrow> nat list \<Rightarrow> window_plan \<Rightarrow> (window_plan, entrepot_error) result"
where
  "plan_days fmt lst want_ctx [] p = Ok p"
| "plan_days fmt lst want_ctx (date # dates) p =
     (case lst (''market_data/'' @ fmt date @ ''/'') of
        Err e \<Rightarrow> Err e
      | Ok listed \<Rightarrow> plan_days fmt lst want_ctx dates (plan_day fmt want_ctx date listed p))"

definition enumerate_window ::
  "(nat \<Rightarrow> string) \<Rightarrow> lister \<Rightarrow> entrepot_window \<Rightarrow> bool \<Rightarrow> (window_plan, entrepot_error) result"
where
  "enumerate_window fmt lst w want_ctx =
     (if ew_coins w \<noteq> []
      then Ok \<lparr>wp_keys = planned_keys fmt w want_ctx, wp_etags = [], wp_observed_edge = None\<rparr>
      else plan_days fmt lst want_ctx (window_days w) \<lparr>wp_keys = [], wp_etags = [], wp_observed_edge = None\<rparr>)"

definition EDGE_PROBE_CAP :: nat where
  "EDGE_PROBE_CAP = 45"

fun probe_from :: "(nat \<Rightarrow> string) \<Rightarrow> lister \<Rightarrow> nat \<Rightarrow> nat \<Rightarrow> nat \<Rightarrow> nat option" where
  "probe_from fmt lst start 0 date = None"
| "probe_from fmt lst start (Suc left) date =
     (case lst (''market_data/'' @ fmt date @ ''/'') of
        Err _ \<Rightarrow> None
      | Ok listed \<Rightarrow>
          if listed \<noteq> [] then Some date
          else if date \<le> start then None
          else probe_from fmt lst start left (date - 1))"

definition probe_edge :: "(nat \<Rightarrow> string) \<Rightarrow> lister \<Rightarrow> entrepot_window \<Rightarrow> nat option" where
  "probe_edge fmt lst w = probe_from fmt lst (ew_start w) EDGE_PROBE_CAP (ew_end w)"

section \<open>The cursor\<close>

fun position :: "'a \<Rightarrow> 'a list \<Rightarrow> nat option" where
  "position x [] = None"
| "position x (y # ys) = (if x = y then Some 0 else map_option Suc (position x ys))"

definition resume_index :: "string option \<Rightarrow> string list \<Rightarrow> nat" where
  "resume_index cursor keys =
     (case cursor of
        None \<Rightarrow> 0
      | Some raw \<Rightarrow>
          let lst = trim raw in
          if lst = [] then 0
          else case position lst keys of Some pos \<Rightarrow> pos + 1 | None \<Rightarrow> 0)"

definition write_cursor :: "bool \<Rightarrow> string \<Rightarrow> string option \<Rightarrow> string option" where
  "write_cursor ok key cursor = (if ok then Some key else cursor)"

section \<open>Emission\<close>

record 'd archive =
  ar_fetch :: "string \<Rightarrow> (archive_object, entrepot_error) result"
  ar_decode :: "string \<Rightarrow> byte list \<Rightarrow> (string list, string) result"
  ar_decode_line :: "string \<Rightarrow> ('d decoded_line, line_reject) result"
  ar_rfc3339 :: "string \<Rightarrow> u64 option"
  ar_now_us :: "string \<Rightarrow> string \<Rightarrow> u64"
  ar_shutdown :: "string \<Rightarrow> bool"
  ar_cursor_ok :: "string \<Rightarrow> bool"
  ar_error_text :: "entrepot_error \<Rightarrow> string"

record 'd replay_run =
  ry_tx :: "'d domain_event sender"
  ry_recv_seq :: u64
  ry_metrics :: source_metrics
  ry_cursor :: "string option"

text \<open>Stamp and send; \<open>False\<close> when the receiver is gone.\<close>

fun send_stamped :: "u64 \<Rightarrow> 'd domain_event list \<Rightarrow> 'd replay_run \<Rightarrow> bool \<times> 'd replay_run" where
  "send_stamped local_us [] s = (True, s)"
| "send_stamped local_us (e # es) s =
     (let recv_seq = ry_recv_seq s + 1;
          s = s\<lparr>ry_recv_seq := recv_seq, ry_metrics := bump_msgs (ry_metrics s)\<rparr>
      in case send (stamp_local local_us 0 recv_seq ARCHIVE_CONN_EPOCH_US e) (ry_tx s) of
           None \<Rightarrow> (False, s)
         | Some tx \<Rightarrow> send_stamped local_us es (s\<lparr>ry_tx := tx\<rparr>))"

definition ASSET_CTXS_HEADER :: string where
  "ASSET_CTXS_HEADER =
     ''time,coin,funding,open_interest,prev_day_px,day_ntl_vlm,premium,oracle_px,mark_px,mid_px,impact_bid_px,impact_ask_px''"

definition parse_opt :: "'d decimal_ops \<Rightarrow> string \<Rightarrow> 'd option" where
  "parse_opt D s = (case dec_from_str D s of Ok d \<Rightarrow> Some d | Err _ \<Rightarrow> None)"

definition ctx_funding :: "'d decimal_ops \<Rightarrow> u64 \<Rightarrow> trading_pair \<Rightarrow> string list \<Rightarrow> 'd domain_event option" where
  "ctx_funding D ts_us pair cols =
     map_option (\<lambda>rate. FundingRateEv
       \<lparr>funding_rate_ts_us = ts_us, local_funding_ts_us = 0, fr_recv_seq = 0, fr_conn_epoch_us = 0, fr_pair = pair,
        fr_rate = rate, fr_premium = parse_opt D (cols ! 6), fr_interval_hours = 1, fr_next_funding_ts_us = 0,
        fr_exchange = ''hyperliquid''\<rparr>) (parse_opt D (cols ! 2))"

definition ctx_open_interest :: "'d decimal_ops \<Rightarrow> u64 \<Rightarrow> trading_pair \<Rightarrow> string list \<Rightarrow> 'd domain_event option" where
  "ctx_open_interest D ts_us pair cols =
     map_option (\<lambda>oi. OpenInterestEv
       \<lparr>open_interest_ts_us = ts_us, local_oi_ts_us = 0, oi_recv_seq = 0, oi_conn_epoch_us = 0, oi_pair = pair,
        oi_open_interest = oi, oi_open_interest_value = None, oi_mark_px = parse_opt D (cols ! 8),
        oi_exchange = ''hyperliquid''\<rparr>) (parse_opt D (cols ! 3))"

text \<open>A wanted value of a row: its event, or a counted drop when it does not parse.\<close>

definition ctx_value ::
  "bool \<Rightarrow> 'd domain_event option \<Rightarrow> 'd domain_event list \<times> source_metrics \<Rightarrow> 'd domain_event list \<times> source_metrics"
where
  "ctx_value wanted ev = (\<lambda>(es, m).
     if \<not> wanted then (es, m)
     else case ev of Some e \<Rightarrow> (es @ [e], m) | None \<Rightarrow> (es, add_dropped_frames 1 m))"

text \<open>One row of the daily context file: its timestamp, its events and the counters.\<close>

definition ctx_row ::
  "'d decimal_ops \<Rightarrow> (string \<Rightarrow> u64 option) \<Rightarrow> string list \<Rightarrow> declared_datatype list \<Rightarrow> string \<Rightarrow> source_metrics
     \<Rightarrow> u64 \<times> 'd domain_event list \<times> source_metrics"
where
  "ctx_row D rfc3339 coins declared row m =
     (let cols = split_on CHR '','' row in
      if length cols \<noteq> 12 then (0, [], bump_decode_err m)
      else if coins \<noteq> [] \<and> cols ! 1 \<notin> set coins then (0, [], m)
      else case rfc3339 (cols ! 0) of
             None \<Rightarrow> (0, [], bump_decode_err m)
           | Some ts_us \<Rightarrow>
               (case codec_decode (BareCoin ''USDC'') (cols ! 1) of
                  None \<Rightarrow> (0, [], add_dropped_frames 1 m)
                | Some pair \<Rightarrow>
                    (ts_us, ctx_value (DtOpenInterest \<in> set declared) (ctx_open_interest D ts_us pair cols)
                              (ctx_value (DtFundingRates \<in> set declared) (ctx_funding D ts_us pair cols) ([], m)))))"

fun emit_ctx_data_rows ::
  "'d decimal_ops \<Rightarrow> (string \<Rightarrow> u64 option) \<Rightarrow> string list \<Rightarrow> declared_datatype list \<Rightarrow> string list \<Rightarrow> 'd replay_run
     \<Rightarrow> bool \<times> 'd replay_run"
where
  "emit_ctx_data_rows D rfc3339 coins declared [] s = (True, s)"
| "emit_ctx_data_rows D rfc3339 coins declared (row # rows) s =
     (case ctx_row D rfc3339 coins declared row (ry_metrics s) of
        (ts_us, es, m) \<Rightarrow>
          (case send_stamped ts_us es (s\<lparr>ry_metrics := m\<rparr>) of
             (False, s) \<Rightarrow> (False, s)
           | (True, s) \<Rightarrow> emit_ctx_data_rows D rfc3339 coins declared rows s))"

definition emit_ctx_rows ::
  "'d decimal_ops \<Rightarrow> (string \<Rightarrow> u64 option) \<Rightarrow> string list \<Rightarrow> declared_datatype list \<Rightarrow> string list \<Rightarrow> 'd replay_run
     \<Rightarrow> bool \<times> 'd replay_run"
where
  "emit_ctx_rows D rfc3339 coins declared lines s =
     (case lines of
        [] \<Rightarrow> (True, s)
      | header # rows \<Rightarrow>
          if trim header \<noteq> ASSET_CTXS_HEADER then (True, s\<lparr>ry_metrics := bump_ver_rejected (ry_metrics s)\<rparr>)
          else emit_ctx_data_rows D rfc3339 coins declared rows s)"

fun emit_book_lines :: "'d archive \<Rightarrow> string \<Rightarrow> string list \<Rightarrow> 'd replay_run \<Rightarrow> bool \<times> 'd replay_run" where
  "emit_book_lines A key [] s = (True, s)"
| "emit_book_lines A key (line # lines) s =
     (case ar_decode_line A line of
        Ok decoded \<Rightarrow>
          (case send_stamped (unwrap_or (dl_local_ts_us decoded) (ar_now_us A key line)) (dl_events decoded) s of
             (False, s) \<Rightarrow> (False, s)
           | (True, s) \<Rightarrow> emit_book_lines A key lines s)
      | Err (UnsupportedVersion found) \<Rightarrow>
          emit_book_lines A key lines (s\<lparr>ry_metrics := bump_ver_rejected (ry_metrics s)\<rparr>)
      | Err (Undecodable e) \<Rightarrow>
          emit_book_lines A key lines (s\<lparr>ry_metrics := bump_decode_err (ry_metrics s)\<rparr>))"

section \<open>The replay task\<close>

record replay_config =
  rc_coins :: "string list"
  rc_declared :: "declared_datatype list"
  rc_etags :: "(string, string) hash_map"
  rc_edge :: "nat option"
  rc_has_cursor :: bool

definition absent_is_beyond :: "(string \<Rightarrow> nat option) \<Rightarrow> replay_config \<Rightarrow> string \<Rightarrow> bool" where
  "absent_is_beyond parse_day R key =
     (case (rc_edge R, key_date parse_day key) of
        (Some edge, Some date) \<Rightarrow> date > edge
      | (None, _) \<Rightarrow> True
      | (_, None) \<Rightarrow> False)"

definition advance_cursor :: "replay_config \<Rightarrow> 'd archive \<Rightarrow> string \<Rightarrow> 'd replay_run \<Rightarrow> 'd replay_run" where
  "advance_cursor R A key s =
     (if rc_has_cursor R then s\<lparr>ry_cursor := write_cursor (ar_cursor_ok A key) key (ry_cursor s)\<rparr> else s)"

definition note_republished :: "replay_config \<Rightarrow> string \<Rightarrow> archive_object \<Rightarrow> 'd replay_run \<Rightarrow> 'd replay_run" where
  "note_republished R key fetched s =
     (case (hm_get (rc_etags R) key, ao_etag fetched) of
        (Some pinned, Some got) \<Rightarrow>
          if pinned \<noteq> got then s\<lparr>ry_metrics := bump_republished (ry_metrics s)\<rparr> else s
      | _ \<Rightarrow> s)"

text \<open>What an object that was fetched contributes; \<open>False\<close> when the receiver is gone.\<close>

definition replay_object ::
  "'d decimal_ops \<Rightarrow> replay_config \<Rightarrow> 'd archive \<Rightarrow> string \<Rightarrow> archive_object \<Rightarrow> 'd replay_run \<Rightarrow> bool \<times> 'd replay_run"
where
  "replay_object D R A key fetched s =
     (let s = note_republished R key fetched s in
      case ar_decode A key (ao_bytes fetched) of
        Err _ \<Rightarrow> (True, s\<lparr>ry_metrics := bump_decode_err (ry_metrics s)\<rparr>)
      | Ok lines \<Rightarrow>
          if prefix ''asset_ctxs/'' key
          then emit_ctx_rows D (ar_rfc3339 A) (rc_coins R) (rc_declared R) lines s
          else emit_book_lines A key lines s)"

text \<open>The loop over the ordered fetches.\<close>

fun replay_loop ::
  "'d decimal_ops \<Rightarrow> (string \<Rightarrow> nat option) \<Rightarrow> replay_config \<Rightarrow> 'd archive \<Rightarrow> string list \<Rightarrow> 'd replay_run
     \<Rightarrow> task_exit \<times> 'd replay_run"
where
  "replay_loop D parse_day R A [] s = (TaskExhausted, s)"
| "replay_loop D parse_day R A (key # keys) s =
     (if ar_shutdown A key then (TaskCompleted, s)
      else case ar_fetch A key of
        Ok fetched \<Rightarrow>
          (case replay_object D R A key fetched s of
             (False, s) \<Rightarrow> (TaskCompleted, s)
           | (True, s) \<Rightarrow> replay_loop D parse_day R A keys (advance_cursor R A key s))
      | Err e \<Rightarrow>
          if object_absent e then
            let m = (if absent_is_beyond parse_day R key then bump_gaps_beyond_edge (ry_metrics s) else bump_gaps (ry_metrics s))
            in replay_loop D parse_day R A keys (advance_cursor R A key (s\<lparr>ry_metrics := m\<rparr>))
          else case e of
            ErrIntegrity _ _ \<Rightarrow>
              replay_loop D parse_day R A keys
                (advance_cursor R A key (s\<lparr>ry_metrics := bump_integrity_fail (ry_metrics s)\<rparr>))
          | _ \<Rightarrow> (TaskFailed (TransportError (ar_error_text A e)), s))"

definition replay_start :: "'d domain_event sender \<Rightarrow> source_metrics \<Rightarrow> string option \<Rightarrow> 'd replay_run" where
  "replay_start tx m cursor = \<lparr>ry_tx = tx, ry_recv_seq = 0, ry_metrics = m, ry_cursor = cursor\<rparr>"

text \<open>The task from a plan on: resume behind the cursor and run.\<close>

definition replay_plan ::
  "'d decimal_ops \<Rightarrow> (string \<Rightarrow> nat option) \<Rightarrow> replay_config \<Rightarrow> 'd archive \<Rightarrow> string list \<Rightarrow> 'd replay_run
     \<Rightarrow> task_exit \<times> 'd replay_run"
where
  "replay_plan D parse_day R A keys s =
     replay_loop D parse_day R A (drop (resume_index (if rc_has_cursor R then ry_cursor s else None) keys) keys) s"

definition replay_task ::
  "'d decimal_ops \<Rightarrow> (nat \<Rightarrow> string) \<Rightarrow> (string \<Rightarrow> nat option) \<Rightarrow> lister \<Rightarrow> entrepot_window \<Rightarrow> declared_datatype list
     \<Rightarrow> bool \<Rightarrow> 'd archive \<Rightarrow> 'd replay_run \<Rightarrow> task_exit \<times> 'd replay_run"
where
  "replay_task D fmt parse_day lst w declared has_cursor A s =
     (let want_ctx = DtFundingRates \<in> set declared \<or> DtOpenInterest \<in> set declared in
      case enumerate_window fmt lst w want_ctx of
        Err e \<Rightarrow> (TaskFailed (TransportError (ar_error_text A e)), s)
      | Ok plan \<Rightarrow>
          (let edge = (case wp_observed_edge plan of
                         Some date \<Rightarrow> Some date
                       | None \<Rightarrow> if ew_coins w = [] then None else probe_edge fmt lst w)
           in replay_plan D parse_day
                \<lparr>rc_coins = ew_coins w, rc_declared = declared, rc_etags = wp_etags plan, rc_edge = edge,
                 rc_has_cursor = has_cursor\<rparr> A (wp_keys plan) s))"

section \<open>What a key contributes\<close>

text \<open>The reference: the events of a key, each with its local timestamp, without any channel or counter.\<close>

definition book_events :: "'d archive \<Rightarrow> string \<Rightarrow> string list \<Rightarrow> (u64 \<times> 'd domain_event) list" where
  "book_events A key lines =
     concat (map (\<lambda>line. case ar_decode_line A line of
         Ok d \<Rightarrow> map (Pair (unwrap_or (dl_local_ts_us d) (ar_now_us A key line))) (dl_events d) | Err _ \<Rightarrow> []) lines)"

definition row_events ::
  "'d decimal_ops \<Rightarrow> (string \<Rightarrow> u64 option) \<Rightarrow> string list \<Rightarrow> declared_datatype list \<Rightarrow> string \<Rightarrow> (u64 \<times> 'd domain_event) list"
where
  "row_events D rfc3339 coins declared row =
     (case ctx_row D rfc3339 coins declared row metrics_default of (ts_us, es, m) \<Rightarrow> map (Pair ts_us) es)"

definition ctx_events ::
  "'d decimal_ops \<Rightarrow> (string \<Rightarrow> u64 option) \<Rightarrow> string list \<Rightarrow> declared_datatype list \<Rightarrow> string list \<Rightarrow> (u64 \<times> 'd domain_event) list"
where
  "ctx_events D rfc3339 coins declared lines =
     (if lines = [] \<or> trim (hd lines) \<noteq> ASSET_CTXS_HEADER then []
      else concat (map (row_events D rfc3339 coins declared) (tl lines)))"

definition key_events ::
  "'d decimal_ops \<Rightarrow> string list \<Rightarrow> declared_datatype list \<Rightarrow> 'd archive \<Rightarrow> string \<Rightarrow> (u64 \<times> 'd domain_event) list"
where
  "key_events D coins declared A key =
     (case ar_fetch A key of
        Err _ \<Rightarrow> []
      | Ok fetched \<Rightarrow>
          (case ar_decode A key (ao_bytes fetched) of
             Err _ \<Rightarrow> []
           | Ok lines \<Rightarrow>
               if prefix ''asset_ctxs/'' key then ctx_events D (ar_rfc3339 A) coins declared lines
               else book_events A key lines))"

text \<open>The stamped form of a sequence of events: receipt numbers count on, the epoch is unset.\<close>

fun stamped :: "u64 \<Rightarrow> (u64 \<times> 'd domain_event) list \<Rightarrow> 'd domain_event list" where
  "stamped seq [] = []"
| "stamped seq ((local_us, e) # xs) = stamp_local local_us 0 (seq + 1) 0 e # stamped (seq + 1) xs"

lemma stamped_append: "stamped seq (xs @ ys) = stamped seq xs @ stamped (seq + of_nat (length xs)) ys"
  by (induction seq xs rule: stamped.induct) (simp_all add: ac_simps)

text \<open>
  The contract of every emitting step: it sends a prefix of its events in stamped form, all of them
  when it reports success, and it can fail only on a channel that closes.
\<close>

definition emits :: "'d replay_run \<Rightarrow> (u64 \<times> 'd domain_event) list \<Rightarrow> bool \<times> 'd replay_run \<Rightarrow> bool" where
  "emits s xs = (\<lambda>(ok, s').
     (\<exists>k. sent (ry_tx s') = sent (ry_tx s) @ stamped (ry_recv_seq s) (take k xs)
        \<and> (ok \<longrightarrow> k \<ge> length xs \<and> ry_recv_seq s' = ry_recv_seq s + of_nat (length xs)))
   \<and> closes_after (ry_tx s') = closes_after (ry_tx s) \<and> ry_cursor s' = ry_cursor s
   \<and> (closes_after (ry_tx s) = None \<longrightarrow> ok))"

lemma emits_nothing [simp]: "emits s [] (True, s)" "emits s [] (True, s\<lparr>ry_metrics := m\<rparr>)"
  by (simp_all add: emits_def)

lemma emits_metrics [simp]: "emits (s\<lparr>ry_metrics := m\<rparr>) xs r = emits s xs r"
  by (simp add: emits_def)

lemma emits_then:
  assumes "emits s xs (True, s1)" "emits s1 ys r"
  shows "emits s (xs @ ys) r"
proof -
  obtain ok s2 where r: "r = (ok, s2)" by fastforce
  from assms(2) r obtain k where k: "sent (ry_tx s2) = sent (ry_tx s1) @ stamped (ry_recv_seq s1) (take k ys)"
    "ok \<longrightarrow> k \<ge> length ys \<and> ry_recv_seq s2 = ry_recv_seq s1 + of_nat (length ys)"
    by (auto simp: emits_def)
  with assms show ?thesis unfolding emits_def r
    by (auto simp: stamped_append intro!: exI [of _ "length xs + k"])
qed

lemma emits_stop: "emits s xs (False, s1) \<Longrightarrow> emits s (xs @ ys) (False, s1)"
  unfolding emits_def
proof (clarsimp, goal_cases)
  case (1 k)
  then show ?case by (intro exI [of _ "min k (length xs)"]) (auto simp: min_def)
qed

lemma send_stamped_emits: "emits s (map (Pair local_us) es) (send_stamped local_us es s)"
proof (induction local_us es s rule: send_stamped.induct)
  case (2 local_us e es s)
  let ?s = "s\<lparr>ry_recv_seq := ry_recv_seq s + 1, ry_metrics := bump_msgs (ry_metrics s)\<rparr>"
  let ?e = "stamp_local local_us 0 (ry_recv_seq s + 1) ARCHIVE_CONN_EPOCH_US e"
  show ?case
  proof (cases "send ?e (ry_tx s)")
    case None
    then have "closes_after (ry_tx s) \<noteq> None" by (auto simp: send_def split: option.splits)
    with None show ?thesis by (auto simp: emits_def intro: exI [of _ 0])
  next
    case (Some tx)
    from send_Some [OF this] have "emits s [(local_us, e)] (True, ?s\<lparr>ry_tx := tx\<rparr>)"
      by (auto simp: emits_def ARCHIVE_CONN_EPOCH_US_def intro: exI [of _ 1])
    with emits_then 2 [OF refl refl, of tx] Some show ?thesis by (fastforce simp: Let_def)
  qed
qed simp

lemma ctx_value_events: "fst (ctx_value b e (es, m)) = fst (ctx_value b e (es, m'))"
  by (simp add: ctx_value_def split: option.splits)

lemma ctx_row_events:
  "\<exists>m'. ctx_row D rfc3339 coins declared row m =
     (fst (ctx_row D rfc3339 coins declared row m0), fst (snd (ctx_row D rfc3339 coins declared row m0)), m')"
  by (auto simp: ctx_row_def Let_def ctx_value_def split: option.splits)

lemma ctx_data_rows_emits:
  "emits s (concat (map (row_events D rfc3339 coins declared) rows)) (emit_ctx_data_rows D rfc3339 coins declared rows s)"
proof (induction D rfc3339 coins declared rows s rule: emit_ctx_data_rows.induct)
  case (2 D rfc3339 coins declared row rows s)
  obtain ts es m0 where row: "ctx_row D rfc3339 coins declared row metrics_default = (ts, es, m0)" by (metis prod_cases3)
  with ctx_row_events [of D rfc3339 coins declared row "ry_metrics s" metrics_default]
  obtain m where m: "ctx_row D rfc3339 coins declared row (ry_metrics s) = (ts, es, m)" by auto
  obtain ok s1 where s1: "send_stamped ts es (s\<lparr>ry_metrics := m\<rparr>) = (ok, s1)" by fastforce
  have e1: "emits s (row_events D rfc3339 coins declared row) (ok, s1)"
    using send_stamped_emits [of "s\<lparr>ry_metrics := m\<rparr>" ts es] by (simp add: s1 row_events_def row)
  show ?case
  proof (cases ok)
    case True
    with e1 have "emits s (row_events D rfc3339 coins declared row) (True, s1)" by simp
    from True have "ok = True" by simp
    from emits_then [OF \<open>emits s _ (True, s1)\<close> 2 [OF m [symmetric] refl s1 [symmetric] this]] True show ?thesis by (simp add: m s1)
  next
    case False
    with e1 emits_stop show ?thesis by (simp add: m s1)
  qed
qed simp

lemma ctx_rows_emits:
  "emits s (ctx_events D rfc3339 coins declared lines) (emit_ctx_rows D rfc3339 coins declared lines s)"
  using ctx_data_rows_emits by (auto simp: ctx_events_def emit_ctx_rows_def split: list.splits)

lemma book_lines_emits: "emits s (book_events A key lines) (emit_book_lines A key lines s)"
proof (induction A key lines s rule: emit_book_lines.induct)
  case (2 A key line lines s)
  show ?case
  proof (cases "ar_decode_line A line")
    case (Ok d)
    let ?local = "unwrap_or (dl_local_ts_us d) (ar_now_us A key line)"
    obtain ok s1 where s1: "send_stamped ?local (dl_events d) s = (ok, s1)" by fastforce
    have e1: "emits s (map (Pair ?local) (dl_events d)) (ok, s1)" using send_stamped_emits [of s ?local] by (simp flip: s1)
    have ev: "book_events A key (line # lines) = map (Pair ?local) (dl_events d) @ book_events A key lines"
      by (simp add: book_events_def Ok)
    show ?thesis
    proof (cases ok)
      case True
      with e1 have "emits s (map (Pair ?local) (dl_events d)) (True, s1)" by simp
      from True have "ok = True" by simp
      from emits_then [OF \<open>emits s _ (True, s1)\<close> 2(1) [OF Ok s1 [symmetric] this]] True show ?thesis by (simp add: Ok s1 ev)
    next
      case False
      with e1 emits_stop show ?thesis by (simp add: Ok s1 ev)
    qed
  next
    case (Err e)
    then show ?thesis using 2 by (cases e) (auto simp: book_events_def)
  qed
qed (simp add: book_events_def)

lemma replay_object_emits:
  assumes "ar_fetch A key = Ok fetched"
  shows "emits s (key_events D (rc_coins R) (rc_declared R) A key) (replay_object D R A key fetched s)"
proof -
  have "note_republished R key fetched s = s\<lparr>ry_metrics := ry_metrics (note_republished R key fetched s)\<rparr>"
    by (simp add: note_republished_def split: option.splits)
  then obtain m where n: "note_republished R key fetched s = s\<lparr>ry_metrics := m\<rparr>" by blast
  show ?thesis
    using ctx_rows_emits [of "s\<lparr>ry_metrics := m\<rparr>" D] book_lines_emits [of "s\<lparr>ry_metrics := m\<rparr>" A key]
    by (auto simp: replay_object_def n Let_def key_events_def assms split: result.splits)
qed

section \<open>Where a session ends\<close>

text \<open>
  A session that has passed \<open>i\<close> keys has sent the events of those keys and a part of the next one's,
  and its cursor names the last key passed.
\<close>

definition session_at :: "(string \<Rightarrow> (u64 \<times> 'd domain_event) list) \<Rightarrow> string list \<Rightarrow> 'd replay_run \<Rightarrow> nat \<Rightarrow> 'd replay_run \<Rightarrow> bool" where
  "session_at ev keys s i s' \<longleftrightarrow> i \<le> length keys
     \<and> (\<exists>part. sent (ry_tx s') = sent (ry_tx s) @ stamped (ry_recv_seq s) (concat (map ev (take i keys)) @ part)
          \<and> (closes_after (ry_tx s) = None \<or> i = length keys \<longrightarrow> part = [])
          \<and> (i < length keys \<longrightarrow> prefix part (ev (keys ! i))))
     \<and> ry_cursor s' = (if i = 0 then ry_cursor s else Some (keys ! (i - 1)))"

lemma session_at_zero: "session_at ev keys s 0 s"
  by (auto simp: session_at_def intro!: exI [of _ "[]"])

lemma session_at_next:
  assumes "emits s (ev key) (True, s1)" "session_at ev keys (s1\<lparr>ry_cursor := Some key\<rparr>) i s'"
  shows "session_at ev (key # keys) s (Suc i) s'"
proof -
  from assms(1) have s1: "sent (ry_tx s1) = sent (ry_tx s) @ stamped (ry_recv_seq s) (ev key)"
    "ry_recv_seq s1 = ry_recv_seq s + of_nat (length (ev key))" "closes_after (ry_tx s1) = closes_after (ry_tx s)"
    by (auto simp: emits_def)
  from assms(2) obtain part where part:
    "sent (ry_tx s') = sent (ry_tx s1) @ stamped (ry_recv_seq s1) (concat (map ev (take i keys)) @ part)"
    "closes_after (ry_tx s1) = None \<or> i = length keys \<longrightarrow> part = []" "i < length keys \<longrightarrow> prefix part (ev (keys ! i))"
    by (auto simp: session_at_def)
  with s1 assms(2) show ?thesis
    by (auto simp: session_at_def stamped_append nth_Cons' intro!: exI [of _ part])
qed

lemma session_at_stop:
  assumes "emits s (ev key) (False, s1)"
  shows "session_at ev (key # keys) s 0 s1"
proof -
  from assms obtain k where "sent (ry_tx s1) = sent (ry_tx s) @ stamped (ry_recv_seq s) (take k (ev key))"
    "closes_after (ry_tx s) \<noteq> None" "ry_cursor s1 = ry_cursor s"
    by (auto simp: emits_def)
  then show ?thesis by (auto simp: session_at_def take_is_prefix intro!: exI [of _ "take k (ev key)"])
qed

text \<open>The errors a session survives.\<close>

definition skipped_error :: "entrepot_error \<Rightarrow> bool" where
  "skipped_error e \<longleftrightarrow> object_absent e \<or> (\<exists>k r. e = ErrIntegrity k r)"

lemma replay_loop_session:
  assumes "rc_has_cursor R" "\<forall>k \<in> set keys. ar_cursor_ok A k"
  shows "\<exists>i. session_at (key_events D (rc_coins R) (rc_declared R) A) keys s i (snd (replay_loop D pd R A keys s))
    \<and> (fst (replay_loop D pd R A keys s) = TaskExhausted \<longleftrightarrow> i = length keys)"
  using assms(2)
proof (induction keys arbitrary: s)
  case Nil
  show ?case using session_at_zero [of _ "[]" s] by simp
next
  case (Cons key keys)
  let ?ev = "key_events D (rc_coins R) (rc_declared R) A"
  have adv: "advance_cursor R A key s1 = s1\<lparr>ry_cursor := Some key\<rparr>" for s1 :: "'a replay_run"
    using assms(1) Cons.prems by (simp add: advance_cursor_def write_cursor_def)
  have go: "\<exists>i. session_at ?ev (key # keys) s i (snd (replay_loop D pd R A keys (s1\<lparr>ry_cursor := Some key\<rparr>)))
      \<and> (fst (replay_loop D pd R A keys (s1\<lparr>ry_cursor := Some key\<rparr>)) = TaskExhausted \<longleftrightarrow> i = length (key # keys))"
    if "emits s (?ev key) (True, s1)" for s1
  proof -
    from Cons.prems have "\<forall>k \<in> set keys. ar_cursor_ok A k" by simp
    from Cons.IH [OF this, of "s1\<lparr>ry_cursor := Some key\<rparr>"] obtain i where
      "session_at ?ev keys (s1\<lparr>ry_cursor := Some key\<rparr>) i (snd (replay_loop D pd R A keys (s1\<lparr>ry_cursor := Some key\<rparr>)))"
      "(fst (replay_loop D pd R A keys (s1\<lparr>ry_cursor := Some key\<rparr>)) = TaskExhausted) = (i = length keys)"
      by blast
    with session_at_next [of s ?ev, OF that] show ?thesis by (intro exI [of _ "Suc i"]) simp
  qed
  show ?case
  proof (cases "ar_shutdown A key")
    case True
    with session_at_zero show ?thesis by (intro exI [of _ 0]) simp
  next
    case sd: False
    show ?thesis
    proof (cases "ar_fetch A key")
      case (Ok fetched)
      obtain ok s1 where o: "replay_object D R A key fetched s = (ok, s1)" by fastforce
      with replay_object_emits [OF Ok, of s D R] have e: "emits s (?ev key) (ok, s1)" by simp
      show ?thesis
      proof (cases ok)
        case True
        with e go show ?thesis by (simp add: sd Ok o adv)
      next
        case False
        with e session_at_stop show ?thesis by (intro exI [of _ 0]) (simp add: sd Ok o)
      qed
    next
      case (Err e)
      have ev: "emits s (?ev key) (True, s\<lparr>ry_metrics := m\<rparr>)" for m by (simp add: key_events_def Err)
      show ?thesis
      proof (cases "skipped_error e")
        case True
        with go [OF ev] show ?thesis by (auto simp: sd Err adv skipped_error_def Let_def)
      next
        case False
        then show ?thesis using session_at_zero
          by (intro exI [of _ 0]) (auto simp: sd Err skipped_error_def split: entrepot_error.splits)
      qed
    qed
  qed
qed

lemma replay_loop_exhausts:
  assumes "closes_after (ry_tx s) = None" "\<forall>k \<in> set keys. \<not> ar_shutdown A k"
    and "\<forall>k \<in> set keys. \<forall>e. ar_fetch A k = Err e \<longrightarrow> skipped_error e"
  shows "fst (replay_loop D pd R A keys s) = TaskExhausted"
  using assms
proof (induction keys arbitrary: s)
  case (Cons key keys)
  have adv: "closes_after (ry_tx (advance_cursor R A key s1)) = closes_after (ry_tx s1)" for s1 :: "'a replay_run"
    by (simp add: advance_cursor_def)
  show ?case
  proof (cases "ar_fetch A key")
    case (Ok fetched)
    obtain ok s1 where o: "replay_object D R A key fetched s = (ok, s1)" by fastforce
    with replay_object_emits [OF Ok, of s D R] Cons.prems(1) have "ok" "closes_after (ry_tx s1) = None"
      by (auto simp: emits_def)
    with Cons Ok o adv show ?thesis by simp
  next
    case (Err e)
    then show ?thesis using Cons adv by (auto simp: skipped_error_def Let_def)
  qed
qed simp

section \<open>Keys determine the position\<close>

lemma position_distinct: "distinct xs \<Longrightarrow> i < length xs \<Longrightarrow> position (xs ! i) xs = Some i"
  by (induction xs arbitrary: i) (auto simp: nth_Cons split: nat.splits dest: nth_mem)

lemma dropWhile_hd: "s \<noteq> [] \<Longrightarrow> \<not> P (hd s) \<Longrightarrow> dropWhile P s = s"
  by (cases s) simp_all

lemma trim_id: "s \<noteq> [] \<Longrightarrow> \<not> is_space (hd s) \<Longrightarrow> \<not> is_space (last s) \<Longrightarrow> trim s = s"
  by (simp add: trim_def dropWhile_hd hd_rev)

lemma resume_behind:
  assumes "distinct keys" "\<forall>k \<in> set keys. k \<noteq> [] \<and> trim k = k" "i \<le> length keys" "c = (if i = 0 then None else Some (keys ! (i - 1)))"
  shows "resume_index c keys = i"
proof (cases "i = 0")
  case True
  with assms show ?thesis by (simp add: resume_index_def)
next
  case False
  then have i: "i - 1 < length keys" using assms(3) by simp
  with assms(2) have k: "keys ! (i - 1) \<noteq> []" "trim (keys ! (i - 1)) = keys ! (i - 1)" by simp_all
  with False assms(4) position_distinct [OF assms(1) i] show ?thesis by (simp add: resume_index_def)
qed

lemma slash_split:
  assumes "a @ CHR ''/'' # b = a' @ CHR ''/'' # b'" "CHR ''/'' \<notin> set a" "CHR ''/'' \<notin> set a'"
  shows "a = a'" "b = b'"
proof -
  have "Some (a, b) = Some (a', b')"
    using split_once_append [OF assms(2), of b] split_once_append [OF assms(3), of b'] unfolding assms(1) by (rule trans [OF sym])
  then show "a = a'" "b = b'" by simp_all
qed

lemma digits_no_slash: "CHR ''/'' \<notin> set (nat_digits n)"
  using nat_digits_props [of n] by (auto simp: list_all_iff is_digit_def Let_def)

lemma nat_digits_inj: "nat_digits a = nat_digits b \<Longrightarrow> a = b"
  using nat_digits_props by metis

lemma l2book_key_inj:
  assumes "l2book_key fmt d h c = l2book_key fmt d' h' c'" "CHR ''/'' \<notin> set (fmt d)" "CHR ''/'' \<notin> set (fmt d')"
  shows "fmt d = fmt d' \<and> h = h' \<and> c = c'"
proof -
  let ?rest = "\<lambda>h c. nat_digits h @ CHR ''/'' # (''l2Book/'' @ c @ ''.lz4'')"
  from assms(1) have "fmt d @ CHR ''/'' # ?rest h c = fmt d' @ CHR ''/'' # ?rest h' c'" by (simp add: l2book_key_def)
  from slash_split [OF this assms(2,3)] have "fmt d = fmt d'" "?rest h c = ?rest h' c'" .
  with slash_split [OF this(2) digits_no_slash digits_no_slash] nat_digits_inj show ?thesis by auto
qed

lemma strip_plus_digits: "parse_u32 (nat_digits n) = (if n < 2 ^ 32 then Some n else None)"
proof -
  have d: "nat_digits n \<noteq> []" "list_all is_digit (nat_digits n)" "digits_val (nat_digits n) = n"
    using nat_digits_props [of n] by auto
  then obtain c r where c: "nat_digits n = c # r" "is_digit c" by (cases "nat_digits n") auto
  moreover from c(2) have "c \<noteq> CHR ''+''" by (auto simp: is_digit_def Let_def)
  ultimately show ?thesis using d by (simp add: parse_u32_def)
qed

lemma parse_l2book_key_roundtrip:
  assumes "CHR ''/'' \<notin> set (fmt d)" "CHR ''/'' \<notin> set c" "h < 2 ^ 32"
  shows "parse_l2book_key (l2book_key fmt d h c) = Some (h, c)"
proof -
  have "l2book_key fmt d h c = ''market_data'' @ CHR ''/'' # fmt d @ CHR ''/'' # nat_digits h @ CHR ''/'' # ''l2Book''
      @ CHR ''/'' # (c @ ''.lz4'')" by (simp add: l2book_key_def)
  moreover have "CHR ''/'' \<notin> set ''market_data''" "CHR ''/'' \<notin> set ''l2Book''" "CHR ''/'' \<notin> set (c @ ''.lz4'')"
    using assms(2) by simp_all
  ultimately have "split_on CHR ''/'' (l2book_key fmt d h c) = [''market_data'', fmt d, nat_digits h, ''l2Book'', c @ ''.lz4'']"
    using assms(1) digits_no_slash [of h] by (simp only: split_on_append split_on_no_sep not_False_eq_True)
  then show ?thesis using assms(3) by (simp add: parse_l2book_key_def strip_plus_digits strip_suffix_append)
qed

text \<open>Without a list of coins the plan holds the key of every book object that the store lists.\<close>

lemma plan_days_covers:
  assumes "plan_days fmt lst want_ctx dates p = Ok plan" "d \<in> set dates" "lst (''market_data/'' @ fmt d @ ''/'') = Ok objs"
    and "m \<in> set objs" "parse_l2book_key (om_key m) = Some (h, c)"
  shows "l2book_key fmt d h c \<in> set (wp_keys plan)"
proof -
  have keeps: "plan_days fmt lst want_ctx dates p = Ok plan \<Longrightarrow> set (wp_keys p) \<subseteq> set (wp_keys plan)" for dates p
    by (induction dates arbitrary: p) (fastforce simp: plan_day_def Let_def split: result.splits)+
  have "(h, c) \<in> set (List.map_filter (parse_l2book_key \<circ> om_key) objs)"
    using assms(4,5) by (force simp: map_filter_def)
  then have here: "l2book_key fmt d h c \<in> set (wp_keys (plan_day fmt want_ctx d objs p))" for p
    by (force simp: plan_day_def Let_def)
  show ?thesis using assms(1,2)
  proof (induction dates arbitrary: p)
    case (Cons d' dates)
    show ?case
    proof (cases "d' = d")
      case True
      with Cons.prems(1) assms(3) have "plan_days fmt lst want_ctx dates (plan_day fmt want_ctx d objs p) = Ok plan" by simp
      from keeps [OF this] here show ?thesis by blast
    next
      case False
      with Cons show ?thesis by (auto split: result.splits)
    qed
  qed simp
qed

definition day_names :: "(nat \<Rightarrow> string) \<Rightarrow> entrepot_window \<Rightarrow> bool" where
  "day_names fmt w \<longleftrightarrow> inj_on fmt (set (window_days w)) \<and> (\<forall>d \<in> set (window_days w). CHR ''/'' \<notin> set (fmt d))"

lemma distinct_concat_map:
  assumes "distinct xs" "\<forall>x \<in> set xs. distinct (f x)"
    and "\<forall>x \<in> set xs. \<forall>y \<in> set xs. x \<noteq> y \<longrightarrow> set (f x) \<inter> set (f y) = {}"
  shows "distinct (concat (map f xs))"
  using assms by (induction xs) (auto 0 3)

lemma day_book_keys_product:
  "day_book_keys fmt coins d = map (\<lambda>(h, c). l2book_key fmt d h c) (List.product [0..<24] coins)"
  unfolding day_book_keys_def by (induction "[0..<24 :: nat]") (simp_all add: product_concat_map map_concat comp_def)

lemma day_book_keys_distinct:
  assumes "distinct coins" "CHR ''/'' \<notin> set (fmt d)"
  shows "distinct (day_book_keys fmt coins d)"
proof -
  have "inj_on (\<lambda>(h, c). l2book_key fmt d h c) (set (List.product [0..<24] coins))"
    by (rule inj_onI, clarify) (use l2book_key_inj assms(2) in blast)
  then show ?thesis unfolding day_book_keys_product using assms(1) by (simp add: distinct_map distinct_product)
qed

lemma asset_ctxs_key_inj: "asset_ctxs_key fmt d = asset_ctxs_key fmt d' \<Longrightarrow> fmt d = fmt d'"
  by (simp add: asset_ctxs_key_def)

lemma asset_ctxs_not_l2book: "asset_ctxs_key fmt d \<noteq> l2book_key fmt d' h c"
  by (simp add: asset_ctxs_key_def l2book_key_def)

lemma day_book_keysE:
  assumes "k \<in> set (day_book_keys fmt coins d)"
  obtains h c where "k = l2book_key fmt d h c"
  using assms unfolding day_book_keys_def by auto

lemma planned_keys_distinct:
  assumes "day_names fmt w" "distinct (ew_coins w)"
  shows "distinct (planned_keys fmt w want_ctx)"
  unfolding planned_keys_def
proof (rule distinct_concat_map)
  let ?day = "\<lambda>d. (if want_ctx then [asset_ctxs_key fmt d] else []) @ day_book_keys fmt (ew_coins w) d"
  have no: "asset_ctxs_key fmt d \<notin> set (day_book_keys fmt (ew_coins w) d')" for d d'
    using asset_ctxs_not_l2book by (metis day_book_keysE)
  show "distinct (window_days w)" by (simp add: window_days_def)
  show "\<forall>d \<in> set (window_days w). distinct (?day d)"
  proof
    fix d assume "d \<in> set (window_days w)"
    with assms(1) have "CHR ''/'' \<notin> set (fmt d)" unfolding day_names_def by blast
    from day_book_keys_distinct [OF assms(2), of fmt, OF this] no show "distinct (?day d)" by simp
  qed
  have same: "d = d'" if k: "k \<in> set (?day d)" "k \<in> set (?day d')" and d: "d \<in> set (window_days w)" "d' \<in> set (window_days w)" for k d d'
  proof -
    from assms(1) d have n: "CHR ''/'' \<notin> set (fmt d)" "CHR ''/'' \<notin> set (fmt d')" unfolding day_names_def by blast+
    have "fmt d = fmt d'"
    proof (cases "k \<in> set (day_book_keys fmt (ew_coins w) d)")
      case True
      with k no have "k \<in> set (day_book_keys fmt (ew_coins w) d')" by (auto split: if_splits)
      with True l2book_key_inj [OF _ n] show ?thesis by (metis day_book_keysE)
    next
      case False
      with k(1) have "k = asset_ctxs_key fmt d" by (auto split: if_splits)
      with k(2) no asset_ctxs_key_inj show ?thesis by (auto split: if_splits)
    qed
    with assms(1) d show ?thesis unfolding day_names_def by (blast dest: inj_onD)
  qed
  show "\<forall>d \<in> set (window_days w). \<forall>d' \<in> set (window_days w). d \<noteq> d' \<longrightarrow> set (?day d) \<inter> set (?day d') = {}"
    using same by blast
qed

lemma planned_keys_trimmed: "k \<in> set (planned_keys fmt w want_ctx) \<Longrightarrow> k \<noteq> [] \<and> trim k = k"
  by (auto simp: planned_keys_def day_book_keys_def l2book_key_def asset_ctxs_key_def is_space_def intro!: trim_id
      split: if_splits)

text \<open>
  C15: an archive replay can be stopped anywhere and resumed.  Whatever ends the first session (a
  shutdown, a failed fetch, a receiver that goes away), there is a position in the plan such that it
  sent exactly the events of the objects before it, in order and numbered from one, and at most a
  part of the next object's; a second session that is not disturbed starts at that position, sends
  exactly the rest and ends as exhausted.  Only a receiver that went away makes an object repeat.
\<close>

theorem interrupted_replay_resumes:
  assumes "day_names fmt w" "distinct (ew_coins w)" "ew_coins w \<noteq> []"
    and "\<forall>k. ar_cursor_ok A1 k" "\<forall>k. ar_cursor_ok A2 k" "sent tx1 = []" "sent tx2 = []" "closes_after tx2 = None"
    and "\<forall>k. \<not> ar_shutdown A2 k" "\<forall>k e. ar_fetch A2 k = Err e \<longrightarrow> skipped_error e"
    and "replay_task D fmt parse_day lst1 w declared True A1 (replay_start tx1 m1 None) = (exit1, s1)"
    and "replay_task D fmt parse_day lst2 w declared True A2 (replay_start tx2 m2 (ry_cursor s1)) = (exit2, s2)"
  shows "\<exists>i part. let keys = planned_keys fmt w (DtFundingRates \<in> set declared \<or> DtOpenInterest \<in> set declared);
                     ev = key_events D (ew_coins w) declared in
     i \<le> length keys
   \<and> sent (ry_tx s1) = stamped 0 (concat (map (ev A1) (take i keys)) @ part)
   \<and> (closes_after tx1 = None \<or> i = length keys \<longrightarrow> part = []) \<and> (i < length keys \<longrightarrow> prefix part (ev A1 (keys ! i)))
   \<and> (exit1 = TaskExhausted \<longleftrightarrow> i = length keys)
   \<and> exit2 = TaskExhausted \<and> sent (ry_tx s2) = stamped 0 (concat (map (ev A2) (drop i keys)))"
proof -
  define keys where "keys = planned_keys fmt w (DtFundingRates \<in> set declared \<or> DtOpenInterest \<in> set declared)"
  define R where "R lst = \<lparr>rc_coins = ew_coins w, rc_declared = declared, rc_etags = [], rc_edge = probe_edge fmt lst w,
      rc_has_cursor = True\<rparr>" for lst
  have task: "replay_task D fmt parse_day lst w declared True A s =
      replay_loop D parse_day (R lst) A (drop (resume_index (ry_cursor s) keys) keys) s" for lst A s
    using assms(3) by (simp add: replay_task_def Let_def enumerate_window_def replay_plan_def R_def keys_def)
  have one: "replay_loop D parse_day (R lst1) A1 keys (replay_start tx1 m1 None) = (exit1, s1)"
    using assms(11) by (simp add: task replay_start_def resume_index_def)
  obtain i where i: "session_at (key_events D (ew_coins w) declared A1) keys (replay_start tx1 m1 None) i s1"
      "exit1 = TaskExhausted \<longleftrightarrow> i = length keys"
    using replay_loop_session [of "R lst1" keys A1 D "replay_start tx1 m1 None" parse_day] assms(4) one by (auto simp: R_def)
  have at: "i \<le> length keys" "ry_cursor s1 = (if i = 0 then None else Some (keys ! (i - 1)))"
    using i(1) by (simp_all add: session_at_def replay_start_def)
  have "distinct keys" "\<forall>k \<in> set keys. k \<noteq> [] \<and> trim k = k"
    using planned_keys_distinct [OF assms(1,2)] planned_keys_trimmed by (auto simp: keys_def)
  from resume_behind [OF this at] have "resume_index (ry_cursor s1) keys = i" .
  with assms(12) have two: "replay_loop D parse_day (R lst2) A2 (drop i keys) (replay_start tx2 m2 (ry_cursor s1)) = (exit2, s2)"
    by (simp add: task replay_start_def)
  have x2: "exit2 = TaskExhausted"
    using replay_loop_exhausts [of "replay_start tx2 m2 (ry_cursor s1)" "drop i keys" A2 D parse_day "R lst2"] assms(8-10) two
    by (simp add: replay_start_def)
  with replay_loop_session [of "R lst2" "drop i keys" A2 D "replay_start tx2 m2 (ry_cursor s1)" parse_day] assms(5) two
  have "session_at (key_events D (ew_coins w) declared A2) (drop i keys) (replay_start tx2 m2 (ry_cursor s1)) (length (drop i keys)) s2"
    by (auto simp: R_def)
  then have "sent (ry_tx s2) = stamped 0 (concat (map (key_events D (ew_coins w) declared A2) (drop i keys)))"
    using assms(7) by (auto simp: session_at_def replay_start_def)
  moreover obtain part where "sent (ry_tx s1) = stamped 0 (concat (map (key_events D (ew_coins w) declared A1) (take i keys)) @ part)"
      "closes_after tx1 = None \<or> i = length keys \<longrightarrow> part = []"
      "i < length keys \<longrightarrow> prefix part (key_events D (ew_coins w) declared A1 (keys ! i))"
    using i(1) assms(6) by (auto simp: session_at_def replay_start_def)
  ultimately show ?thesis
    unfolding Let_def keys_def [symmetric] using at(1) i(2) x2 by blast
qed

text \<open>An archive with an object for each of the first two hours; with the flag set the session is shut down at the second.\<close>

definition sample_window :: entrepot_window where
  "sample_window = \<lparr>ew_start = 0, ew_end = 0, ew_coins = [''BTC'']\<rparr>"

definition sample_archive :: "bool \<Rightarrow> xdec archive" where
  "sample_archive stop =
     \<lparr>ar_fetch = (\<lambda>key. if key \<in> {l2book_key nat_digits 0 0 ''BTC'', l2book_key nat_digits 0 1 ''BTC''}
                       then Ok \<lparr>ao_bytes = [], ao_etag = None\<rparr> else Err (ErrStatus 404 key [])),
      ar_decode = (\<lambda>key _. Ok [key]),
      ar_decode_line = (\<lambda>line. Ok \<lparr>dl_events = [ConnectionGap 7], dl_local_ts_us = Some 9\<rparr>),
      ar_rfc3339 = (\<lambda>_. None), ar_now_us = (\<lambda>_ _. 0),
      ar_shutdown = (\<lambda>key. stop \<and> key = l2book_key nat_digits 0 1 ''BTC''),
      ar_cursor_ok = (\<lambda>_. True), ar_error_text = (\<lambda>_. [])\<rparr>"

definition sample_session :: "xdec decimal_ops \<Rightarrow> bool \<Rightarrow> string option \<Rightarrow> task_exit \<times> xdec replay_run" where
  "sample_session D stop cursor =
     replay_task D nat_digits (\<lambda>_. None) (\<lambda>_. Ok []) sample_window [DtOrderbook] True (sample_archive stop)
       (replay_start \<lparr>sent = [], closes_after = None\<rparr> metrics_default cursor)"

theorem interrupted_replay_resumes_witness:
  "\<exists>i. sent (ry_tx (snd (sample_session exact_decimal True None)))
         = stamped 0 (concat (map (key_events exact_decimal [''BTC''] [DtOrderbook] (sample_archive True))
             (take i (planned_keys nat_digits sample_window False))))
     \<and> fst (sample_session exact_decimal False (ry_cursor (snd (sample_session exact_decimal True None)))) = TaskExhausted
     \<and> sent (ry_tx (snd (sample_session exact_decimal False (ry_cursor (snd (sample_session exact_decimal True None))))))
         = stamped 0 (concat (map (key_events exact_decimal [''BTC''] [DtOrderbook] (sample_archive False))
             (drop i (planned_keys nat_digits sample_window False))))"
proof -
  let ?first = "sample_session exact_decimal True None"
  let ?tx = "\<lparr>sent = [], closes_after = None\<rparr> :: xdec domain_event sender"
  have names: "day_names nat_digits sample_window"
    using nat_digits_inj digits_no_slash by (auto simp: day_names_def inj_on_def)
  have coins: "distinct (ew_coins sample_window)" "ew_coins sample_window \<noteq> []" "ew_coins sample_window = [''BTC'']"
    by (simp_all add: sample_window_def)
  have archive: "\<forall>k. ar_cursor_ok (sample_archive b) k" "\<forall>k. \<not> ar_shutdown (sample_archive False) k"
      "\<forall>k e. ar_fetch (sample_archive False) k = Err e \<longrightarrow> skipped_error e" for b
    by (auto simp: sample_archive_def skipped_error_def split: if_splits)
  have run: "replay_task exact_decimal nat_digits (\<lambda>_. None) (\<lambda>_. Ok []) sample_window [DtOrderbook] True (sample_archive b)
        (replay_start ?tx metrics_default c) = (fst (sample_session exact_decimal b c), snd (sample_session exact_decimal b c))"
    for b c by (simp add: sample_session_def)
  have tx: "sent ?tx = []" "closes_after ?tx = None" by simp_all
  from interrupted_replay_resumes [OF names coins(1,2) archive(1) archive(1) tx(1) tx(1) tx(2) archive(2,3)
      run run]
  show ?thesis by (auto simp: Let_def coins(3))
qed

end
