(* ===== verification/Venue.thy ===== *)
theory Venue
  imports Driver Reconcile "HOL-Library.Char_ord" "HOL-Library.List_Lexorder"
begin

text \<open>
  What the venue adapters share: JSON values as \<open>serde_json\<close> holds and prints them, the venue profile
  and the boot checks of the adapter registry (\<open>framework/registry.rs\<close>, \<open>framework/budget.rs\<close>), and
  the contract of a trade normaliser.

  Parsing a text into a JSON value or into one of the venue's message types is the \<open>serde\<close> crates';
  the adapters take these parsers as arguments.  A normaliser gets the shared counters and returns
  them with the events of a message.
\<close>

section \<open>JSON\<close>

datatype json =
    JNull
  | JBool bool
  | JInt int
  | JFloat f64
  | JStr string
  | JArr "json list"
  | JObj "(string \<times> json) list"

fun json_get :: "json \<Rightarrow> string \<Rightarrow> json option" where
  "json_get (JObj fs) key = map_of fs key"
| "json_get _ key = None"

fun as_str :: "json \<Rightarrow> string option" where
  "as_str (JStr s) = Some s"
| "as_str _ = None"

fun as_bool :: "json \<Rightarrow> bool option" where
  "as_bool (JBool b) = Some b"
| "as_bool _ = None"

fun as_u64 :: "json \<Rightarrow> u64 option" where
  "as_u64 (JInt n) = (if 0 \<le> n \<and> n < 2 ^ 64 then Some (of_int n) else None)"
| "as_u64 _ = None"

fun as_i64 :: "json \<Rightarrow> i64 option" where
  "as_i64 (JInt n) = (if - (2 ^ 63) \<le> n \<and> n < 2 ^ 63 then Some n else None)"
| "as_i64 _ = None"

fun as_array :: "json \<Rightarrow> json list option" where
  "as_array (JArr xs) = Some xs"
| "as_array _ = None"

fun is_object :: "json \<Rightarrow> bool" where
  "is_object (JObj _) = True"
| "is_object _ = False"

definition get_str :: "json \<Rightarrow> string \<Rightarrow> string option" where
  "get_str v key = Option.bind (json_get v key) as_str"

text \<open>Printing: compact, the fields of an object in the order of their names (a \<open>BTreeMap\<close>).\<close>

definition lower_hex_digit :: "nat \<Rightarrow> char" where
  "lower_hex_digit n = (if n < 10 then char_of (48 + n) else char_of (87 + n))"

definition json_escape :: "char \<Rightarrow> string" where
  "json_escape c =
     (let n = of_char c :: nat in
      if n = 0x22 then [CHR 0x5C, CHR 0x22] else if n = 0x5C then [CHR 0x5C, CHR 0x5C]
      else if n = 0x08 then [CHR 0x5C, CHR ''b''] else if n = 0x0C then [CHR 0x5C, CHR ''f'']
      else if n = 0x0A then [CHR 0x5C, CHR ''n''] else if n = 0x0D then [CHR 0x5C, CHR ''r'']
      else if n = 0x09 then [CHR 0x5C, CHR ''t'']
      else if n < 0x20 then [CHR 0x5C, CHR ''u'', CHR ''0'', CHR ''0'', lower_hex_digit (n div 16), lower_hex_digit (n mod 16)]
      else [c])"

definition json_string :: "string \<Rightarrow> string" where
  "json_string s = [CHR 0x22] @ concat (map json_escape s) @ [CHR 0x22]"

definition int_string :: "int \<Rightarrow> string" where
  "int_string n = (if n < 0 then CHR ''-'' # nat_digits (nat (- n)) else nat_digits (nat n))"

text \<open>\<open>show\<close> prints a floating-point number.\<close>

fun json_to_string :: "(f64 \<Rightarrow> string) \<Rightarrow> json \<Rightarrow> string" where
  "json_to_string show JNull = ''null''"
| "json_to_string show (JBool b) = (if b then ''true'' else ''false'')"
| "json_to_string show (JInt n) = int_string n"
| "json_to_string show (JFloat x) = show x"
| "json_to_string show (JStr s) = json_string s"
| "json_to_string show (JArr xs) = ''['' @ join '','' (map (json_to_string show) xs) @ '']''"
| "json_to_string show (JObj fs) =
     [CHR 0x7B] @ join '','' (map snd (sort_key fst (map (\<lambda>(k, v). (k, json_string k @ '':'' @ json_to_string show v)) fs))) @ [CHR 0x7D]"

text \<open>A frame to send; the frames of the adapters hold no floating-point number.\<close>

definition frame_text :: "json \<Rightarrow> message" where
  "frame_text v = MText (json_to_string (\<lambda>_. []) v)"

fun message_text :: "message \<Rightarrow> string option" where
  "message_text (MText t) = Some t"
| "message_text _ = None"

definition preview_frames :: "message list \<Rightarrow> string list" where
  "preview_frames ms = List.map_filter message_text ms"

text \<open>The quoted name of a field, which the acknowledgement checks look for in the raw text.\<close>

definition quoted :: "string \<Rightarrow> string" where
  "quoted s = [CHR 0x22] @ s @ [CHR 0x22]"

section \<open>Venue profiles\<close>

record rate_window =
  rw_max :: u32
  rw_per :: duration

record connection_budget =
  bg_max_connections :: "u32 option"
  bg_max_streams_per_socket :: "u32 option"
  bg_subscribe_rate :: "rate_window list"
  bg_connect_attempt_rate :: "rate_window option"
  bg_connection_lifetime :: "duration option"

definition budget_default :: connection_budget where
  "budget_default =
     \<lparr>bg_max_connections = None, bg_max_streams_per_socket = None, bg_subscribe_rate = [], bg_connect_attempt_rate = None,
      bg_connection_lifetime = None\<rparr>"

record exchange_profile =
  xp_id :: string
  xp_symbol_codec :: symbol_codec
  xp_budget :: connection_budget
  xp_schema_version :: u32
  xp_protocol_revision :: string

datatype venue_environment = Production | Testnet

fun environment_name :: "venue_environment \<Rightarrow> string" where
  "environment_name Production = ''production''"
| "environment_name Testnet = ''testnet''"

section \<open>Adapters\<close>

text \<open>
  An adapter: its declarations and the three parts that \<open>spawn\<close> hands to the drive loop (protocol
  hooks, decoder, normaliser).
\<close>

record ('ev, 'd) venue_adapter =
  va_profile :: exchange_profile
  va_book_model :: reconstruction_model
  va_supported_datatypes :: "declared_datatype list"
  va_resubscribe_replays_trades :: bool
  va_max_declared_depth :: "nat option"
  va_supports_environment :: "venue_environment \<Rightarrow> bool"
  va_has_rest_seeder :: bool
  va_hooks :: protocol_hooks
  va_decode :: "string \<Rightarrow> ('ev option, string) result"
  va_normalize :: "'ev \<Rightarrow> source_metrics \<Rightarrow> 'd domain_event list \<times> source_metrics"

text \<open>The default methods of the trait.\<close>

definition default_adapter ::
  "exchange_profile \<Rightarrow> reconstruction_model \<Rightarrow> protocol_hooks \<Rightarrow> (string \<Rightarrow> ('ev option, string) result)
     \<Rightarrow> ('ev \<Rightarrow> source_metrics \<Rightarrow> 'd domain_event list \<times> source_metrics) \<Rightarrow> ('ev, 'd) venue_adapter"
where
  "default_adapter profile model hooks decode nrm =
     \<lparr>va_profile = profile, va_book_model = model, va_supported_datatypes = [DtOrderbook, DtTrades],
      va_resubscribe_replays_trades = False, va_max_declared_depth = None,
      va_supports_environment = (\<lambda>env. env = Production), va_has_rest_seeder = False,
      va_hooks = hooks, va_decode = decode, va_normalize = nrm\<rparr>"

definition subscribe_frames_preview :: "('ev, 'd) venue_adapter \<Rightarrow> string list \<Rightarrow> declared_datatype list \<Rightarrow> string list" where
  "subscribe_frames_preview A symbols declared = preview_frames (ph_subscribe_frames (va_hooks A) symbols declared)"

definition replay_frame :: "('ev, 'd) venue_adapter \<Rightarrow> string \<Rightarrow> ('d domain_event list, string) result" where
  "replay_frame A raw =
     (case va_decode A raw of
        Err e \<Rightarrow> Err e
      | Ok (Some event) \<Rightarrow> Ok (fst (va_normalize A event metrics_default))
      | Ok None \<Rightarrow> Ok [])"

definition plain_profile :: "string \<Rightarrow> symbol_codec \<Rightarrow> connection_budget \<Rightarrow> string \<Rightarrow> exchange_profile" where
  "plain_profile venue codec budget revision =
     \<lparr>xp_id = venue, xp_symbol_codec = codec, xp_budget = budget, xp_schema_version = 1, xp_protocol_revision = revision\<rparr>"

definition secs :: "nat \<Rightarrow> duration" where
  "secs n = n * 10 ^ 9"

text \<open>The \<open>serde\<close> parsers of a venue: into a value, and from a value or a text into its two kinds of messages.\<close>

record ('b, 't) value_serde =
  vs_value :: "string \<Rightarrow> (json, string) result"
  vs_book :: "json \<Rightarrow> ('b, string) result"
  vs_trade :: "json \<Rightarrow> ('t, string) result"

record ('b, 't) text_serde =
  tx_value :: "string \<Rightarrow> (json, string) result"
  tx_book :: "string \<Rightarrow> ('b, string) result"
  tx_trade :: "string \<Rightarrow> ('t, string) result"

definition decoded :: "('m, string) result \<Rightarrow> ('m \<Rightarrow> 'ev) \<Rightarrow> ('ev option, string) result" where
  "decoded r wrap = (case r of Err e \<Rightarrow> Err e | Ok m \<Rightarrow> Ok (Some (wrap m)))"

definition decoded_or_skip :: "('m, string) result \<Rightarrow> ('m \<Rightarrow> 'ev) \<Rightarrow> ('ev option, string) result" where
  "decoded_or_skip r wrap = (case r of Err _ \<Rightarrow> Ok None | Ok m \<Rightarrow> Ok (Some (wrap m)))"

text \<open>A print taken off a live stream.\<close>

definition ws_trade ::
  "u64 \<Rightarrow> trading_pair \<Rightarrow> trade_side \<Rightarrow> 'd \<Rightarrow> 'd \<Rightarrow> string \<Rightarrow> string \<Rightarrow> 'd trade"
where
  "ws_trade ts_us pair side amount price venue tid =
     \<lparr>source_trade_ts_us = ts_us, local_trade_ts_us = 0, source_trade_rtt_us = 0, tr_pair = pair, tr_side = side,
      tr_amount = amount, tr_price = price, tr_exchange = venue, tr_id = tid, tr_origin = Ws\<rparr>"

definition drop_frame :: "source_metrics \<Rightarrow> 'a option \<times> source_metrics" where
  "drop_frame m = (None, add_dropped_frames 1 m)"

text \<open>Both decimals of a print.\<close>

definition parse_pair :: "'d decimal_ops \<Rightarrow> string \<Rightarrow> string \<Rightarrow> ('d \<times> 'd) option" where
  "parse_pair D amount price =
     (case (dec_from_str D amount, dec_from_str D price) of (Ok a, Ok p) \<Rightarrow> Some (a, p) | _ \<Rightarrow> None)"

definition book_delta ::
  "string \<Rightarrow> (string \<times> string) list \<Rightarrow> (string \<times> string) list \<Rightarrow> u64 \<Rightarrow> u64 \<Rightarrow> u64 \<Rightarrow> bool \<Rightarrow> normalized_delta"
where
  "book_delta symbol bids asks update_id sequence ts_us is_snapshot =
     \<lparr>nd_symbol = symbol, nd_bids = bids, nd_asks = asks, nd_update_id = update_id, nd_sequence = sequence,
      nd_source_ts_us = ts_us, nd_local_ts_us = 0, nd_rtt_us = 0, nd_checksum = None, nd_orders = [],
      nd_is_snapshot = is_snapshot\<rparr>"

section \<open>Boot checks\<close>

definition register_all :: "string list" where
  "register_all =
     [''binance'', ''okx'', ''upbit'', ''htx'', ''kucoin'', ''bitso'', ''bybit'', ''coinbase'', ''kraken'', ''gateio'', ''bitget'',
      ''poloniex'', ''hyperliquid'']"

definition resolve :: "string list \<Rightarrow> (unit, string list) result" where
  "resolve ids =
     (let missing = filter (\<lambda>x. x \<notin> set register_all) ids in if missing = [] then Ok () else Err missing)"

definition apostrophed :: "string \<Rightarrow> string" where
  "apostrophed s = [CHR 0x27] @ s @ [CHR 0x27]"

definition em_dash :: string where
  "em_dash = [CHR 0xE2, CHR 0x80, CHR 0x94]"

definition admit_declared_depth :: "string \<Rightarrow> nat option \<Rightarrow> bool \<Rightarrow> nat \<Rightarrow> (unit, string) result" where
  "admit_declared_depth venue cap orderbook_enabled declared =
     (if \<not> orderbook_enabled then Ok ()
      else case cap of
             Some cap \<Rightarrow>
               if declared > cap then
                 Err (''venue '' @ apostrophed venue @ '' delivers at most '' @ nat_digits cap
                        @ '' book levels but this worker asks for depth '' @ nat_digits declared @ '' '' @ em_dash
                        @ '' set `[collect.datatypes.orderbook] depth` to '' @ nat_digits cap
                        @ '' or less (an omitted depth defaults to 50)'')
               else Ok ()
           | None \<Rightarrow> Ok ())"

definition admit_environment :: "string \<Rightarrow> bool \<Rightarrow> venue_environment \<Rightarrow> (unit, string) result" where
  "admit_environment venue supported environment =
     (if supported then Ok ()
      else
      Err (''venue '' @ apostrophed venue @ '' has no '' @ environment_name environment @ '' endpoint '' @ em_dash
             @ '' remove `environment = '' @ quoted (environment_name environment)
             @ ''` rather than collecting production data under a '' @ environment_name environment @ '' label''))"

section \<open>Trade normalisers\<close>

text \<open>\<open>filter_map\<close> over a batch with the shared counters threaded through.\<close>

fun normalize_batch ::
  "('p \<Rightarrow> source_metrics \<Rightarrow> 'd domain_event option \<times> source_metrics) \<Rightarrow> 'p list \<Rightarrow> source_metrics
     \<Rightarrow> 'd domain_event list \<times> source_metrics"
where
  "normalize_batch nrm [] m = ([], m)"
| "normalize_batch nrm (p # ps) m =
     (case nrm p m of
        (ev, m) \<Rightarrow>
          (case normalize_batch nrm ps m of
             (evs, m) \<Rightarrow> ((case ev of Some e \<Rightarrow> e # evs | None \<Rightarrow> evs), m)))"

fun is_trade_of :: "string \<Rightarrow> 'd domain_event \<Rightarrow> bool" where
  "is_trade_of venue (TradeEv t _) \<longleftrightarrow> tr_exchange t = venue \<and> tr_origin t = Ws"
| "is_trade_of venue _ \<longleftrightarrow> False"

definition add_drops :: "nat \<Rightarrow> source_metrics \<Rightarrow> source_metrics" where
  "add_drops n m = (add_dropped_frames 1 ^^ n) m"

lemma drop_frame_simps [simp]: "drop_frame m = (None, m') \<longleftrightarrow> m' = add_dropped_frames 1 m" "drop_frame m \<noteq> (Some e, m')"
    "fst (drop_frame m) = None"
  by (auto simp: drop_frame_def)

lemma ws_trade_simps [simp]: "tr_exchange (ws_trade ts pair side a p venue i) = venue" "tr_origin (ws_trade ts pair side a p venue i) = Ws"
  by (simp_all add: ws_trade_def)

text \<open>
  The contract: a print becomes one trade of the venue and leaves the counters alone, or it becomes
  nothing and is counted as one dropped frame.
\<close>

locale trade_normaliser =
  fixes nrm :: "'p \<Rightarrow> source_metrics \<Rightarrow> 'd domain_event option \<times> source_metrics"
    and venue :: string
  assumes kept: "nrm p m = (Some e, m') \<Longrightarrow> is_trade_of venue e \<and> m' = m"
    and dropped: "nrm p m = (None, m') \<Longrightarrow> m' = add_dropped_frames 1 m"
    and blind: "fst (nrm p m) = fst (nrm p n)"
begin

lemma batch_accounts:
  "\<exists>k. normalize_batch nrm ps m = (List.map_filter (\<lambda>p. fst (nrm p n)) ps, add_drops k m)
     \<and> length (List.map_filter (\<lambda>p. fst (nrm p n)) ps) + k = length ps
     \<and> list_all (is_trade_of venue) (List.map_filter (\<lambda>p. fst (nrm p n)) ps)"
proof (induction ps arbitrary: m)
  case Nil
  then show ?case by (intro exI [of _ 0]) (simp add: map_filter_def add_drops_def)
next
  case (Cons p ps)
  obtain ev m1 where p: "nrm p m = (ev, m1)" by fastforce
  then have ev: "fst (nrm p n) = ev" using blind [of p n m] by simp
  obtain k where k: "normalize_batch nrm ps m1 = (List.map_filter (\<lambda>p. fst (nrm p n)) ps, add_drops k m1)"
      "length (List.map_filter (\<lambda>p. fst (nrm p n)) ps) + k = length ps"
      "list_all (is_trade_of venue) (List.map_filter (\<lambda>p. fst (nrm p n)) ps)" using Cons.IH by blast
  show ?case
  proof (cases ev)
    case None
    with p have "m1 = add_dropped_frames 1 m" by (simp add: dropped)
    with None p ev k show ?thesis by (intro exI [of _ "Suc k"]) (simp add: map_filter_simps add_drops_def funpow_swap1)
  next
    case (Some e)
    with p have "is_trade_of venue e" "m1 = m" by (simp_all add: kept)
    with Some p ev k show ?thesis by (intro exI [of _ k]) (simp add: map_filter_simps)
  qed
qed

end

end
