(* ===== verification/Venue_Spot.thy ===== *)
theory Venue_Spot
  imports Venue Gaps Sourced_Book
begin

text \<open>
  The adapters of Binance, OKX, Upbit, HTX, Bybit, Gate.io, Bitget, Poloniex and Kraken
  (\<open>framework/adapters\<close>, with the message types and decoders under \<open>sources\<close>): subscription frames,
  keep-alive, acknowledgements, decoders and the normalisers from messages to domain events.

  Each venue's \<open>serde\<close> parsers are an argument \<open>S\<close>; \<open>show_f64\<close> prints a float (\<open>f64::to_string\<close>),
  \<open>rfc3339\<close> is the timestamp parser of the \<open>chrono\<close> crate.  Where a decoder only passes on the payload
  of an envelope (a list of prints, say), the parser yields that payload.
\<close>

section \<open>Binance\<close>

record binance_depth_update =
  bd_event_type :: string
  bd_event_time :: u64
  bd_symbol :: string
  bd_first_update_id :: u64
  bd_last_update_id :: u64
  bd_bids :: "(string \<times> string) list"
  bd_asks :: "(string \<times> string) list"

record binance_depth_snapshot =
  bsn_last_update_id :: u64
  bsn_bids :: "(string \<times> string) list"
  bsn_asks :: "(string \<times> string) list"

record binance_trade_data =
  bt_event_type :: string
  bt_event_time :: u64
  bt_symbol :: string
  bt_trade_id :: u64
  bt_price :: string
  bt_quantity :: string
  bt_trade_time :: u64
  bt_is_buyer_maker :: bool

datatype binance_event =
    BinanceDepth binance_depth_update
  | BinanceSnapshot binance_depth_snapshot
  | BinanceTrade binance_trade_data

definition binance_depth_to_normalized :: "binance_depth_update \<Rightarrow> normalized_delta" where
  "binance_depth_to_normalized d =
     book_delta (bd_symbol d) (bd_bids d) (bd_asks d) (bd_last_update_id d) (bd_first_update_id d)
       (epoch_to_us (bd_event_time d)) False"

definition binance_snapshot_to_normalized :: "string \<Rightarrow> binance_depth_snapshot \<Rightarrow> normalized_delta" where
  "binance_snapshot_to_normalized symbol s =
     book_delta symbol (bsn_bids s) (bsn_asks s) (bsn_last_update_id s) (bsn_last_update_id s) 0 True"

definition taker_side :: "binance_trade_data \<Rightarrow> string" where
  "taker_side t = (if bt_is_buyer_maker t then ''sell'' else ''buy'')"

definition binance_decode ::
  "(binance_depth_update, binance_trade_data) value_serde \<Rightarrow> string \<Rightarrow> (binance_event option, string) result"
where
  "binance_decode S text =
     result_bind (vs_value S text) (\<lambda>v.
       case get_str v ''e'' of
         None \<Rightarrow> Ok None
       | Some event_type \<Rightarrow>
           if event_type = ''depthUpdate'' then decoded (vs_book S v) BinanceDepth
           else if event_type = ''trade'' then decoded (vs_trade S v) BinanceTrade
           else Ok None)"

definition BINANCE_CODEC :: symbol_codec where
  "BINANCE_CODEC = Concat True"

definition binance_subscribe_frames :: "string list \<Rightarrow> declared_datatype list \<Rightarrow> message list" where
  "binance_subscribe_frames symbols declared =
     (let params = concat (map (\<lambda>s.
            (if DtOrderbook \<in> set declared then [JStr (to_lowercase s @ ''@depth@100ms'')] else [])
            @ (if DtTrades \<in> set declared then [JStr (to_lowercase s @ ''@trade'')] else [])) symbols)
      in if params = [] then []
         else [frame_text (JObj [(''method'', JStr ''SUBSCRIBE''), (''params'', JArr params), (''id'', JInt 1)])])"

definition binance_classify_ack :: "(string \<Rightarrow> (json, string) result) \<Rightarrow> string \<Rightarrow> ack_outcome" where
  "binance_classify_ack parse text =
     (if \<not> (contains text (quoted ''result'') \<or> contains text (quoted ''error'')) then NotAck
      else case parse text of
             Err _ \<Rightarrow> NotAck
           | Ok v \<Rightarrow>
               if \<not> is_object v then NotAck
               else case json_get v ''error'' of
                      Some err \<Rightarrow>
                        AckRejected (Option.bind (json_get err ''code'') as_i64)
                          (unwrap_or (get_str err ''msg'') ''subscribe failed'')
                    | None \<Rightarrow>
                        if json_get v ''result'' \<noteq> None \<and> json_get v ''id'' \<noteq> None then AckAccepted else NotAck)"

definition binance_hooks :: "(string \<Rightarrow> (json, string) result) \<Rightarrow> protocol_hooks" where
  "binance_hooks parse =
     (default_hooks ''wss://stream.binance.com:9443/ws'' binance_subscribe_frames)
       \<lparr>ph_heartbeat := HbWsPong (secs 15), ph_classify_ack := binance_classify_ack parse\<rparr>"

definition binance_normalize_trade ::
  "'d decimal_ops \<Rightarrow> binance_trade_data \<Rightarrow> source_metrics \<Rightarrow> 'd domain_event option \<times> source_metrics"
where
  "binance_normalize_trade D t m =
     (case codec_decode BINANCE_CODEC (bt_symbol t) of
        None \<Rightarrow> drop_frame m
      | Some pair \<Rightarrow>
          (case parse_pair D (bt_quantity t) (bt_price t) of
             None \<Rightarrow> drop_frame m
           | Some (amount, price) \<Rightarrow>
               (case trade_side_from_str_loose (taker_side t) of
                  None \<Rightarrow> drop_frame m
                | Some side \<Rightarrow>
                    (Some (TradeEv (ws_trade (epoch_to_us (bt_trade_time t)) pair side amount price ''binance''
                        (u64_to_string (bt_trade_id t))) (Some (bt_trade_id t))), m))))"

fun binance_normalize ::
  "'d decimal_ops \<Rightarrow> binance_event \<Rightarrow> source_metrics \<Rightarrow> 'd domain_event list \<times> source_metrics"
where
  "binance_normalize D (BinanceDepth d) m = ([Book (binance_depth_to_normalized d)], m)"
| "binance_normalize D (BinanceSnapshot s) m = ([], m)"
| "binance_normalize D (BinanceTrade t) m = normalize_batch (binance_normalize_trade D) [t] m"

definition binance_adapter ::
  "'d decimal_ops \<Rightarrow> (binance_depth_update, binance_trade_data) value_serde \<Rightarrow> (binance_event, 'd) venue_adapter"
where
  "binance_adapter D S =
     (default_adapter
        (plain_profile ''binance'' BINANCE_CODEC
           (budget_default\<lparr>bg_max_connections := Some 300, bg_max_streams_per_socket := Some 1024\<rparr>) ''binance-spot-v3'')
        (SeqDelta RangeInclusive RestSnapshot) (binance_hooks (vs_value S)) (binance_decode S) (binance_normalize D))
       \<lparr>va_has_rest_seeder := True\<rparr>"

definition binance_replay_seed ::
  "(string \<Rightarrow> (binance_depth_snapshot, string) result) \<Rightarrow> string \<Rightarrow> string \<Rightarrow> (normalized_delta option, string) result"
where
  "binance_replay_seed parse raw wire_symbol =
     (case parse raw of Err e \<Rightarrow> Err e | Ok snap \<Rightarrow> Ok (Some (binance_snapshot_to_normalized wire_symbol snap)))"

text \<open>\<open>get\<close> is the HTTP exchange of the REST client for an address.\<close>

definition binance_fetch_snapshot ::
  "(string \<Rightarrow> (binance_depth_snapshot, string) result) \<Rightarrow> string \<Rightarrow> (normalized_delta, string) result"
where
  "binance_fetch_snapshot get symbol =
     (case get (''https://api.binance.com/api/v3/depth?symbol='' @ symbol @ ''&limit=5000'') of
        Err e \<Rightarrow> Err e
      | Ok snap \<Rightarrow> Ok (binance_snapshot_to_normalized symbol snap))"

section \<open>OKX\<close>

record okx_arg =
  ox_channel :: string
  ox_inst_id :: string

type_synonym okx_level = "string \<times> string \<times> string \<times> string"

record okx_orderbook_data =
  od_asks :: "okx_level list"
  od_bids :: "okx_level list"
  od_ts :: string
  od_seq_id :: i64
  od_prev_seq_id :: "i64 option"
  od_checksum :: "i64 option"

record okx_orderbook_response =
  or_arg :: okx_arg
  or_action :: "string option"
  or_data :: "okx_orderbook_data list"

record okx_trade_data =
  ot_inst_id :: string
  ot_trade_id :: string
  ot_px :: string
  ot_sz :: string
  ot_side :: string
  ot_ts :: string

datatype okx_event = OkxOrderbook okx_orderbook_response | OkxTrades "okx_trade_data list"

definition okx_ts_ms :: "string \<Rightarrow> u64" where
  "okx_ts_ms ts = unwrap_or (parse_u64 ts) 0"

definition okx_is_snapshot :: "okx_orderbook_response \<Rightarrow> bool" where
  "okx_is_snapshot r \<longleftrightarrow> or_action r = Some ''snapshot'' \<or> or_action r = None"

definition okx_decode ::
  "(okx_orderbook_response, okx_trade_data list) text_serde \<Rightarrow> string \<Rightarrow> (okx_event option, string) result"
where
  "okx_decode S text =
     (if text = ''pong'' then Ok None
      else result_bind (tx_value S text) (\<lambda>v.
        if get_str v ''event'' \<noteq> None then Ok None
        else case Option.bind (json_get v ''arg'') (\<lambda>a. get_str a ''channel'') of
               None \<Rightarrow> Ok None
             | Some ch \<Rightarrow>
                 if prefix ''books'' ch \<or> ch = ''bbo-tbt'' then decoded_or_skip (tx_book S text) OkxOrderbook
                 else if prefix ''trades'' ch then
                   (case tx_trade S text of
                      Ok data \<Rightarrow> if data = [] then Ok None else Ok (Some (OkxTrades data))
                    | Err _ \<Rightarrow> Ok None)
                 else Ok None))"

definition OKX_CODEC :: symbol_codec where
  "OKX_CODEC = Hyphen"

definition okx_subscribe_frames :: "string list \<Rightarrow> declared_datatype list \<Rightarrow> message list" where
  "okx_subscribe_frames symbols declared =
     (let args = concat (map (\<lambda>s.
            (if DtOrderbook \<in> set declared then [JObj [(''channel'', JStr ''books''), (''instId'', JStr s)]] else [])
            @ (if DtTrades \<in> set declared then [JObj [(''channel'', JStr ''trades''), (''instId'', JStr s)]] else [])) symbols)
      in if args = [] then [] else [frame_text (JObj [(''op'', JStr ''subscribe''), (''args'', JArr args)])])"

text \<open>\<open>str::parse::<i64>\<close>.\<close>

definition parse_i64 :: "string \<Rightarrow> i64 option" where
  "parse_i64 s =
     (let (neg, ds) = (case s of [] \<Rightarrow> (False, []) | c # r \<Rightarrow>
            if c = CHR ''-'' then (True, r) else if c = CHR ''+'' then (False, r) else (False, s));
          n = (if neg then - int (digits_val ds) else int (digits_val ds))
      in if ds \<noteq> [] \<and> list_all is_digit ds \<and> - (2 ^ 63) \<le> n \<and> n < 2 ^ 63 then Some n else None)"

definition okx_classify_ack :: "(string \<Rightarrow> (json, string) result) \<Rightarrow> string \<Rightarrow> ack_outcome" where
  "okx_classify_ack parse text =
     (if \<not> contains text (quoted ''event'') then NotAck
      else case parse text of
             Err _ \<Rightarrow> NotAck
           | Ok v \<Rightarrow>
               if get_str v ''event'' = Some ''subscribe'' then AckAccepted
               else if get_str v ''event'' = Some ''error'' then
                 AckRejected (Option.bind (get_str v ''code'') parse_i64) (unwrap_or (get_str v ''msg'') ''stream error'')
               else NotAck)"

definition okx_hooks :: "(string \<Rightarrow> (json, string) result) \<Rightarrow> protocol_hooks" where
  "okx_hooks parse =
     (default_hooks ''wss://ws.okx.com:8443/ws/v5/public'' okx_subscribe_frames)
       \<lparr>ph_heartbeat := HbText (secs 20) (\<lambda>_. ''ping''), ph_classify_ack := okx_classify_ack parse\<rparr>"

definition okx_rows :: "okx_level list \<Rightarrow> (string \<times> string) list" where
  "okx_rows = map (\<lambda>(price, size, _, _). (price, size))"

definition okx_to_delta :: "string \<Rightarrow> okx_orderbook_data \<Rightarrow> bool \<Rightarrow> normalized_delta" where
  "okx_to_delta symbol data is_snapshot =
     (book_delta symbol (okx_rows (od_bids data)) (okx_rows (od_asks data)) (of_int (max (od_seq_id data) 0))
        (of_int (max (unwrap_or (od_prev_seq_id data) (od_seq_id data)) 0)) (epoch_to_us (okx_ts_ms (od_ts data))) is_snapshot)
       \<lparr>nd_checksum := od_checksum data\<rparr>"

definition okx_normalize_trade ::
  "'d decimal_ops \<Rightarrow> okx_trade_data \<Rightarrow> source_metrics \<Rightarrow> 'd domain_event option \<times> source_metrics"
where
  "okx_normalize_trade D t m =
     (case codec_decode OKX_CODEC (ot_inst_id t) of
        None \<Rightarrow> drop_frame m
      | Some pair \<Rightarrow>
          (case parse_pair D (ot_sz t) (ot_px t) of
             None \<Rightarrow> drop_frame m
           | Some (amount, price) \<Rightarrow>
               (case trade_side_from_str_loose (ot_side t) of
                  None \<Rightarrow> drop_frame m
                | Some side \<Rightarrow>
                    (Some (TradeEv (ws_trade (epoch_to_us (okx_ts_ms (ot_ts t))) pair side amount price ''okx'' (ot_trade_id t))
                       (parse_u64 (ot_trade_id t))), m))))"

fun okx_normalize :: "'d decimal_ops \<Rightarrow> okx_event \<Rightarrow> source_metrics \<Rightarrow> 'd domain_event list \<times> source_metrics" where
  "okx_normalize D (OkxOrderbook resp) m =
     (map (\<lambda>d. Book (okx_to_delta (ox_inst_id (or_arg resp)) d (okx_is_snapshot resp))) (or_data resp), m)"
| "okx_normalize D (OkxTrades trades) m = normalize_batch (okx_normalize_trade D) trades m"

definition okx_adapter ::
  "'d decimal_ops \<Rightarrow> (okx_orderbook_response, okx_trade_data list) text_serde \<Rightarrow> (okx_event, 'd) venue_adapter"
where
  "okx_adapter D S =
     default_adapter (plain_profile ''okx'' OKX_CODEC budget_default ''okx-v5'') (SeqDelta ExactPrev WssSelfSeed)
       (okx_hooks (tx_value S)) (okx_decode S) (okx_normalize D)"

section \<open>Upbit\<close>

record upbit_unit =
  ub_ask_price :: f64
  ub_bid_price :: f64
  ub_ask_size :: f64
  ub_bid_size :: f64

record upbit_orderbook =
  uo_code :: string
  uo_timestamp :: u64
  uo_units :: "upbit_unit list"

record upbit_trade =
  ut_code :: string
  ut_trade_price :: f64
  ut_trade_volume :: f64
  ut_ask_bid :: string
  ut_trade_timestamp :: u64
  ut_sequential_id :: u64

datatype upbit_event = UpbitOrderbook upbit_orderbook | UpbitTrade upbit_trade

definition upbit_decode ::
  "(upbit_orderbook, upbit_trade) value_serde \<Rightarrow> string \<Rightarrow> (upbit_event option, string) result"
where
  "upbit_decode S text =
     result_bind (vs_value S text) (\<lambda>v.
       if get_str v ''type'' = Some ''orderbook'' then decoded (vs_book S v) UpbitOrderbook
       else if get_str v ''type'' = Some ''trade'' then decoded (vs_trade S v) UpbitTrade
       else Ok None)"

definition UPBIT_CODEC :: symbol_codec where
  "UPBIT_CODEC = QuoteFirst CHR ''-''"

definition upbit_subscribe_frames :: "string list \<Rightarrow> declared_datatype list \<Rightarrow> message list" where
  "upbit_subscribe_frames symbols declared =
     (let codes = JArr (map JStr symbols);
          parts = [JObj [(''ticket'', JStr ''aetelier-ingest'')]]
            @ (if DtOrderbook \<in> set declared then [JObj [(''type'', JStr ''orderbook''), (''codes'', codes)]] else [])
            @ (if DtTrades \<in> set declared then [JObj [(''type'', JStr ''trade''), (''codes'', codes)]] else [])
      in if length parts = 1 then [] else [frame_text (JArr (parts @ [JObj [(''format'', JStr ''DEFAULT'')]]))])"

definition upbit_hooks :: protocol_hooks where
  "upbit_hooks =
     (default_hooks ''wss://api.upbit.com/websocket/v1'' upbit_subscribe_frames)\<lparr>ph_heartbeat := HbText (secs 30) (\<lambda>_. ''PING'')\<rparr>"

definition eq_ignore_case :: "string \<Rightarrow> string \<Rightarrow> bool" where
  "eq_ignore_case a b \<longleftrightarrow> to_lowercase a = to_lowercase b"

definition upbit_normalize_trade ::
  "'d decimal_ops \<Rightarrow> upbit_trade \<Rightarrow> source_metrics \<Rightarrow> 'd domain_event option \<times> source_metrics"
where
  "upbit_normalize_trade D t m =
     (case codec_decode UPBIT_CODEC (ut_code t) of
        None \<Rightarrow> drop_frame m
      | Some pair \<Rightarrow>
          (case (if eq_ignore_case (ut_ask_bid t) ''BID'' then Some Buy
                 else if eq_ignore_case (ut_ask_bid t) ''ASK'' then Some Sell else None) of
             None \<Rightarrow> drop_frame m
           | Some side \<Rightarrow>
               (Some (TradeEv (ws_trade (epoch_to_us (ut_trade_timestamp t)) pair side (f64_to_decimal D (ut_trade_volume t))
                   (f64_to_decimal D (ut_trade_price t)) ''upbit'' (u64_to_string (ut_sequential_id t)))
                  (Some (ut_sequential_id t))), m)))"

fun upbit_normalize ::
  "(f64 \<Rightarrow> string) \<Rightarrow> 'd decimal_ops \<Rightarrow> upbit_event \<Rightarrow> source_metrics \<Rightarrow> 'd domain_event list \<times> source_metrics"
where
  "upbit_normalize show_f64 D (UpbitOrderbook ob) m =
     ([Book (book_delta (uo_code ob)
          (map (\<lambda>u. (show_f64 (ub_bid_price u), show_f64 (ub_bid_size u))) (uo_units ob))
          (map (\<lambda>u. (show_f64 (ub_ask_price u), show_f64 (ub_ask_size u))) (uo_units ob))
          (uo_timestamp ob) 0 (epoch_to_us (uo_timestamp ob)) True)], m)"
| "upbit_normalize show_f64 D (UpbitTrade t) m = normalize_batch (upbit_normalize_trade D) [t] m"

definition upbit_adapter ::
  "(f64 \<Rightarrow> string) \<Rightarrow> 'd decimal_ops \<Rightarrow> (upbit_orderbook, upbit_trade) value_serde \<Rightarrow> (upbit_event, 'd) venue_adapter"
where
  "upbit_adapter show_f64 D S =
     default_adapter
       (plain_profile ''upbit'' UPBIT_CODEC
          (budget_default\<lparr>bg_subscribe_rate := [\<lparr>rw_max = 5, rw_per = secs 1\<rparr>, \<lparr>rw_max = 100, rw_per = secs 60\<rparr>]\<rparr>) ''upbit-v1'')
       FullRefresh upbit_hooks (upbit_decode S) (upbit_normalize show_f64 D)"

section \<open>HTX\<close>

type_synonym htx_level = "f64 \<times> f64"

record htx_tick =
  hx_seq_num :: u64
  hx_prev_seq_num :: "u64 option"
  hx_bids :: "htx_level list"
  hx_asks :: "htx_level list"

record htx_mbp_update =
  hu_ch :: string
  hu_ts :: u64
  hu_tick :: htx_tick

record htx_mbp_snapshot =
  hs_rep :: string
  hs_ts :: u64
  hs_data :: htx_tick

record htx_trade_detail =
  ht_ts :: u64
  ht_trade_id :: u64
  ht_price :: f64
  ht_amount :: f64
  ht_direction :: string

record htx_trade_frame =
  hf_ch :: string
  hf_data :: "htx_trade_detail list"

datatype htx_event = HtxUpdate htx_mbp_update | HtxSnapshot htx_mbp_snapshot | HtxTrade htx_trade_frame

definition htx_decode ::
  "(htx_mbp_update, htx_trade_frame) value_serde \<Rightarrow> (json \<Rightarrow> (htx_mbp_snapshot, string) result) \<Rightarrow> string
     \<Rightarrow> (htx_event option, string) result"
where
  "htx_decode S snapshot text =
     result_bind (vs_value S text) (\<lambda>v.
       case get_str v ''rep'' of
         Some rep \<Rightarrow> if contains rep ''.mbp.'' then decoded (snapshot v) HtxSnapshot else Ok None
       | None \<Rightarrow>
           (case get_str v ''ch'' of
              None \<Rightarrow> Ok None
            | Some ch \<Rightarrow>
                if contains ch ''.mbp.'' then decoded (vs_book S v) HtxUpdate
                else if suffix ''.trade.detail'' ch then decoded (vs_trade S v) HtxTrade
                else Ok None))"

definition HTX_CODEC :: symbol_codec where
  "HTX_CODEC = Concat False"

definition mbp_channel :: "string \<Rightarrow> string" where
  "mbp_channel symbol = ''market.'' @ symbol @ ''.mbp.150''"

definition trade_channel :: "string \<Rightarrow> string" where
  "trade_channel symbol = ''market.'' @ symbol @ ''.trade.detail''"

definition symbol_from_channel :: "string \<Rightarrow> string option" where
  "symbol_from_channel ch = (case split_on CHR ''.'' ch of _ # symbol # _ \<Rightarrow> Some symbol | _ \<Rightarrow> None)"

definition htx_subscribe_frames :: "string list \<Rightarrow> declared_datatype list \<Rightarrow> message list" where
  "htx_subscribe_frames symbols declared =
     concat (map (\<lambda>s.
       (if DtOrderbook \<in> set declared then [frame_text (JObj [(''sub'', JStr (mbp_channel s)), (''id'', JStr (''mbp-'' @ s))])] else [])
       @ (if DtTrades \<in> set declared then [frame_text (JObj [(''sub'', JStr (trade_channel s)), (''id'', JStr (''trd-'' @ s))])] else []))
       symbols)"

text \<open>\<open>show\<close> prints the value of the ping field.\<close>

definition htx_on_inbound_control :: "(string \<Rightarrow> (json, string) result) \<Rightarrow> (f64 \<Rightarrow> string) \<Rightarrow> string \<Rightarrow> control_action" where
  "htx_on_inbound_control parse show text =
     (case parse text of
        Err _ \<Rightarrow> Ignore
      | Ok v \<Rightarrow>
          (case json_get v ''ping'' of
             Some ping \<Rightarrow> Reply (MText (json_to_string show (JObj [(''pong'', ping)])))
           | None \<Rightarrow> Ignore))"

definition htx_prepare :: "string list \<Rightarrow> declared_datatype list \<Rightarrow> (prepared, string) result" where
  "htx_prepare symbols declared =
     (if DtOrderbook \<notin> set declared then Ok prepared_default
      else Ok (prepared_default\<lparr>
        pr_extra_frames := map (\<lambda>s. frame_text (JObj [(''req'', JStr (mbp_channel s)), (''id'', JStr (''req-'' @ s))])) symbols,
        pr_extra_frames_delay := Some (secs 3)\<rparr>))"

definition htx_hooks ::
  "(string \<Rightarrow> (json, string) result) \<Rightarrow> (f64 \<Rightarrow> string) \<Rightarrow> string list \<Rightarrow> declared_datatype list \<Rightarrow> protocol_hooks"
where
  "htx_hooks parse show symbols declared =
     (default_hooks ''wss://api.huobi.pro/ws'' htx_subscribe_frames)
       \<lparr>ph_frame_codec := Gzip, ph_on_inbound_control := htx_on_inbound_control parse show,
        ph_prepare := htx_prepare symbols declared\<rparr>"

definition htx_to_delta :: "(f64 \<Rightarrow> string) \<Rightarrow> string \<Rightarrow> htx_tick \<Rightarrow> u64 \<Rightarrow> bool \<Rightarrow> normalized_delta" where
  "htx_to_delta show_f64 symbol tick ts is_snapshot =
     (let rows = map (\<lambda>(p, s). (show_f64 p, show_f64 s)) in
      book_delta symbol (rows (hx_bids tick)) (rows (hx_asks tick)) (hx_seq_num tick) (unwrap_or (hx_prev_seq_num tick) 0)
        (epoch_to_us ts) is_snapshot)"

definition htx_normalize_trade ::
  "'d decimal_ops \<Rightarrow> trading_pair \<Rightarrow> htx_trade_detail \<Rightarrow> source_metrics \<Rightarrow> 'd domain_event option \<times> source_metrics"
where
  "htx_normalize_trade D pair t m =
     (case trade_side_from_str_loose (ht_direction t) of
        None \<Rightarrow> drop_frame m
      | Some side \<Rightarrow>
          (Some (TradeEv (ws_trade (epoch_to_us (ht_ts t)) pair side (f64_to_decimal D (ht_amount t)) (f64_to_decimal D (ht_price t))
              ''htx'' (u64_to_string (ht_trade_id t))) (Some (ht_trade_id t))), m))"

fun htx_normalize ::
  "(f64 \<Rightarrow> string) \<Rightarrow> 'd decimal_ops \<Rightarrow> htx_event \<Rightarrow> source_metrics \<Rightarrow> 'd domain_event list \<times> source_metrics"
where
  "htx_normalize show_f64 D (HtxSnapshot s) m =
     (case symbol_from_channel (hs_rep s) of
        Some symbol \<Rightarrow> ([Book (htx_to_delta show_f64 symbol (hs_data s) (hs_ts s) True)], m)
      | None \<Rightarrow> ([], m))"
| "htx_normalize show_f64 D (HtxUpdate u) m =
     (case symbol_from_channel (hu_ch u) of
        Some symbol \<Rightarrow> ([Book (htx_to_delta show_f64 symbol (hu_tick u) (hu_ts u) False)], m)
      | None \<Rightarrow> ([], m))"
| "htx_normalize show_f64 D (HtxTrade frame) m =
     (case symbol_from_channel (hf_ch frame) of
        None \<Rightarrow> ([], add_dropped_frames 1 m)
      | Some symbol \<Rightarrow>
          (case codec_decode HTX_CODEC symbol of
             None \<Rightarrow> ([], add_dropped_frames 1 m)
           | Some pair \<Rightarrow> normalize_batch (htx_normalize_trade D pair) (rev (hf_data frame)) m))"

definition htx_adapter ::
  "(f64 \<Rightarrow> string) \<Rightarrow> 'd decimal_ops \<Rightarrow> (htx_mbp_update, htx_trade_frame) value_serde \<Rightarrow> (json \<Rightarrow> (htx_mbp_snapshot, string) result)
     \<Rightarrow> string list \<Rightarrow> declared_datatype list \<Rightarrow> (htx_event, 'd) venue_adapter"
where
  "htx_adapter show_f64 D S snapshot symbols declared =
     default_adapter (plain_profile ''htx'' HTX_CODEC (budget_default\<lparr>bg_max_streams_per_socket := Some 100\<rparr>) ''htx-v2'')
       (SeqDelta ExactPrev ReqOnSocket) (htx_hooks (vs_value S) show_f64 symbols declared) (htx_decode S snapshot)
       (htx_normalize show_f64 D)"

section \<open>Bybit\<close>

record bybit_orderbook_data =
  yo_symbol :: string
  yo_bids :: "(string \<times> string) list"
  yo_asks :: "(string \<times> string) list"
  yo_update_id :: u64
  yo_sequence :: u64

record bybit_orderbook_response =
  yr_topic :: string
  yr_ty :: string
  yr_ts_ms :: u64
  yr_data :: bybit_orderbook_data
  yr_cts :: "u64 option"

record bybit_trade_data =
  yt_trade_ts :: u64
  yt_symbol :: string
  yt_side :: string
  yt_amount :: string
  yt_price :: string
  yt_direction :: "string option"
  yt_trade_id :: string
  yt_block_trade :: bool
  yt_rpi_trade :: bool
  yt_sequence :: u64

text \<open>The payloads of liquidations and tickers are not looked at by the normaliser; they are a type parameter.\<close>

datatype 'x bybit_event = BybitOrderbook bybit_orderbook_response | BybitTrades "bybit_trade_data list" | BybitLiquidation 'x | BybitTicker 'x

definition bybit_decode ::
  "(bybit_orderbook_response, bybit_trade_data list) text_serde \<Rightarrow> (string \<Rightarrow> ('x list, string) result) \<Rightarrow> (string \<Rightarrow> ('x, string) result)
     \<Rightarrow> string \<Rightarrow> ('x bybit_event option, string) result"
where
  "bybit_decode S liquidations ticker text =
     result_bind (tx_value S text) (\<lambda>v.
       if json_get v ''op'' \<noteq> None then Ok None
       else if Option.bind (json_get v ''success'') as_bool = Some True then Ok None
       else case get_str v ''topic'' of
              None \<Rightarrow> Ok None
            | Some topic \<Rightarrow>
                if prefix ''allLiquidation.'' topic then
                  (case liquidations text of Ok (l # _) \<Rightarrow> Ok (Some (BybitLiquidation l)) | _ \<Rightarrow> Ok None)
                else if prefix ''publicTrade.'' topic then decoded_or_skip (tx_trade S text) BybitTrades
                else if prefix ''orderbook.'' topic then decoded_or_skip (tx_book S text) BybitOrderbook
                else if prefix ''tickers'' topic then decoded_or_skip (ticker text) BybitTicker
                else Ok None)"

definition bybit_to_normalized :: "bybit_orderbook_response \<Rightarrow> normalized_delta option" where
  "bybit_to_normalized r =
     (let d = yr_data r in
      if yo_bids d = [] \<and> yo_asks d = [] \<and> yo_symbol d = [] then None
      else Some (book_delta (yo_symbol d) (yo_bids d) (yo_asks d) (yo_update_id d) (yo_sequence d)
             (unwrap_or (yr_cts r) (yr_ts_ms r) * 1000) (yr_ty r = ''snapshot'')))"

definition BYBIT_CODEC :: symbol_codec where
  "BYBIT_CODEC = Concat True"

definition bybit_subscribe_frames :: "string list \<Rightarrow> declared_datatype list \<Rightarrow> message list" where
  "bybit_subscribe_frames symbols declared =
     (let args = concat (map (\<lambda>s.
            (if DtOrderbook \<in> set declared then [JStr (''orderbook.50.'' @ s)] else [])
            @ (if DtTrades \<in> set declared then [JStr (''publicTrade.'' @ s)] else [])) symbols)
      in if args = [] then [] else [frame_text (JObj [(''op'', JStr ''subscribe''), (''args'', JArr args)])])"

definition bybit_classify_ack :: "(string \<Rightarrow> (json, string) result) \<Rightarrow> string \<Rightarrow> ack_outcome" where
  "bybit_classify_ack parse text =
     (if \<not> contains text (quoted ''success'') then NotAck
      else case parse text of
             Err _ \<Rightarrow> NotAck
           | Ok v \<Rightarrow>
               if get_str v ''op'' \<noteq> Some ''subscribe'' then NotAck
               else case Option.bind (json_get v ''success'') as_bool of
                      Some True \<Rightarrow> AckAccepted
                    | Some False \<Rightarrow>
                        AckRejected (Option.bind (json_get v ''ret_code'') as_i64)
                          (unwrap_or (get_str v ''ret_msg'') ''subscribe failed'')
                    | None \<Rightarrow> NotAck)"

definition bybit_hooks :: "(string \<Rightarrow> (json, string) result) \<Rightarrow> protocol_hooks" where
  "bybit_hooks parse =
     (default_hooks ''wss://stream.bybit.com/v5/public/spot'' bybit_subscribe_frames)
       \<lparr>ph_heartbeat := HbText (secs 20) (\<lambda>_. json_to_string (\<lambda>_. []) (JObj [(''op'', JStr ''ping'')])),
        ph_classify_ack := bybit_classify_ack parse\<rparr>"

definition bybit_normalize_trade ::
  "'d decimal_ops \<Rightarrow> bybit_trade_data \<Rightarrow> source_metrics \<Rightarrow> 'd domain_event option \<times> source_metrics"
where
  "bybit_normalize_trade D t m =
     (case codec_decode BYBIT_CODEC (yt_symbol t) of
        None \<Rightarrow> drop_frame m
      | Some pair \<Rightarrow>
          (case parse_pair D (yt_amount t) (yt_price t) of
             None \<Rightarrow> drop_frame m
           | Some (amount, price) \<Rightarrow>
               (case trade_side_from_str_loose (yt_side t) of
                  None \<Rightarrow> drop_frame m
                | Some side \<Rightarrow>
                    (Some (TradeEv (ws_trade (epoch_to_us (yt_trade_ts t)) pair side amount price ''bybit'' (yt_trade_id t))
                       (parse_u64 (yt_trade_id t))), m))))"

fun bybit_normalize :: "'d decimal_ops \<Rightarrow> 'x bybit_event \<Rightarrow> source_metrics \<Rightarrow> 'd domain_event list \<times> source_metrics" where
  "bybit_normalize D (BybitOrderbook resp) m =
     (case bybit_to_normalized resp of None \<Rightarrow> ([], m) | Some d \<Rightarrow> ([Book (d\<lparr>nd_sequence := nd_update_id d\<rparr>)], m))"
| "bybit_normalize D (BybitTrades trades) m = normalize_batch (bybit_normalize_trade D) trades m"
| "bybit_normalize D (BybitLiquidation _) m = ([], m)"
| "bybit_normalize D (BybitTicker _) m = ([], m)"

definition bybit_adapter ::
  "'d decimal_ops \<Rightarrow> (bybit_orderbook_response, bybit_trade_data list) text_serde \<Rightarrow> (string \<Rightarrow> ('x list, string) result)
     \<Rightarrow> (string \<Rightarrow> ('x, string) result) \<Rightarrow> ('x bybit_event, 'd) venue_adapter"
where
  "bybit_adapter D S liquidations ticker =
     default_adapter (plain_profile ''bybit'' BYBIT_CODEC budget_default ''bybit-v5'') (SeqDelta RangeInclusive WssSelfSeed)
       (bybit_hooks (tx_value S)) (bybit_decode S liquidations ticker) (bybit_normalize D)"

section \<open>Gate.io\<close>

record gateio_orderbook_data =
  go_ts_ms :: u64
  go_last_update_id :: i64
  go_symbol :: string
  go_bids :: "(string \<times> string) list"
  go_asks :: "(string \<times> string) list"

record gateio_trade_data =
  gt_id :: u64
  gt_create_time :: i64
  gt_create_time_ms :: string
  gt_side :: string
  gt_currency_pair :: string
  gt_amount :: string
  gt_price :: string

datatype gateio_event = GateioOrderbook gateio_orderbook_data | GateioTrade gateio_trade_data

text \<open>\<open>parse_f64\<close> reads a float and truncates it to a \<open>u64\<close>.\<close>

definition gateio_ts_ms :: "(string \<Rightarrow> u64 option) \<Rightarrow> gateio_trade_data \<Rightarrow> u64" where
  "gateio_ts_ms parse_f64 t =
     (case parse_u64 (hd (split_on CHR ''.'' (gt_create_time_ms t))) of
        Some ms \<Rightarrow> ms
      | None \<Rightarrow> unwrap_or (parse_f64 (gt_create_time_ms t)) (of_int (max (gt_create_time t) 0) * 1000))"

definition gateio_decode ::
  "(gateio_orderbook_data, gateio_trade_data) text_serde \<Rightarrow> string \<Rightarrow> (gateio_event option, string) result"
where
  "gateio_decode S text =
     result_bind (tx_value S text) (\<lambda>v.
       if get_str v ''event'' \<noteq> Some ''update'' then Ok None
       else if get_str v ''channel'' = Some ''spot.order_book'' then decoded_or_skip (tx_book S text) GateioOrderbook
       else if get_str v ''channel'' = Some ''spot.trades'' then decoded_or_skip (tx_trade S text) GateioTrade
       else Ok None)"

definition GATEIO_CODEC :: symbol_codec where
  "GATEIO_CODEC = Underscore True"

text \<open>\<open>clock i\<close> is the Unix time in seconds read for the \<open>i\<close>-th symbol or keep-alive.\<close>

definition gateio_subscribe_frames :: "(nat \<Rightarrow> u64) \<Rightarrow> string list \<Rightarrow> declared_datatype list \<Rightarrow> message list" where
  "gateio_subscribe_frames clock symbols declared =
     concat (map (\<lambda>(i, s).
       (if DtOrderbook \<in> set declared
        then [frame_text (JObj [(''time'', JInt (uint (clock i))), (''channel'', JStr ''spot.order_book''), (''event'', JStr ''subscribe''),
                (''payload'', JArr [JStr s, JStr ''20'', JStr ''100ms''])])] else [])
       @ (if DtTrades \<in> set declared
          then [frame_text (JObj [(''time'', JInt (uint (clock i))), (''channel'', JStr ''spot.trades''), (''event'', JStr ''subscribe''),
                  (''payload'', JArr [JStr s])])] else [])) (enumerate 0 symbols))"

definition gateio_hooks :: "(nat \<Rightarrow> u64) \<Rightarrow> protocol_hooks" where
  "gateio_hooks clock =
     (default_hooks ''wss://api.gateio.ws/ws/v4/'' (gateio_subscribe_frames clock))
       \<lparr>ph_heartbeat := HbText (secs 15)
          (\<lambda>i. json_to_string (\<lambda>_. []) (JObj [(''time'', JInt (uint (clock i))), (''channel'', JStr ''spot.ping'')]))\<rparr>"

definition gateio_to_delta :: "gateio_orderbook_data \<Rightarrow> normalized_delta" where
  "gateio_to_delta data =
     (let id = of_int (max (go_last_update_id data) 0) in
      book_delta (go_symbol data) (go_bids data) (go_asks data) id id (epoch_to_us (go_ts_ms data)) True)"

definition gateio_normalize_trade ::
  "(string \<Rightarrow> u64 option) \<Rightarrow> 'd decimal_ops \<Rightarrow> gateio_trade_data \<Rightarrow> source_metrics \<Rightarrow> 'd domain_event option \<times> source_metrics"
where
  "gateio_normalize_trade parse_f64 D t m =
     (case codec_decode GATEIO_CODEC (gt_currency_pair t) of
        None \<Rightarrow> drop_frame m
      | Some pair \<Rightarrow>
          (case parse_pair D (gt_amount t) (gt_price t) of
             None \<Rightarrow> drop_frame m
           | Some (amount, price) \<Rightarrow>
               (case trade_side_from_str_loose (gt_side t) of
                  None \<Rightarrow> drop_frame m
                | Some side \<Rightarrow>
                    (Some (TradeEv (ws_trade (epoch_to_us (gateio_ts_ms parse_f64 t)) pair side amount price ''gateio''
                        (u64_to_string (gt_id t))) (Some (gt_id t))), m))))"

fun gateio_normalize ::
  "(string \<Rightarrow> u64 option) \<Rightarrow> 'd decimal_ops \<Rightarrow> gateio_event \<Rightarrow> source_metrics \<Rightarrow> 'd domain_event list \<times> source_metrics"
where
  "gateio_normalize parse_f64 D (GateioOrderbook data) m = ([Book (gateio_to_delta data)], m)"
| "gateio_normalize parse_f64 D (GateioTrade t) m = normalize_batch (gateio_normalize_trade parse_f64 D) [t] m"

definition gateio_adapter ::
  "(string \<Rightarrow> u64 option) \<Rightarrow> (nat \<Rightarrow> u64) \<Rightarrow> 'd decimal_ops \<Rightarrow> (gateio_orderbook_data, gateio_trade_data) text_serde
     \<Rightarrow> (gateio_event, 'd) venue_adapter"
where
  "gateio_adapter parse_f64 clock D S =
     default_adapter (plain_profile ''gateio'' GATEIO_CODEC budget_default ''gateio-v4'') FullRefresh (gateio_hooks clock)
       (gateio_decode S) (gateio_normalize parse_f64 D)"

section \<open>Bitget\<close>

record bitget_book_data =
  gb_asks :: "(string \<times> string) list"
  gb_bids :: "(string \<times> string) list"
  gb_ts :: string
  gb_seq :: "u64 option"
  gb_pseq :: "u64 option"

record bitget_book_frame =
  gf_action :: string
  gf_inst_id :: string
  gf_data :: "bitget_book_data list"

record bitget_trade_data =
  gr_ts :: string
  gr_price :: string
  gr_size :: string
  gr_side :: string
  gr_trade_id :: string

record bitget_trade_frame =
  gq_inst_id :: string
  gq_data :: "bitget_trade_data list"

datatype bitget_event = BitgetBook bitget_book_frame | BitgetTrade bitget_trade_frame

definition bitget_decode ::
  "(bitget_book_frame, bitget_trade_frame) value_serde \<Rightarrow> string \<Rightarrow> (bitget_event option, string) result"
where
  "bitget_decode S text =
     (if text = ''pong'' then Ok None
      else result_bind (vs_value S text) (\<lambda>v.
        if json_get v ''event'' \<noteq> None then Ok None
        else case Option.bind (json_get v ''arg'') (\<lambda>a. get_str a ''channel'') of
               None \<Rightarrow> Ok None
             | Some ch \<Rightarrow>
                 if prefix ''books'' ch then decoded (vs_book S v) BitgetBook
                 else if ch = ''trade'' then decoded (vs_trade S v) BitgetTrade
                 else Ok None))"

definition BITGET_CODEC :: symbol_codec where
  "BITGET_CODEC = Concat True"

definition bitget_subscribe_frames :: "string list \<Rightarrow> declared_datatype list \<Rightarrow> message list" where
  "bitget_subscribe_frames symbols declared =
     (let arg = \<lambda>channel s. JObj [(''instType'', JStr ''SPOT''), (''channel'', JStr channel), (''instId'', JStr s)];
          args = concat (map (\<lambda>s.
            (if DtOrderbook \<in> set declared then [arg ''books'' s] else [])
            @ (if DtTrades \<in> set declared then [arg ''trade'' s] else [])) symbols)
      in if args = [] then [] else [frame_text (JObj [(''op'', JStr ''subscribe''), (''args'', JArr args)])])"

definition bitget_hooks :: protocol_hooks where
  "bitget_hooks =
     (default_hooks ''wss://ws.bitget.com/v2/ws/public'' bitget_subscribe_frames)\<lparr>ph_heartbeat := HbText (secs 25) (\<lambda>_. ''ping'')\<rparr>"

definition bitget_to_delta :: "string \<Rightarrow> bitget_book_data \<Rightarrow> bool \<Rightarrow> normalized_delta" where
  "bitget_to_delta symbol data is_snapshot =
     (let ts = unwrap_or (parse_u64 (gb_ts data)) 0 in
      book_delta symbol (gb_bids data) (gb_asks data) (unwrap_or (gb_seq data) ts) (unwrap_or (gb_pseq data) 0) (epoch_to_us ts)
        is_snapshot)"

definition bitget_normalize_trade ::
  "'d decimal_ops \<Rightarrow> trading_pair \<Rightarrow> bitget_trade_data \<Rightarrow> source_metrics \<Rightarrow> 'd domain_event option \<times> source_metrics"
where
  "bitget_normalize_trade D pair t m =
     (case parse_pair D (gr_size t) (gr_price t) of
        None \<Rightarrow> drop_frame m
      | Some (amount, price) \<Rightarrow>
          (case trade_side_from_str_loose (gr_side t) of
             None \<Rightarrow> drop_frame m
           | Some side \<Rightarrow>
               (Some (TradeEv (ws_trade (epoch_to_us (unwrap_or (parse_u64 (gr_ts t)) 0)) pair side amount price ''bitget''
                   (gr_trade_id t)) None), m)))"

fun bitget_normalize :: "'d decimal_ops \<Rightarrow> bitget_event \<Rightarrow> source_metrics \<Rightarrow> 'd domain_event list \<times> source_metrics" where
  "bitget_normalize D (BitgetBook frame) m =
     (map (\<lambda>d. Book (bitget_to_delta (gf_inst_id frame) d (gf_action frame = ''snapshot''))) (gf_data frame), m)"
| "bitget_normalize D (BitgetTrade frame) m =
     (case codec_decode BITGET_CODEC (gq_inst_id frame) of
        None \<Rightarrow> ([], add_dropped_frames 1 m)
      | Some pair \<Rightarrow> normalize_batch (bitget_normalize_trade D pair) (gq_data frame) m)"

definition bitget_adapter ::
  "'d decimal_ops \<Rightarrow> (bitget_book_frame, bitget_trade_frame) value_serde \<Rightarrow> (bitget_event, 'd) venue_adapter"
where
  "bitget_adapter D S =
     default_adapter (plain_profile ''bitget'' BITGET_CODEC budget_default ''bitget-v2'') (SeqDelta ExactPrev WssSelfSeed)
       bitget_hooks (bitget_decode S) (bitget_normalize D)"

section \<open>Poloniex\<close>

record poloniex_book_data =
  pl_symbol :: string
  pl_asks :: "(string \<times> string) list"
  pl_bids :: "(string \<times> string) list"
  pl_id :: u64
  pl_last_id :: u64
  pl_ts :: u64

record poloniex_book_frame =
  pf_data :: "poloniex_book_data list"
  pf_action :: string

record poloniex_trade_data =
  pt_symbol :: string
  pt_id :: string
  pt_price :: string
  pt_quantity :: string
  pt_taker_side :: string
  pt_ts :: u64
  pt_create_time :: u64

datatype poloniex_event = PoloniexBook poloniex_book_frame | PoloniexTrades "poloniex_trade_data list"

definition poloniex_decode ::
  "(poloniex_book_frame, poloniex_trade_data list) value_serde \<Rightarrow> string \<Rightarrow> (poloniex_event option, string) result"
where
  "poloniex_decode S text =
     result_bind (vs_value S text) (\<lambda>v.
       if json_get v ''event'' \<noteq> None then Ok None
       else if get_str v ''channel'' = Some ''book_lv2'' then decoded (vs_book S v) PoloniexBook
       else if get_str v ''channel'' = Some ''trades'' then decoded (vs_trade S v) PoloniexTrades
       else Ok None)"

definition POLONIEX_CODEC :: symbol_codec where
  "POLONIEX_CODEC = Underscore True"

definition poloniex_subscribe_frames :: "string list \<Rightarrow> declared_datatype list \<Rightarrow> message list" where
  "poloniex_subscribe_frames symbols declared =
     (let frame = \<lambda>channel. frame_text (JObj [(''event'', JStr ''subscribe''), (''channel'', JArr [JStr channel]),
            (''symbols'', JArr (map JStr symbols))])
      in (if DtOrderbook \<in> set declared then [frame ''book_lv2''] else [])
         @ (if DtTrades \<in> set declared then [frame ''trades''] else []))"

definition poloniex_hooks :: protocol_hooks where
  "poloniex_hooks =
     (default_hooks ''wss://ws.poloniex.com/ws/public'' poloniex_subscribe_frames)
       \<lparr>ph_heartbeat := HbText (secs 25) (\<lambda>_. json_to_string (\<lambda>_. []) (JObj [(''event'', JStr ''ping'')]))\<rparr>"

definition poloniex_to_delta :: "poloniex_book_data \<Rightarrow> bool \<Rightarrow> normalized_delta" where
  "poloniex_to_delta data is_snapshot =
     book_delta (pl_symbol data) (pl_bids data) (pl_asks data) (pl_id data) (pl_last_id data) (epoch_to_us (pl_ts data)) is_snapshot"

definition poloniex_normalize_trade ::
  "'d decimal_ops \<Rightarrow> poloniex_trade_data \<Rightarrow> source_metrics \<Rightarrow> 'd domain_event option \<times> source_metrics"
where
  "poloniex_normalize_trade D t m =
     (case codec_decode POLONIEX_CODEC (pt_symbol t) of
        None \<Rightarrow> drop_frame m
      | Some pair \<Rightarrow>
          (case parse_pair D (pt_quantity t) (pt_price t) of
             None \<Rightarrow> drop_frame m
           | Some (amount, price) \<Rightarrow>
               (case trade_side_from_str_loose (pt_taker_side t) of
                  None \<Rightarrow> drop_frame m
                | Some side \<Rightarrow>
                    (Some (TradeEv (ws_trade (epoch_to_us (if pt_create_time t > 0 then pt_create_time t else pt_ts t)) pair side
                        amount price ''poloniex'' (pt_id t)) (parse_u64 (pt_id t))), m))))"

fun poloniex_normalize :: "'d decimal_ops \<Rightarrow> poloniex_event \<Rightarrow> source_metrics \<Rightarrow> 'd domain_event list \<times> source_metrics" where
  "poloniex_normalize D (PoloniexBook frame) m =
     (map (\<lambda>d. Book (poloniex_to_delta d (pf_action frame = ''snapshot''))) (pf_data frame), m)"
| "poloniex_normalize D (PoloniexTrades trades) m = normalize_batch (poloniex_normalize_trade D) trades m"

definition poloniex_adapter ::
  "'d decimal_ops \<Rightarrow> (poloniex_book_frame, poloniex_trade_data list) value_serde \<Rightarrow> (poloniex_event, 'd) venue_adapter"
where
  "poloniex_adapter D S =
     default_adapter (plain_profile ''poloniex'' POLONIEX_CODEC budget_default ''poloniex-v2'') (SeqDelta ExactPrev WssSelfSeed)
       poloniex_hooks (poloniex_decode S) (poloniex_normalize D)"

section \<open>Kraken\<close>

record kraken_book_data =
  kb_symbol :: string
  kb_bids :: "(string \<times> string) list"
  kb_asks :: "(string \<times> string) list"
  kb_checksum :: u64
  kb_timestamp :: string

record kraken_book_response =
  kr_channel :: string
  kr_ty :: string
  kr_data :: "kraken_book_data list"

record kraken_trade_data =
  kt_symbol :: string
  kt_side :: string
  kt_price :: f64
  kt_qty :: f64
  kt_ord_type :: string
  kt_trade_id :: u64
  kt_timestamp :: string

datatype kraken_event = KrakenOrderbook kraken_book_response | KrakenTrades "kraken_trade_data list"

definition kraken_decode ::
  "(kraken_book_response, kraken_trade_data list) text_serde \<Rightarrow> string \<Rightarrow> (kraken_event option, string) result"
where
  "kraken_decode S text =
     result_bind (tx_value S text) (\<lambda>v.
       if get_str v ''method'' \<noteq> None then Ok None
       else if get_str v ''channel'' = Some ''book'' then decoded_or_skip (tx_book S text) KrakenOrderbook
       else if get_str v ''channel'' = Some ''trade'' then
         (case tx_trade S text of
            Ok data \<Rightarrow> if data = [] then Ok None else Ok (Some (KrakenTrades data))
          | Err _ \<Rightarrow> Ok None)
       else Ok None)"

text \<open>\<open>as i64\<close> reinterprets the 64 bits.\<close>

definition kraken_to_normalized :: "(string \<Rightarrow> u64 option) \<Rightarrow> kraken_book_response \<Rightarrow> normalized_delta option" where
  "kraken_to_normalized rfc3339 r =
     (case kr_data r of
        [] \<Rightarrow> None
      | data # _ \<Rightarrow>
          Some ((book_delta (kb_symbol data) (kb_bids data) (kb_asks data) (kb_checksum data) (kb_checksum data)
                   (unwrap_or (rfc3339 (kb_timestamp data)) 0) (kr_ty r = ''snapshot''))
                  \<lparr>nd_checksum := Some (sint (kb_checksum data))\<rparr>))"

definition KRAKEN_CODEC :: symbol_codec where
  "KRAKEN_CODEC = Slash"

definition kraken_subscribe_frames :: "string list \<Rightarrow> declared_datatype list \<Rightarrow> message list" where
  "kraken_subscribe_frames symbols declared =
     (let frame = \<lambda>params. frame_text (JObj [(''method'', JStr ''subscribe''), (''params'', JObj params)]);
          names = JArr (map JStr symbols)
      in (if DtOrderbook \<in> set declared
          then [frame [(''channel'', JStr ''book''), (''symbol'', names), (''depth'', JInt 10)]] else [])
         @ (if DtTrades \<in> set declared then [frame [(''channel'', JStr ''trade''), (''symbol'', names)]] else []))"

definition kraken_hooks :: protocol_hooks where
  "kraken_hooks = default_hooks ''wss://ws.kraken.com/v2'' kraken_subscribe_frames"

definition kraken_normalize_trade ::
  "(string \<Rightarrow> u64 option) \<Rightarrow> 'd decimal_ops \<Rightarrow> kraken_trade_data \<Rightarrow> source_metrics \<Rightarrow> 'd domain_event option \<times> source_metrics"
where
  "kraken_normalize_trade rfc3339 D t m =
     (case codec_decode KRAKEN_CODEC (kt_symbol t) of
        None \<Rightarrow> drop_frame m
      | Some pair \<Rightarrow>
          (case trade_side_from_str_loose (kt_side t) of
             None \<Rightarrow> drop_frame m
           | Some side \<Rightarrow>
               (Some (TradeEv (ws_trade (unwrap_or (rfc3339 (kt_timestamp t)) 0) pair side (f64_to_decimal D (kt_qty t))
                   (f64_to_decimal D (kt_price t)) ''kraken'' (u64_to_string (kt_trade_id t))) (Some (kt_trade_id t))), m)))"

fun kraken_normalize ::
  "(string \<Rightarrow> u64 option) \<Rightarrow> 'd decimal_ops \<Rightarrow> kraken_event \<Rightarrow> source_metrics \<Rightarrow> 'd domain_event list \<times> source_metrics"
where
  "kraken_normalize rfc3339 D (KrakenOrderbook resp) m =
     (case kraken_to_normalized rfc3339 resp of None \<Rightarrow> ([], m) | Some d \<Rightarrow> ([Book d], m))"
| "kraken_normalize rfc3339 D (KrakenTrades trades) m = normalize_batch (kraken_normalize_trade rfc3339 D) trades m"

definition kraken_adapter ::
  "(string \<Rightarrow> u64 option) \<Rightarrow> 'd decimal_ops \<Rightarrow> (kraken_book_response, kraken_trade_data list) text_serde
     \<Rightarrow> (kraken_event, 'd) venue_adapter"
where
  "kraken_adapter rfc3339 D S =
     default_adapter (plain_profile ''kraken'' KRAKEN_CODEC budget_default ''kraken-v2'') (ChecksumDelta KrakenTop10) kraken_hooks
       (kraken_decode S) (kraken_normalize rfc3339 D)"

section \<open>Every print is accounted for\<close>

interpretation binance: trade_normaliser "binance_normalize_trade D" "''binance''" for D
  by unfold_locales (auto simp: binance_normalize_trade_def split: option.splits prod.splits)

interpretation okx: trade_normaliser "okx_normalize_trade D" "''okx''" for D
  by unfold_locales (auto simp: okx_normalize_trade_def split: option.splits prod.splits)

interpretation upbit: trade_normaliser "upbit_normalize_trade D" "''upbit''" for D
  by unfold_locales (auto simp: upbit_normalize_trade_def split: option.splits if_splits)

interpretation htx: trade_normaliser "htx_normalize_trade D pair" "''htx''" for D pair
  by unfold_locales (auto simp: htx_normalize_trade_def split: option.splits)

interpretation bybit: trade_normaliser "bybit_normalize_trade D" "''bybit''" for D
  by unfold_locales (auto simp: bybit_normalize_trade_def split: option.splits prod.splits)

interpretation gateio: trade_normaliser "gateio_normalize_trade parse_f64 D" "''gateio''" for parse_f64 D
  by unfold_locales (auto simp: gateio_normalize_trade_def split: option.splits prod.splits)

interpretation bitget: trade_normaliser "bitget_normalize_trade D pair" "''bitget''" for D pair
  by unfold_locales (auto simp: bitget_normalize_trade_def split: option.splits prod.splits)

interpretation poloniex: trade_normaliser "poloniex_normalize_trade D" "''poloniex''" for D
  by unfold_locales (auto simp: poloniex_normalize_trade_def split: option.splits prod.splits)

interpretation kraken: trade_normaliser "kraken_normalize_trade rfc3339 D" "''kraken''" for rfc3339 D
  by unfold_locales (auto simp: kraken_normalize_trade_def split: option.splits)

text \<open>
  \<open>n\<close> prints of a message: the events are trades of the venue, at most one per print and in the order
  of the prints, and every print without an event is one dropped frame.
\<close>

definition accounts ::
  "string \<Rightarrow> ('p \<Rightarrow> source_metrics \<Rightarrow> 'd domain_event option \<times> source_metrics) \<Rightarrow> 'p list \<Rightarrow> source_metrics
     \<Rightarrow> 'd domain_event list \<times> source_metrics \<Rightarrow> bool"
where
  "accounts venue nrm prints m res \<longleftrightarrow>
     fst res = List.map_filter (\<lambda>p. fst (nrm p metrics_default)) prints
   \<and> list_all (is_trade_of venue) (fst res)
   \<and> length (fst res) \<le> length prints
   \<and> snd res = add_drops (length prints - length (fst res)) m"

context trade_normaliser
begin

lemma batch_accounted: "accounts venue nrm ps m (normalize_batch nrm ps m)"
proof -
  obtain k where "normalize_batch nrm ps m = (List.map_filter (\<lambda>p. fst (nrm p metrics_default)) ps, add_drops k m)"
      "length (List.map_filter (\<lambda>p. fst (nrm p metrics_default)) ps) + k = length ps"
      "list_all (is_trade_of venue) (List.map_filter (\<lambda>p. fst (nrm p metrics_default)) ps)"
    using batch_accounts [of ps m metrics_default] by blast
  moreover from this(2) have "k = length ps - length (List.map_filter (\<lambda>p. fst (nrm p metrics_default)) ps)" by linarith
  ultimately show ?thesis by (simp add: accounts_def)
qed

end


section \<open>Updates in the venue's own order\<close>

definition accepted_after :: "'d decimal_ops \<Rightarrow> (string \<Rightarrow> u32) \<Rightarrow> 'd sourced_orderbook \<Rightarrow> normalized_delta \<Rightarrow> u64 \<Rightarrow> bool" where
  "accepted_after D crc so delta l \<longleftrightarrow> so_last so = Some l \<and> is_ok (fst (so_apply D crc so delta))"

lemma accepted_continuous:
  assumes "accepted_after D crc so delta l" "so_model so = SeqDelta p src" "\<not> nd_is_snapshot delta"
  shows "continuous p l delta"
proof -
  obtain out so' where "so_apply D crc so delta = (Ok out, so')"
    using assms(1) by (auto simp: accepted_after_def is_ok_iff prod_eq_iff)
  from apply_seq_delta_continuous [OF this assms(2,3)] assms(1) show ?thesis by (auto simp: accepted_after_def)
qed

lemmas venue_deltas = book_delta_def default_adapter_def binance_depth_to_normalized_def okx_to_delta_def htx_to_delta_def
  bitget_to_delta_def poloniex_to_delta_def binance_adapter_def okx_adapter_def htx_adapter_def bitget_adapter_def
  poloniex_adapter_def bybit_adapter_def

lemma between_is_next:
  fixes u l :: u64
  assumes "u \<le> l + 1" "l < u"
  shows "u = l + 1"
  using assms inc_le by fastforce

text \<open>
  C16: In a book that runs the model its venue declares and whose last accepted update is \<open>l\<close>, an
  accepted incremental message continues \<open>l\<close> in the terms of that venue's wire format: Binance's
  range of update ids covers \<open>l + 1\<close>; OKX, HTX, Bitget and Poloniex name \<open>l\<close> as the previous message;
  Bybit's update id is \<open>l + 1\<close>.  An update that was lost on the way is therefore never skipped over.
\<close>

theorem venue_updates_accepted_in_sequence:
  "(so_model so = va_book_model (binance_adapter D S1) \<and> accepted_after D crc so (binance_depth_to_normalized b) l
      \<longrightarrow> bd_first_update_id b \<le> l + 1 \<and> l + 1 \<le> bd_last_update_id b)
   \<and> (so_model so = va_book_model (okx_adapter D S2) \<and> accepted_after D crc so (okx_to_delta symb od False) l
        \<and> od_prev_seq_id od = Some pr \<and> pr \<ge> 0
      \<longrightarrow> of_int pr = l)
   \<and> (so_model so = va_book_model (htx_adapter show_f64 D S3 snapshot symbols declared)
        \<and> accepted_after D crc so (htx_to_delta show_f64 symb tick ts False) l \<and> hx_prev_seq_num tick = Some hp
      \<longrightarrow> hp = l)
   \<and> (so_model so = va_book_model (bitget_adapter D S4) \<and> accepted_after D crc so (bitget_to_delta symb gd False) l
        \<and> gb_pseq gd = Some gp
      \<longrightarrow> gp = l)
   \<and> (so_model so = va_book_model (poloniex_adapter D S5) \<and> accepted_after D crc so (poloniex_to_delta pd False) l
      \<longrightarrow> pl_last_id pd = l)
   \<and> (so_model so = va_book_model (bybit_adapter D S6 liq tick6) \<and> yr_ty resp \<noteq> ''snapshot''
        \<and> fst (bybit_normalize D (BybitOrderbook resp) m) = [Book delta] \<and> accepted_after D crc so delta l
      \<longrightarrow> yo_update_id (yr_data resp) = l + 1)"
  (is "(?b1 \<longrightarrow> ?b2) \<and> (?o1 \<longrightarrow> ?o2) \<and> (?h1 \<longrightarrow> ?h2) \<and> (?g1 \<longrightarrow> ?g2) \<and> (?p1 \<longrightarrow> ?p2) \<and> (?y1 \<longrightarrow> ?y2)")
proof (intro conjI impI)
  assume ?b1
  then show "bd_first_update_id b \<le> l + 1" "l + 1 \<le> bd_last_update_id b"
    using accepted_continuous [of D crc so "binance_depth_to_normalized b" l RangeInclusive RestSnapshot]
    by (simp_all add: venue_deltas inc_le)
next
  assume ?o1
  then show ?o2 using accepted_continuous [of D crc so "okx_to_delta symb od False" l ExactPrev WssSelfSeed]
    by (auto simp: venue_deltas)
next
  assume ?h1
  then show ?h2 using accepted_continuous [of D crc so "htx_to_delta show_f64 symb tick ts False" l ExactPrev ReqOnSocket]
    by (auto simp: venue_deltas Let_def)
next
  assume ?g1
  then show ?g2 using accepted_continuous [of D crc so "bitget_to_delta symb gd False" l ExactPrev WssSelfSeed]
    by (auto simp: venue_deltas Let_def)
next
  assume ?p1
  then show ?p2 using accepted_continuous [of D crc so "poloniex_to_delta pd False" l ExactPrev WssSelfSeed]
    by (simp add: venue_deltas)
next
  assume y: ?y1
  then have "nd_sequence delta = yo_update_id (yr_data resp)" "nd_update_id delta = yo_update_id (yr_data resp)" "\<not> nd_is_snapshot delta"
    by (auto simp: bybit_to_normalized_def Let_def book_delta_def split: if_splits)
  then show ?y2 using y accepted_continuous [of D crc so delta l RangeInclusive WssSelfSeed] between_is_next
    by (simp add: venue_deltas)
qed

abbreviation binance_book :: "xdec sourced_orderbook" where
  "binance_book \<equiv> snd (so_apply exact_decimal (\<lambda>_. 0) (so_new sample_pair (SeqDelta RangeInclusive RestSnapshot) ActRestSnapshot)
     (binance_snapshot_to_normalized ''BTCUSDT'' \<lparr>bsn_last_update_id = 156, bsn_bids = [], bsn_asks = []\<rparr>))"

abbreviation binance_depth :: binance_depth_update where
  "binance_depth \<equiv> \<lparr>bd_event_type = ''depthUpdate'', bd_event_time = 0, bd_symbol = ''BTCUSDT'', bd_first_update_id = 157,
     bd_last_update_id = 160, bd_bids = [], bd_asks = []\<rparr>"

lemmas binance_run_defs = so_apply_def apply_model_def so_new_def apply_seq_delta_def process_or_gap_def process_def
  apply_snapshot_def apply_delta_def od_new_def prune_to_depth_def od_best_bid_def od_best_ask_def bt_last_def bt_first_def
  binance_snapshot_to_normalized_def binance_depth_to_normalized_def book_delta_def sample_pair_def Let_def

lemma binance_wire_symbol: "pair_from_str ''BTCUSDT'' = Ok \<lparr>tp_base = ''BTC'', tp_quote = ''USDT''\<rparr>"
  by code_simp

lemma binance_book_model: "so_model binance_book = SeqDelta RangeInclusive RestSnapshot"
  by (simp add: binance_run_defs binance_wire_symbol)

lemma binance_depth_accepted: "accepted_after exact_decimal (\<lambda>_. 0) binance_book (binance_depth_to_normalized binance_depth) 156"
  by (simp add: accepted_after_def binance_run_defs binance_wire_symbol)

theorem venue_updates_accepted_in_sequence_witness:
  "bd_first_update_id binance_depth \<le> 156 + 1 \<and> 156 + 1 \<le> bd_last_update_id binance_depth"
proof -
  fix S1 :: "(binance_depth_update, binance_trade_data) value_serde"
  have "so_model binance_book = va_book_model (binance_adapter exact_decimal S1)"
    by (simp add: binance_book_model binance_adapter_def default_adapter_def)
  then show ?thesis
    using binance_depth_accepted venue_updates_accepted_in_sequence [where so = binance_book and D = exact_decimal, THEN conjunct1, THEN mp]
    by blast
qed

end
