(* ===== verification/Venue_Coinbase.thy ===== *)
theory Venue_Coinbase
  imports Venue
begin

text \<open>
  The Coinbase adapter (\<open>framework/adapters/coinbase.rs\<close> and \<open>sources/coinbase\<close>): the decoder that
  surfaces every numbered frame, the tracker of the connection-wide sequence number, the normalisers
  and the supervision of the two sockets.

  The tracker reads the monotonic clock and draws a jitter in milliseconds; both are arguments of an
  observation.  Its mutex is not contended.
\<close>

section \<open>Messages\<close>

record coinbase_l2_update =
  cu_side :: string
  cu_event_time :: string
  cu_price_level :: string
  cu_new_quantity :: string

record coinbase_l2_event =
  ce_ty :: string
  ce_product_id :: string
  ce_updates :: "coinbase_l2_update list"

record coinbase_orderbook_response =
  co_channel :: string
  co_timestamp :: string
  co_sequence_num :: u64
  co_events :: "coinbase_l2_event list"

record coinbase_trade_data =
  ct_trade_id :: string
  ct_product_id :: string
  ct_price :: string
  ct_size :: string
  ct_side :: string
  ct_time :: string

record coinbase_trade_event =
  cv_ty :: string
  cv_trades :: "coinbase_trade_data list"

record coinbase_heartbeat_response =
  ch_sequence_num :: u64
  ch_counters :: "u64 list"

datatype coinbase_event =
    CbOrderbook coinbase_orderbook_response
  | CbTrades "coinbase_trade_data list"
  | CbHeartbeat u64 u64
  | CbControl u64

record coinbase_serde =
  cs_value :: "string \<Rightarrow> (json, string) result"
  cs_book :: "string \<Rightarrow> (coinbase_orderbook_response, string) result"
  cs_trades :: "string \<Rightarrow> (coinbase_trade_event list, string) result"
  cs_heartbeat :: "string \<Rightarrow> (coinbase_heartbeat_response, string) result"

definition sequenced_control :: "u64 option \<Rightarrow> (coinbase_event option, string) result" where
  "sequenced_control seq = Ok (map_option CbControl seq)"

definition coinbase_decode :: "coinbase_serde \<Rightarrow> string \<Rightarrow> (coinbase_event option, string) result" where
  "coinbase_decode S text =
     result_bind (cs_value S text) (\<lambda>v.
       let ty = map_option (\<lambda>t. unwrap_or (as_str t) []) (json_get v ''type'') in
       if ty = Some ''subscriptions'' \<or> ty = Some ''error'' then Ok None
       else
         let channel = unwrap_or (get_str v ''channel'') [];
             seq = Option.bind (json_get v ''sequence_num'') as_u64
         in if channel = ''l2_data'' then
              (case cs_book S text of Ok resp \<Rightarrow> Ok (Some (CbOrderbook resp)) | Err _ \<Rightarrow> sequenced_control seq)
            else if channel = ''market_trades'' then
              (case cs_trades S text of
                 Ok events \<Rightarrow>
                   (let trades = concat (map cv_trades events) in
                    if trades = [] then sequenced_control seq else Ok (Some (CbTrades trades)))
               | Err _ \<Rightarrow> sequenced_control seq)
            else if channel = ''heartbeats'' then
              (case cs_heartbeat S text of
                 Ok resp \<Rightarrow>
                   (case ch_counters resp of
                      c # _ \<Rightarrow> Ok (Some (CbHeartbeat (ch_sequence_num resp) c))
                    | [] \<Rightarrow> sequenced_control seq)
               | Err _ \<Rightarrow> sequenced_control seq)
            else sequenced_control seq)"

section \<open>Hooks\<close>

datatype coinbase_channels = Level2WithHeartbeats | TradesOnly

definition coinbase_subscribe_frames :: "coinbase_channels \<Rightarrow> string list \<Rightarrow> declared_datatype list \<Rightarrow> message list" where
  "coinbase_subscribe_frames channels symbols declared =
     (let sub = \<lambda>channel. frame_text (JObj [(''type'', JStr ''subscribe''), (''product_ids'', JArr (map JStr symbols)),
            (''channel'', JStr channel)])
      in case channels of
           Level2WithHeartbeats \<Rightarrow> [sub ''level2'', sub ''heartbeats'']
         | TradesOnly \<Rightarrow> [sub ''market_trades''])"

definition coinbase_hooks :: "coinbase_channels \<Rightarrow> protocol_hooks" where
  "coinbase_hooks channels = default_hooks ''wss://advanced-trade-ws.coinbase.com'' (coinbase_subscribe_frames channels)"

section \<open>The sequence tracker\<close>

definition GAP_DEBOUNCE_FLOOR :: duration where
  "GAP_DEBOUNCE_FLOOR = 10 * 10 ^ 6"

record seq_tracker =
  sq_last_seq :: "u64 option"
  sq_last_hb :: "u64 option"
  sq_unattributed :: u64
  sq_deadline :: "instant option"

definition tracker_new :: seq_tracker where
  "tracker_new = \<lparr>sq_last_seq = None, sq_last_hb = None, sq_unattributed = 0, sq_deadline = None\<rparr>"

definition observe_seq :: "u64 \<Rightarrow> instant \<Rightarrow> nat \<Rightarrow> seq_tracker \<Rightarrow> seq_tracker" where
  "observe_seq seq now jitter_ms t =
     (let t = (case sq_last_seq t of
                 None \<Rightarrow> t
               | Some prev \<Rightarrow>
                   (let jump = saturating_sub seq (saturating_add prev 1) in
                    if jump > 0
                    then t\<lparr>sq_unattributed := saturating_add (sq_unattributed t) jump,
                           sq_deadline := (case sq_deadline t of
                              None \<Rightarrow> Some (now + GAP_DEBOUNCE_FLOOR + jitter_ms * 10 ^ 6) | Some d \<Rightarrow> Some d)\<rparr>
                    else t))
      in t\<lparr>sq_last_seq := Some seq\<rparr>)"

definition observe_heartbeat :: "u64 option \<Rightarrow> seq_tracker \<Rightarrow> seq_tracker" where
  "observe_heartbeat hb_counter t =
     (case hb_counter of
        None \<Rightarrow> t
      | Some hb \<Rightarrow>
          (let t = (case sq_last_hb t of
                      None \<Rightarrow> t
                    | Some prev_hb \<Rightarrow>
                        (let hb_jump = saturating_sub hb (saturating_add prev_hb 1) in
                         if hb_jump > 0 then t\<lparr>sq_unattributed := saturating_sub (sq_unattributed t) hb_jump\<rparr> else t));
               t = t\<lparr>sq_last_hb := Some hb\<rparr>
           in if sq_unattributed t = 0 then t\<lparr>sq_deadline := None\<rparr> else t))"

definition confirm_gap :: "instant \<Rightarrow> seq_tracker \<Rightarrow> u64 option \<times> seq_tracker" where
  "confirm_gap now t =
     (case sq_deadline t of
        None \<Rightarrow> (None, t)
      | Some d \<Rightarrow>
          if d \<le> now \<and> sq_unattributed t > 0
          then (Some (sq_unattributed t), t\<lparr>sq_unattributed := 0, sq_deadline := None\<rparr>)
          else (None, t))"

definition observe :: "u64 \<Rightarrow> u64 option \<Rightarrow> instant \<Rightarrow> nat \<Rightarrow> seq_tracker \<Rightarrow> u64 option \<times> seq_tracker" where
  "observe seq hb_counter now jitter_ms t = confirm_gap now (observe_heartbeat hb_counter (observe_seq seq now jitter_ms t))"

section \<open>The normaliser\<close>

text \<open>\<open>None\<close> is a normaliser without a tracker (the trade socket).\<close>

definition track :: "u64 \<Rightarrow> u64 option \<Rightarrow> instant \<Rightarrow> nat \<Rightarrow> seq_tracker option \<Rightarrow> 'd domain_event list \<times> seq_tracker option" where
  "track seq hb_counter now jitter_ms tracker =
     (case tracker of
        None \<Rightarrow> ([], None)
      | Some t \<Rightarrow>
          (case observe seq hb_counter now jitter_ms t of
             (None, t) \<Rightarrow> ([], Some t)
           | (Some dropped, t) \<Rightarrow> ([ConnectionGap dropped], Some t)))"

definition coinbase_to_delta :: "u64 \<Rightarrow> u64 \<Rightarrow> coinbase_l2_event \<Rightarrow> normalized_delta" where
  "coinbase_to_delta seq event_ts event =
     (let row = \<lambda>u. (cu_price_level u, cu_new_quantity u) in
      book_delta (ce_product_id event)
        (map row (filter (\<lambda>u. cu_side u = ''bid'') (ce_updates event)))
        (map row (filter (\<lambda>u. cu_side u = ''offer'' \<or> cu_side u = ''ask'') (ce_updates event)))
        seq seq event_ts (ce_ty event = ''snapshot''))"

definition coinbase_normalize_book :: "(string \<Rightarrow> u64 option) \<Rightarrow> coinbase_orderbook_response \<Rightarrow> 'd domain_event list" where
  "coinbase_normalize_book rfc3339 resp =
     (let event_ts = unwrap_or (rfc3339 (co_timestamp resp)) 0 in
      map (\<lambda>e. Book (coinbase_to_delta (co_sequence_num resp) event_ts e)) (co_events resp))"

definition COINBASE_CODEC :: symbol_codec where
  "COINBASE_CODEC = Hyphen"

definition coinbase_normalize_trade ::
  "(string \<Rightarrow> u64 option) \<Rightarrow> 'd decimal_ops \<Rightarrow> coinbase_trade_data \<Rightarrow> source_metrics \<Rightarrow> 'd domain_event option \<times> source_metrics"
where
  "coinbase_normalize_trade rfc3339 D t m =
     (case codec_decode COINBASE_CODEC (ct_product_id t) of
        None \<Rightarrow> drop_frame m
      | Some pair \<Rightarrow>
          (case parse_pair D (ct_size t) (ct_price t) of
             None \<Rightarrow> drop_frame m
           | Some (amount, price) \<Rightarrow>
               (case trade_side_from_str_loose (ct_side t) of
                  None \<Rightarrow> drop_frame m
                | Some side \<Rightarrow>
                    (Some (TradeEv (ws_trade (unwrap_or (rfc3339 (ct_time t)) 0) pair side amount price ''coinbase''
                        (ct_trade_id t)) (parse_u64 (ct_trade_id t))), m))))"

fun coinbase_normalize ::
  "(string \<Rightarrow> u64 option) \<Rightarrow> 'd decimal_ops \<Rightarrow> instant \<Rightarrow> nat \<Rightarrow> coinbase_event \<Rightarrow> seq_tracker option \<times> source_metrics
     \<Rightarrow> 'd domain_event list \<times> seq_tracker option \<times> source_metrics"
where
  "coinbase_normalize rfc3339 D now jitter_ms (CbOrderbook resp) (tr, m) =
     (case track (co_sequence_num resp) None now jitter_ms tr of
        (gaps, tr) \<Rightarrow> (gaps @ coinbase_normalize_book rfc3339 resp, tr, m))"
| "coinbase_normalize rfc3339 D now jitter_ms (CbTrades trades) (tr, m) =
     (case normalize_batch (coinbase_normalize_trade rfc3339 D) (rev trades) m of (evs, m) \<Rightarrow> (evs, tr, m))"
| "coinbase_normalize rfc3339 D now jitter_ms (CbHeartbeat seq counter) (tr, m) =
     (case track seq (Some counter) now jitter_ms tr of (gaps, tr) \<Rightarrow> (gaps, tr, m))"
| "coinbase_normalize rfc3339 D now jitter_ms (CbControl seq) (tr, m) =
     (case track seq None now jitter_ms tr of (gaps, tr) \<Rightarrow> (gaps, tr, m))"

section \<open>The adapter\<close>

definition coinbase_profile :: exchange_profile where
  "coinbase_profile = plain_profile ''coinbase'' COINBASE_CODEC budget_default ''coinbase-adv-v3''"

definition coinbase_book_model :: reconstruction_model where
  "coinbase_book_model = SeqDelta Monotonic WssSelfSeed"

text \<open>Offline replay uses the decoder and a normaliser without a tracker.\<close>

definition coinbase_replay_frame ::
  "(string \<Rightarrow> u64 option) \<Rightarrow> 'd decimal_ops \<Rightarrow> coinbase_serde \<Rightarrow> string \<Rightarrow> ('d domain_event list, string) result"
where
  "coinbase_replay_frame rfc3339 D S raw =
     (case coinbase_decode S raw of
        Err e \<Rightarrow> Err e
      | Ok None \<Rightarrow> Ok []
      | Ok (Some event) \<Rightarrow> Ok (fst (coinbase_normalize rfc3339 D 0 2 event (None, metrics_default))))"

definition coinbase_preview :: "string list \<Rightarrow> declared_datatype list \<Rightarrow> string list" where
  "coinbase_preview symbols declared =
     (if DtOrderbook \<in> set declared then preview_frames (coinbase_subscribe_frames Level2WithHeartbeats symbols declared) else [])
     @ (if DtTrades \<in> set declared then preview_frames (coinbase_subscribe_frames TradesOnly symbols declared) else [])"

text \<open>Which sockets are opened, and the exit of the supervisor: \<open>None\<close> is a socket task that panicked.\<close>

definition coinbase_sockets :: "declared_datatype list \<Rightarrow> coinbase_channels list" where
  "coinbase_sockets declared =
     (if DtOrderbook \<in> set declared then [Level2WithHeartbeats] else []) @ (if DtTrades \<in> set declared then [TradesOnly] else [])"

definition coinbase_panicked :: task_exit where
  "coinbase_panicked = TaskFailed (TransportError ''coinbase socket task panicked'')"

definition coinbase_supervise :: "bool \<Rightarrow> task_exit option \<Rightarrow> task_exit option \<Rightarrow> task_exit" where
  "coinbase_supervise shutting_down first second =
     (if shutting_down then
        (case (first, second) of
           (Some TaskCompleted, Some other) \<Rightarrow> other
         | (Some f, Some _) \<Rightarrow> f
         | _ \<Rightarrow> coinbase_panicked)
      else unwrap_or first coinbase_panicked)"

interpretation coinbase: trade_normaliser "coinbase_normalize_trade rfc3339 D" "''coinbase''" for rfc3339 D
  by unfold_locales (auto simp: coinbase_normalize_trade_def split: option.splits prod.splits)

section \<open>What a reported gap counts\<close>

text \<open>
  The traffic of a connection: consecutive slots, each a heartbeat or not, delivered or lost, with the
  time of delivery and the jitter drawn then.  Slots carry consecutive sequence numbers, heartbeats
  consecutive counters.
\<close>

type_synonym slot = "bool \<times> bool \<times> instant \<times> nat"

fun receive :: "slot \<Rightarrow> nat \<times> nat \<times> seq_tracker \<times> u64 list \<Rightarrow> nat \<times> nat \<times> seq_tracker \<times> u64 list" where
  "receive (hb, delivered, now, jitter_ms) (s, h, t, reports) =
     (case (if delivered then observe (of_nat s) (if hb then Some (of_nat h) else None) now jitter_ms t else (None, t)) of
        (r, t) \<Rightarrow> (Suc s, (if hb then Suc h else h), t, reports @ (case r of None \<Rightarrow> [] | Some n \<Rightarrow> [n])))"

definition lost_data :: "slot list \<Rightarrow> nat" where
  "lost_data xs = length (filter (\<lambda>(hb, delivered, _). \<not> hb \<and> \<not> delivered) xs)"

definition lost_heartbeats :: "slot list \<Rightarrow> nat" where
  "lost_heartbeats xs = length (filter (\<lambda>(hb, delivered, _). hb \<and> \<not> delivered) (takeWhile (\<lambda>(hb, delivered, _). \<not> (hb \<and> delivered)) (rev xs)))"

lemma lost_simps:
  "lost_data [] = 0" "lost_heartbeats [] = 0"
  "lost_data (xs @ [(hb, delivered, now, j)]) = lost_data xs + (if hb \<or> delivered then 0 else 1)"
  "lost_heartbeats (xs @ [(hb, delivered, now, j)]) =
     (if hb \<and> delivered then 0 else lost_heartbeats xs + (if hb \<and> \<not> delivered then 1 else 0))"
  by (simp_all add: lost_data_def lost_heartbeats_def)

definition tracking :: "nat \<Rightarrow> nat \<Rightarrow> seq_tracker" where
  "tracking s h = \<lparr>sq_last_seq = Some (of_nat s), sq_last_hb = Some (of_nat h), sq_unattributed = 0, sq_deadline = None\<rparr>"

abbreviation traffic :: "nat \<Rightarrow> nat \<Rightarrow> slot list \<Rightarrow> nat \<times> nat \<times> seq_tracker \<times> u64 list" where
  "traffic s h xs \<equiv> fold receive xs (Suc s, Suc h, tracking s h, [])"

lemma unat_of_nat_small: "n < 2 ^ 64 \<Longrightarrow> unat (of_nat n :: u64) = n"
  by (simp add: unsigned_of_nat take_bit_nat_eq_self)

lemma jump_count:
  assumes "unat b = unat a + Suc k"
  shows "unat (saturating_sub b (saturating_add a 1)) = k"
proof -
  have "unat b < 2 ^ 64" using unsigned_less [of b] by simp
  then have "unat (saturating_add a 1) = Suc (unat a)" using assms by (simp add: unat_saturating_add)
  then show ?thesis using assms by (simp add: unat_saturating_sub)
qed

lemma observe_seq_counts:
  assumes "sq_last_seq t = Some a" "unat b = unat a + Suc k" "unat (sq_unattributed t) + k < 2 ^ 64"
    and "sq_unattributed t > 0 \<longrightarrow> sq_deadline t \<noteq> None" "observe_seq b now j t = t'"
  shows "sq_last_seq t' = Some b \<and> sq_last_hb t' = sq_last_hb t \<and> unat (sq_unattributed t') = unat (sq_unattributed t) + k
    \<and> (sq_unattributed t' > 0 \<longrightarrow> sq_deadline t' \<noteq> None)"
proof -
  define jump where "jump = saturating_sub b (saturating_add a 1)"
  have k: "unat jump = k" unfolding jump_def by (rule jump_count [OF assms(2)])
  then have "jump > 0 \<longleftrightarrow> k > 0" by (simp add: word_gt_0 flip: unat_gt_0)
  moreover have "unat (saturating_add (sq_unattributed t) jump) = unat (sq_unattributed t) + k"
    using assms(3) k by (simp add: unat_saturating_add)
  ultimately show ?thesis
    using assms(1,4) by (auto simp: assms(5) [symmetric] observe_seq_def Let_def jump_def [symmetric] split: option.splits)
qed

lemma observe_heartbeat_counts:
  assumes "sq_last_hb t = Some a" "unat b = unat a + Suc k"
    and "sq_unattributed t > 0 \<longrightarrow> sq_deadline t \<noteq> None" "observe_heartbeat (Some b) t = t'"
  shows "sq_last_seq t' = sq_last_seq t \<and> sq_last_hb t' = Some b \<and> unat (sq_unattributed t') = unat (sq_unattributed t) - k
    \<and> (sq_unattributed t' > 0 \<longrightarrow> sq_deadline t' \<noteq> None)"
proof -
  define jump where "jump = saturating_sub b (saturating_add a 1)"
  have k: "unat jump = k" unfolding jump_def by (rule jump_count [OF assms(2)])
  then have "jump > 0 \<longleftrightarrow> k > 0" by (simp add: word_gt_0 flip: unat_gt_0)
  moreover have sub: "unat (saturating_sub (sq_unattributed t) jump) = unat (sq_unattributed t) - k"
    using k by (simp add: unat_saturating_sub)
  moreover have "sq_unattributed t > 0" if "saturating_sub (sq_unattributed t) jump \<noteq> 0"
    using that sub by (metis diff_0_eq_0 unat_0 unat_eq_0 word_gt_0)
  ultimately show ?thesis
    using assms(1,3) by (auto simp: assms(4) [symmetric] observe_heartbeat_def Let_def jump_def [symmetric] word_gt_0)
qed

text \<open>
  Until a gap is reported: \<open>ps\<close> slots were lost behind the last delivered frame, and what is
  unattributed is the lost data plus the heartbeats lost behind the last delivered heartbeat.
\<close>

definition tracks :: "nat \<Rightarrow> nat \<Rightarrow> slot list \<Rightarrow> nat \<Rightarrow> seq_tracker \<Rightarrow> bool" where
  "tracks s h xs ps t \<longleftrightarrow>
     (\<exists>a b. sq_last_seq t = Some a \<and> s = unat a + Suc ps \<and> sq_last_hb t = Some b \<and> h = unat b + Suc (lost_heartbeats xs))
   \<and> unat (sq_unattributed t) + ps = lost_data xs + lost_heartbeats xs
   \<and> (sq_unattributed t > 0 \<longrightarrow> sq_deadline t \<noteq> None)"

lemma tracks_observe:
  assumes "tracks s h xs ps t" "s < 2 ^ 64" "h < 2 ^ 64" "lost_data xs + lost_heartbeats xs < 2 ^ 64"
    and "observe_heartbeat (if hb then Some (of_nat h) else None) (observe_seq (of_nat s) now j t) = t'"
  shows "tracks (Suc s) (if hb then Suc h else h) (xs @ [(hb, True, now, j)]) 0 t'"
proof -
  obtain a b where t: "sq_last_seq t = Some a" "s = unat a + Suc ps" "sq_last_hb t = Some b" "h = unat b + Suc (lost_heartbeats xs)"
      "unat (sq_unattributed t) + ps = lost_data xs + lost_heartbeats xs" "sq_unattributed t > 0 \<longrightarrow> sq_deadline t \<noteq> None"
    using assms(1) by (auto simp: tracks_def)
  define w where "w = (of_nat s :: u64)"
  define v where "v = (of_nat h :: u64)"
  have w: "unat w = s" and v: "unat v = h" using assms(2,3) by (simp_all only: w_def v_def unat_of_nat_small)
  obtain t1 where t1: "observe_seq w now j t = t1" by simp
  have s1: "sq_last_seq t1 = Some w \<and> sq_last_hb t1 = sq_last_hb t \<and> unat (sq_unattributed t1) = unat (sq_unattributed t) + ps
      \<and> (sq_unattributed t1 > 0 \<longrightarrow> sq_deadline t1 \<noteq> None)"
    by (rule observe_seq_counts [OF t(1) _ _ t(6) t1]) (use t(2,5) w assms(4) in simp_all)
  show ?thesis
  proof (cases hb)
    case False
    then have "t' = t1" using assms(5) t1 by (simp add: observe_heartbeat_def w_def)
    with False s1 t w show ?thesis by (simp add: tracks_def lost_simps)
  next
    case True
    then have t': "observe_heartbeat (Some v) t1 = t'" using assms(5) t1 by (simp add: w_def v_def)
    have "sq_last_seq t' = sq_last_seq t1 \<and> sq_last_hb t' = Some v
        \<and> unat (sq_unattributed t') = unat (sq_unattributed t1) - lost_heartbeats xs
        \<and> (sq_unattributed t' > 0 \<longrightarrow> sq_deadline t' \<noteq> None)"
      by (rule observe_heartbeat_counts [OF _ _ _ t']) (use s1 t(3,4) v in simp_all)
    with True s1 t w v show ?thesis by (simp add: tracks_def lost_simps)
  qed
qed

lemma tracks_lost:
  "tracks s h xs ps t \<Longrightarrow> tracks (Suc s) (if hb then Suc h else h) (xs @ [(hb, False, now, j)]) (Suc ps) t"
  by (auto simp: tracks_def lost_simps)

lemma confirm_gap_none: "confirm_gap now t = (None, t') \<Longrightarrow> t' = t"
  by (auto simp: confirm_gap_def split: option.splits if_splits)

lemma lost_le: "lost_data xs + lost_heartbeats xs \<le> length xs"
proof -
  have "lost_heartbeats xs \<le> length (filter (\<lambda>(hb, delivered, _). hb \<and> \<not> delivered) xs)"
    by (induction xs rule: rev_induct) (auto simp: lost_simps split: if_splits)
  moreover have "lost_data xs + length (filter (\<lambda>(hb, delivered, _). hb \<and> \<not> delivered) xs) \<le> length xs"
    by (induction xs) (auto simp: lost_data_def)
  ultimately show ?thesis by simp
qed

lemma receive_tracks:
  assumes "tracks s h xs ps t" "s < 2 ^ 64" "h < 2 ^ 64" "length xs < 2 ^ 64"
    and "receive (hb, delivered, now, j) (s, h, t, []) = (s', h', t', [])"
  shows "s' = Suc s \<and> h' \<le> Suc h \<and> (\<exists>ps'. tracks s' h' (xs @ [(hb, delivered, now, j)]) ps' t')"
proof (cases delivered)
  case False
  with assms(5) have "s' = Suc s" "h' = (if hb then Suc h else h)" "t' = t" by auto
  with False tracks_lost [OF assms(1), of hb now j] show ?thesis by auto
next
  case True
  define t2 where "t2 = observe_heartbeat (if hb then Some (of_nat h) else None) (observe_seq (of_nat s) now j t)"
  have "tracks (Suc s) (if hb then Suc h else h) (xs @ [(hb, True, now, j)]) 0 t2"
    by (rule tracks_observe [OF assms(1-3)]) (use lost_le [of xs] assms(4) in \<open>simp_all add: t2_def\<close>)
  moreover have "s' = Suc s \<and> h' = (if hb then Suc h else h) \<and> confirm_gap now t2 = (None, t')"
    using assms(5) True by (auto simp: observe_def t2_def [symmetric] split: prod.splits option.splits if_splits)
  ultimately show ?thesis using True confirm_gap_none [of now t2 t'] by auto
qed

lemma receive_reports: "receive (hb, delivered, now, j) (s, h, t, r) = (s', h', t', []) \<Longrightarrow> r = []"
  by (cases r) (auto split: prod.splits)

lemma traffic_tracks:
  assumes "traffic s h xs = (s', h', t, [])" "s + length xs < 2 ^ 64" "h + length xs < 2 ^ 64"
  shows "s' = Suc (s + length xs) \<and> h' \<le> Suc (h + length xs) \<and> (\<exists>ps. tracks s' h' xs ps t)"
  using assms
proof (induction xs arbitrary: s' h' t rule: rev_induct)
  case Nil
  then have "tracks (Suc s) (Suc h) [] 0 (tracking s h)"
    using unat_of_nat_small [of s] unat_of_nat_small [of h] by (auto simp: tracks_def tracking_def lost_simps)
  with Nil.prems(1) show ?case by auto
next
  case (snoc x xs)
  obtain s1 h1 t1 r1 where f: "traffic s h xs = (s1, h1, t1, r1)" by (cases "traffic s h xs")
  obtain hb delivered now j where x: "x = (hb, delivered, now, j)" by (cases x)
  have r: "receive x (s1, h1, t1, r1) = (s', h', t, [])" using snoc.prems(1) f by simp
  then have "r1 = []" unfolding x by (rule receive_reports)
  have len: "s + length xs < 2 ^ 64" "h + length xs < 2 ^ 64" using snoc.prems(2,3) by simp_all
  obtain ps where IH: "s1 = Suc (s + length xs)" "h1 \<le> Suc (h + length xs)" "tracks s1 h1 xs ps t1"
    using snoc.IH [OF f [unfolded \<open>r1 = []\<close>] len] by blast
  have "s' = Suc s1 \<and> h' \<le> Suc h1 \<and> (\<exists>ps'. tracks s' h' (xs @ [x]) ps' t)"
    unfolding x by (rule receive_tracks [OF IH(3) _ _ _ r [unfolded x \<open>r1 = []\<close>]]) (use IH(1,2) snoc.prems(2,3) in simp_all)
  with IH(1,2) show ?case by auto
qed

lemma delivered_gap:
  assumes "tracks s h (xs @ [(hb, True, now, j)]) 0 t" "confirm_gap now t = (r, t')"
  shows "(case r of Some n \<Rightarrow> unat n = lost_data xs + (if hb then 0 else lost_heartbeats xs) \<and> n > 0
          | None \<Rightarrow> lost_data xs + (if hb then 0 else lost_heartbeats xs) = 0 \<or> (\<exists>d>now. sq_deadline t' = Some d))"
proof -
  have u: "unat (sq_unattributed t) = lost_data xs + (if hb then 0 else lost_heartbeats xs)"
    and d: "sq_unattributed t > 0 \<longrightarrow> sq_deadline t \<noteq> None"
    using assms(1) by (auto simp: tracks_def lost_simps)
  show ?thesis
    using assms(2) d unfolding u [symmetric] by (auto simp: confirm_gap_def word_gt_0 split: option.splits if_splits)
qed


text \<open>Two lost data frames and a lost heartbeat, seen by a data frame and settled by the heartbeat 20 ms later.\<close>

abbreviation lossy_slots :: "slot list" where
  "lossy_slots \<equiv> [(False, False, 0, 0), (True, False, 0, 0), (False, False, 0, 0), (False, True, 10000000, 0)]"

lemma lossy_traffic:
  "traffic 99 7 lossy_slots = (104, 9, \<lparr>sq_last_seq = Some 103, sq_last_hb = Some 7, sq_unattributed = 3, sq_deadline = Some 20000000\<rparr>, [])"
  by (simp add: tracking_def observe_def observe_seq_def observe_heartbeat_def confirm_gap_def GAP_DEBOUNCE_FLOOR_def
      saturating_sub_def saturating_add_def)

lemma lossy_heartbeat:
  "observe (of_nat 104) (if True then Some (of_nat 9) else None) 30000000 0
     \<lparr>sq_last_seq = Some 103, sq_last_hb = Some 7, sq_unattributed = 3, sq_deadline = Some 20000000\<rparr>
   = (Some 2, \<lparr>sq_last_seq = Some 104, sq_last_hb = Some 9, sq_unattributed = 0, sq_deadline = None\<rparr>)"
  by (simp add: tracking_def observe_def observe_seq_def observe_heartbeat_def confirm_gap_def GAP_DEBOUNCE_FLOOR_def
      saturating_sub_def saturating_add_def)


text \<open>A heartbeat lost alone is reported as a gap of one by the data frames that follow it.\<close>

lemma lost_heartbeat_reported_as_gap:
  assumes "now + GAP_DEBOUNCE_FLOOR + j * 10 ^ 6 \<le> now'"
  shows "snd (snd (snd (traffic 4 4 [(True, False, 0, 0), (False, True, now, j), (False, True, now', j')]))) = [1]"
    "lost_data [(True, False, 0, 0), (False, True, now, j), (False, True, now', j')] = 0"
  using assms by (simp_all add: lost_data_def tracking_def observe_def observe_seq_def observe_heartbeat_def confirm_gap_def
      saturating_sub_def saturating_add_def split: if_splits)

end
