(* ===== verification/Venue_Seeded.thy ===== *)
theory Venue_Seeded
  imports Venue_Spot
begin

text \<open>
  The two adapters with REST-seeded books of their own kind: Bitso, whose book is a set of orders and
  whose messages are numbered per book, and KuCoin, whose socket address is handed out by a REST call
  (\<open>framework/adapters/bitso.rs\<close>, \<open>framework/adapters/kucoin.rs\<close>, \<open>sources/bitso\<close>, \<open>sources/kucoin\<close>
  and the shared request of \<open>framework/rest.rs\<close>).

  An HTTP exchange is an argument: \<open>get\<close> answers an address with a body, \<open>post\<close> may fail when sending
  and when reading the body.  Errors are their texts.
\<close>

definition get_raw :: "(string \<Rightarrow> (string, string) result) \<Rightarrow> string \<Rightarrow> string \<Rightarrow> string \<Rightarrow> (string, string) result" where
  "get_raw get base path query = get (base @ path @ query)"

section \<open>Bitso\<close>

record bitso_diff_order =
  bo_d :: u64
  bo_r :: "string option"
  bo_a :: "string option"
  bo_t :: "8 word"
  bo_o :: string
  bo_s :: string

record bitso_diff_message =
  bm_book :: string
  bm_payload :: "bitso_diff_order list"
  bm_sequence :: "u64 option"

record bitso_ws_trade =
  bx_i :: u64
  bx_a :: string
  bx_r :: string
  bx_t :: "8 word"
  bx_x :: u64

record bitso_trade_message =
  by_book :: string
  by_payload :: "bitso_ws_trade list"

datatype bitso_event = BitsoDiffOrders bitso_diff_message | BitsoTrades bitso_trade_message

fun is_array :: "json \<Rightarrow> bool" where
  "is_array (JArr _) = True"
| "is_array _ = False"

definition bitso_decode ::
  "(bitso_diff_message, bitso_trade_message) value_serde \<Rightarrow> string \<Rightarrow> (bitso_event option, string) result"
where
  "bitso_decode S text =
     result_bind (vs_value S text) (\<lambda>v.
       let has_payload = (map_option is_array (json_get v ''payload'') = Some True) in
       if get_str v ''type'' = Some ''diff-orders'' then
         (if \<not> has_payload then Ok None else decoded (vs_book S v) BitsoDiffOrders)
       else if get_str v ''type'' = Some ''trades'' then
         (if \<not> has_payload then Ok None else decoded (vs_trade S v) BitsoTrades)
       else Ok None)"

definition BITSO_CODEC :: symbol_codec where
  "BITSO_CODEC = Underscore False"

definition bitso_subscribe_frames :: "string list \<Rightarrow> declared_datatype list \<Rightarrow> message list" where
  "bitso_subscribe_frames symbols declared =
     (let frame = \<lambda>s ty. frame_text (JObj [(''action'', JStr ''subscribe''), (''book'', JStr s), (''type'', JStr ty)])
      in concat (map (\<lambda>s.
           (if DtOrderbook \<in> set declared then [frame s ''diff-orders''] else [])
           @ (if DtTrades \<in> set declared then [frame s ''trades''] else [])) symbols))"

definition bitso_hooks :: protocol_hooks where
  "bitso_hooks = default_hooks ''wss://ws.bitso.com'' bitso_subscribe_frames"

text \<open>The normaliser: the shared counters and the last sequence number of each book.\<close>

record bitso_normalizer =
  bn_metrics :: source_metrics
  bn_last_seq :: "(string, u64) hash_map"

definition bitso_normalizer_new :: "source_metrics \<Rightarrow> bitso_normalizer" where
  "bitso_normalizer_new m = \<lparr>bn_metrics = m, bn_last_seq = []\<rparr>"

definition bitso_observe_seq :: "string \<Rightarrow> u64 \<Rightarrow> bitso_normalizer \<Rightarrow> u64 option \<times> bitso_normalizer" where
  "bitso_observe_seq book seq n =
     (let dropped = (case hm_get (bn_last_seq n) book of
            Some prev \<Rightarrow> (let jump = saturating_sub seq (saturating_add prev 1) in if jump > 0 then Some jump else None)
          | None \<Rightarrow> None)
      in (dropped, n\<lparr>bn_last_seq := hm_insert book seq (bn_last_seq n)\<rparr>))"

definition bitso_order :: "bitso_diff_order \<Rightarrow> l3_order" where
  "bitso_order ord =
     \<lparr>l3_order_id = bo_o ord, l3_is_ask = (bo_t ord \<noteq> 0), l3_price = unwrap_or (bo_r ord) [], l3_size = unwrap_or (bo_a ord) [],
      l3_removed = (bo_s ord = ''cancelled'' \<or> bo_s ord = ''completed'')\<rparr>"

definition bitso_to_delta :: "bitso_diff_message \<Rightarrow> normalized_delta" where
  "bitso_to_delta msg =
     (let update_id = fold (\<lambda>ord u. max u (bo_d ord)) (bm_payload msg) 0 in
      (book_delta (bm_book msg) [] [] update_id (unwrap_or (bm_sequence msg) 0) (epoch_to_us update_id) False)
        \<lparr>nd_orders := map bitso_order (bm_payload msg)\<rparr>)"

definition bitso_normalize_trade ::
  "'d decimal_ops \<Rightarrow> trading_pair \<Rightarrow> bitso_ws_trade \<Rightarrow> source_metrics \<Rightarrow> 'd domain_event option \<times> source_metrics"
where
  "bitso_normalize_trade D pair t m =
     (case parse_pair D (bx_a t) (bx_r t) of
        None \<Rightarrow> drop_frame m
      | Some (amount, price) \<Rightarrow>
          (case (if bx_t t = 0 then Some Buy else if bx_t t = 1 then Some Sell else None) of
             None \<Rightarrow> drop_frame m
           | Some side \<Rightarrow>
               (Some (TradeEv (ws_trade (epoch_to_us (bx_x t)) pair side amount price ''bitso'' (u64_to_string (bx_i t))) None), m)))"

fun bitso_normalize :: "'d decimal_ops \<Rightarrow> bitso_event \<Rightarrow> bitso_normalizer \<Rightarrow> 'd domain_event list \<times> bitso_normalizer" where
  "bitso_normalize D (BitsoDiffOrders msg) n =
     (case (case bm_sequence msg of Some seq \<Rightarrow> bitso_observe_seq (bm_book msg) seq n | None \<Rightarrow> (None, n)) of
        (lost, n) \<Rightarrow> ((case lost of Some dropped \<Rightarrow> [ConnectionGap dropped] | None \<Rightarrow> []) @ [Book (bitso_to_delta msg)], n))"
| "bitso_normalize D (BitsoTrades msg) n =
     (case codec_decode BITSO_CODEC (by_book msg) of
        None \<Rightarrow> ([], n\<lparr>bn_metrics := add_dropped_frames 1 (bn_metrics n)\<rparr>)
      | Some pair \<Rightarrow>
          (case normalize_batch (bitso_normalize_trade D pair) (by_payload msg) (bn_metrics n) of
             (evs, m) \<Rightarrow> (evs, n\<lparr>bn_metrics := m\<rparr>)))"

definition bitso_profile :: exchange_profile where
  "bitso_profile = plain_profile ''bitso'' BITSO_CODEC budget_default ''bitso-v3''"

definition bitso_book_model :: reconstruction_model where
  "bitso_book_model = L3 RestSnapshot"

definition bitso_replay_frame ::
  "'d decimal_ops \<Rightarrow> (bitso_diff_message, bitso_trade_message) value_serde \<Rightarrow> string \<Rightarrow> ('d domain_event list, string) result"
where
  "bitso_replay_frame D S raw =
     (case bitso_decode S raw of
        Err e \<Rightarrow> Err e
      | Ok (Some event) \<Rightarrow> Ok (fst (bitso_normalize D event (bitso_normalizer_new metrics_default)))
      | Ok None \<Rightarrow> Ok [])"

record bitso_entry =
  be_price :: string
  be_amount :: string
  be_oid :: string

record bitso_response =
  br_success :: bool
  br_payload :: "(bitso_entry list \<times> bitso_entry list) option"
  br_error :: "json option"

text \<open>The first characters of a UTF-8 text: a byte \<open>10xxxxxx\<close> continues a character.\<close>

definition utf8_continues :: "char \<Rightarrow> bool" where
  "utf8_continues c \<longleftrightarrow> 0x80 \<le> (of_char c :: nat) \<and> (of_char c :: nat) < 0xC0"

fun utf8_take :: "nat \<Rightarrow> string \<Rightarrow> string" where
  "utf8_take n [] = []"
| "utf8_take n (c # cs) =
     (if utf8_continues c then c # utf8_take n cs else case n of 0 \<Rightarrow> [] | Suc k \<Rightarrow> c # utf8_take k cs)"

definition bitso_entry_order :: "bool \<Rightarrow> bitso_entry \<Rightarrow> l3_order" where
  "bitso_entry_order is_ask e =
     \<lparr>l3_order_id = be_oid e, l3_is_ask = is_ask, l3_price = be_price e, l3_size = be_amount e, l3_removed = False\<rparr>"

text \<open>\<open>parse\<close> reads the response type; its payload holds the bids and the asks.\<close>

definition bitso_parse_snapshot ::
  "(f64 \<Rightarrow> string) \<Rightarrow> (string \<Rightarrow> (bitso_response, string) result) \<Rightarrow> string \<Rightarrow> string \<Rightarrow> (normalized_delta, string) result"
where
  "bitso_parse_snapshot show_f64 parse body symbol =
     (case parse body of
        Err e \<Rightarrow> Err e
      | Ok resp \<Rightarrow>
          (case (if br_success resp then br_payload resp else None) of
             None \<Rightarrow>
               Err (''bitso order_book for '' @ apostrophed symbol @ '': ''
                      @ (case br_error resp of Some e \<Rightarrow> json_to_string show_f64 e | None \<Rightarrow> utf8_take 160 body))
           | Some (bids, asks) \<Rightarrow>
               Ok ((book_delta symbol [] [] 0 0 0 True)
                     \<lparr>nd_orders := map (bitso_entry_order False) bids @ map (bitso_entry_order True) asks\<rparr>)))"

definition bitso_fetch_snapshot ::
  "(f64 \<Rightarrow> string) \<Rightarrow> (string \<Rightarrow> (bitso_response, string) result) \<Rightarrow> (string \<Rightarrow> (string, string) result) \<Rightarrow> string
     \<Rightarrow> (normalized_delta, string) result"
where
  "bitso_fetch_snapshot show_f64 parse get symbol =
     result_bind (get_raw get ''https://api.bitso.com'' ''/v3/order_book'' (''?book='' @ symbol @ ''&aggregate=false''))
       (\<lambda>body. bitso_parse_snapshot show_f64 parse body symbol)"

section \<open>KuCoin\<close>

record kucoin_l2_data =
  kl_sequence_start :: u64
  kl_sequence_end :: u64
  kl_symbol :: string
  kl_asks :: "(string \<times> string \<times> string) list"
  kl_bids :: "(string \<times> string \<times> string) list"
  kl_time :: u64

record kucoin_match_data =
  km_symbol :: string
  km_side :: string
  km_price :: string
  km_size :: string
  km_time :: string
  km_trade_id :: string

datatype kucoin_event = KucoinLevel2 kucoin_l2_data | KucoinMatch kucoin_match_data

definition kucoin_decode ::
  "(kucoin_l2_data, kucoin_match_data) value_serde \<Rightarrow> string \<Rightarrow> (kucoin_event option, string) result"
where
  "kucoin_decode S text =
     result_bind (vs_value S text) (\<lambda>v.
       if get_str v ''type'' \<noteq> Some ''message'' then Ok None
       else
         let topic = unwrap_or (get_str v ''topic'') [] in
         case json_get v ''data'' of
           None \<Rightarrow> Ok None
         | Some data \<Rightarrow>
             if prefix ''/market/level2'' topic then decoded (vs_book S data) KucoinLevel2
             else if prefix ''/market/match'' topic then decoded (vs_trade S data) KucoinMatch
             else Ok None)"

definition KUCOIN_CODEC :: symbol_codec where
  "KUCOIN_CODEC = Hyphen"

definition DEFAULT_PING_MS :: u64 where
  "DEFAULT_PING_MS = 18000"

definition or_missing :: "'a option \<Rightarrow> string \<Rightarrow> ('a, string) result" where
  "or_missing x msg = (case x of Some v \<Rightarrow> Ok v | None \<Rightarrow> Err msg)"

definition first_of :: "json list \<Rightarrow> json option" where
  "first_of xs = (case xs of [] \<Rightarrow> None | x # _ \<Rightarrow> Some x)"

definition parse_bullet :: "(string \<Rightarrow> (json, string) result) \<Rightarrow> string \<Rightarrow> string \<Rightarrow> (prepared, string) result" where
  "parse_bullet parse body connect_id =
     result_bind (parse body) (\<lambda>v.
     result_bind (or_missing (json_get v ''data'') ''bullet: missing data'') (\<lambda>data.
     result_bind (or_missing (get_str data ''token'') ''bullet: missing token'') (\<lambda>token.
     result_bind (or_missing (Option.bind (Option.bind (json_get data ''instanceServers'') as_array) first_of)
                    ''bullet: no instanceServers'') (\<lambda>server.
     result_bind (or_missing (get_str server ''endpoint'') ''bullet: missing endpoint'') (\<lambda>endpoint.
     let ping_ms = unwrap_or (Option.bind (json_get server ''pingInterval'') as_u64) DEFAULT_PING_MS in
     Ok \<lparr>pr_endpoint_override = Some (endpoint @ ''?token='' @ token @ ''&connectId='' @ connect_id),
         pr_heartbeat_override =
           Some (HbText (unat ping_ms * 10 ^ 6)
             (\<lambda>_. json_to_string (\<lambda>_. []) (JObj [(''id'', JStr ''aetelier-hb''), (''type'', JStr ''ping'')]))),
         pr_extra_frames = [], pr_extra_frames_delay = None\<rparr>)))))"

definition kucoin_prepare ::
  "(string \<Rightarrow> (json, string) result) \<Rightarrow> (string \<Rightarrow> ((string, string) result, string) result) \<Rightarrow> string \<Rightarrow> (prepared, string) result"
where
  "kucoin_prepare parse post connect_id =
     (case post ''https://api.kucoin.com/api/v1/bullet-public'' of
        Err e \<Rightarrow> Err (''bullet POST: '' @ e)
      | Ok (Err e) \<Rightarrow> Err (''bullet body: '' @ e)
      | Ok (Ok body) \<Rightarrow> parse_bullet parse body connect_id)"

definition kucoin_subscribe_frames :: "string list \<Rightarrow> declared_datatype list \<Rightarrow> message list" where
  "kucoin_subscribe_frames symbols declared =
     (let csv = join '','' symbols;
          frame = \<lambda>ident topic. frame_text (JObj [(''id'', JStr ident), (''type'', JStr ''subscribe''), (''topic'', JStr (topic @ csv)),
            (''privateChannel'', JBool False), (''response'', JBool True)])
      in (if DtOrderbook \<in> set declared then [frame ''sub-l2'' ''/market/level2:''] else [])
         @ (if DtTrades \<in> set declared then [frame ''sub-match'' ''/market/match:''] else []))"

definition kucoin_profile :: exchange_profile where
  "kucoin_profile = plain_profile ''kucoin'' KUCOIN_CODEC (budget_default\<lparr>bg_connection_lifetime := Some (secs (24 * 60 * 60))\<rparr>) ''kucoin-v1''"

definition kucoin_hooks ::
  "(string \<Rightarrow> (json, string) result) \<Rightarrow> (string \<Rightarrow> ((string, string) result, string) result) \<Rightarrow> string \<Rightarrow> protocol_hooks"
where
  "kucoin_hooks parse post connect_id =
     (default_hooks ''wss://ws-api-spot.kucoin.com/'' kucoin_subscribe_frames)
       \<lparr>ph_connection_lifetime := bg_connection_lifetime (xp_budget kucoin_profile), ph_prepare := kucoin_prepare parse post connect_id\<rparr>"

definition kucoin_to_delta :: "kucoin_l2_data \<Rightarrow> normalized_delta" where
  "kucoin_to_delta d =
     (let rows = map (\<lambda>(price, size, _). (price, size)) in
      book_delta (kl_symbol d) (rows (kl_bids d)) (rows (kl_asks d)) (kl_sequence_end d) (kl_sequence_start d)
        (epoch_to_us (kl_time d)) False)"

definition kucoin_normalize_trade ::
  "'d decimal_ops \<Rightarrow> kucoin_match_data \<Rightarrow> source_metrics \<Rightarrow> 'd domain_event option \<times> source_metrics"
where
  "kucoin_normalize_trade D t m =
     (case codec_decode KUCOIN_CODEC (km_symbol t) of
        None \<Rightarrow> drop_frame m
      | Some pair \<Rightarrow>
          (case parse_pair D (km_size t) (km_price t) of
             None \<Rightarrow> drop_frame m
           | Some (amount, price) \<Rightarrow>
               (case trade_side_from_str_loose (km_side t) of
                  None \<Rightarrow> drop_frame m
                | Some side \<Rightarrow>
                    (Some (TradeEv (ws_trade (epoch_to_us (unwrap_or (parse_u64 (km_time t)) 0)) pair side amount price ''kucoin''
                        (km_trade_id t)) None), m))))"

fun kucoin_normalize :: "'d decimal_ops \<Rightarrow> kucoin_event \<Rightarrow> source_metrics \<Rightarrow> 'd domain_event list \<times> source_metrics" where
  "kucoin_normalize D (KucoinLevel2 d) m = ([Book (kucoin_to_delta d)], m)"
| "kucoin_normalize D (KucoinMatch t) m = normalize_batch (kucoin_normalize_trade D) [t] m"

definition kucoin_adapter ::
  "'d decimal_ops \<Rightarrow> (kucoin_l2_data, kucoin_match_data) value_serde \<Rightarrow> (string \<Rightarrow> ((string, string) result, string) result)
     \<Rightarrow> string \<Rightarrow> (kucoin_event, 'd) venue_adapter"
where
  "kucoin_adapter D S post connect_id =
     (default_adapter kucoin_profile (SeqDelta RangeInclusive RestSnapshot) (kucoin_hooks (vs_value S) post connect_id)
        (kucoin_decode S) (kucoin_normalize D))
       \<lparr>va_has_rest_seeder := True\<rparr>"

text \<open>\<open>parse\<close> reads the response; \<open>None\<close> is an answer whose \<open>data\<close> is null.\<close>

record kucoin_snapshot =
  ks_sequence :: string
  ks_bids :: "(string \<times> string) list"
  ks_asks :: "(string \<times> string) list"

definition kucoin_parse_snapshot ::
  "(string \<Rightarrow> (kucoin_snapshot option, string) result) \<Rightarrow> string \<Rightarrow> string \<Rightarrow> (normalized_delta, string) result"
where
  "kucoin_parse_snapshot parse body symbol =
     (case parse body of
        Err e \<Rightarrow> Err e
      | Ok None \<Rightarrow> Err ''kucoin level2: empty data''
      | Ok (Some data) \<Rightarrow>
          (let seq = unwrap_or (parse_u64 (ks_sequence data)) 0 in
           Ok (book_delta symbol (ks_bids data) (ks_asks data) seq seq 0 True)))"

definition kucoin_fetch_snapshot ::
  "(string \<Rightarrow> (kucoin_snapshot option, string) result) \<Rightarrow> (string \<Rightarrow> (string, string) result) \<Rightarrow> string
     \<Rightarrow> (normalized_delta, string) result"
where
  "kucoin_fetch_snapshot parse get symbol =
     result_bind (get_raw get ''https://api.kucoin.com'' ''/api/v1/market/orderbook/level2_100'' (''?symbol='' @ symbol))
       (\<lambda>body. kucoin_parse_snapshot parse body symbol)"

interpretation bitso: trade_normaliser "bitso_normalize_trade D pair" "''bitso''" for D pair
  by unfold_locales (auto simp: bitso_normalize_trade_def split: option.splits prod.splits if_splits)

interpretation kucoin: trade_normaliser "kucoin_normalize_trade D" "''kucoin''" for D
  by unfold_locales (auto simp: kucoin_normalize_trade_def split: option.splits prod.splits)

section \<open>Losses on Bitso\<close>

text \<open>A connection's messages, in order, with the events of each.\<close>

fun bitso_run :: "'d decimal_ops \<Rightarrow> bitso_event list \<Rightarrow> bitso_normalizer \<Rightarrow> (bitso_event \<times> 'd domain_event list) list" where
  "bitso_run D [] n = []"
| "bitso_run D (ev # evs) n = (case bitso_normalize D ev n of (out, n) \<Rightarrow> (ev, out) # bitso_run D evs n)"

fun sequence_in :: "string \<Rightarrow> bitso_event \<Rightarrow> u64 option" where
  "sequence_in book (BitsoDiffOrders msg) = (if bm_book msg = book then bm_sequence msg else None)"
| "sequence_in book (BitsoTrades msg) = None"

fun reported_loss :: "'d domain_event \<Rightarrow> nat" where
  "reported_loss (ConnectionGap n) = unat n"
| "reported_loss _ = 0"

definition losses_in :: "string \<Rightarrow> (bitso_event \<times> 'd domain_event list) list \<Rightarrow> nat" where
  "losses_in book run = (\<Sum>(ev, out) \<leftarrow> run. if sequence_in book ev = None then 0 else sum_list (map reported_loss out))"

definition seqs_in :: "string \<Rightarrow> bitso_event list \<Rightarrow> u64 list" where
  "seqs_in book = List.map_filter (sequence_in book)"

lemma seqs_in_simps [simp]: "seqs_in book [] = []"
    "seqs_in book (ev # evs) = (case sequence_in book ev of None \<Rightarrow> seqs_in book evs | Some s \<Rightarrow> s # seqs_in book evs)"
  by (simp_all add: seqs_in_def map_filter_simps split: option.split)

lemma losses_in_simps [simp]: "losses_in book [] = 0"
    "losses_in book ((ev, out) # run) =
       (if sequence_in book ev = None then 0 else sum_list (map reported_loss out)) + losses_in book run"
  by (simp_all add: losses_in_def)

lemma unat_jump: "prev < s \<Longrightarrow> unat (saturating_sub s (saturating_add prev 1)) = unat s - unat prev - 1"
proof -
  assume "prev < s"
  moreover have "unat s < 2 ^ 64" using unsigned_less [of s] by simp
  ultimately show ?thesis by (auto simp: u64_simps word_less_nat_alt min_def)
qed

lemma bitso_message_step:
  assumes "sequence_in book ev = Some s" "bitso_normalize D ev n = (out, n')"
  shows "hm_get (bn_last_seq n') book = Some s"
    "sum_list (map reported_loss out) =
       (case hm_get (bn_last_seq n) book of Some prev \<Rightarrow> unat (saturating_sub s (saturating_add prev 1)) | None \<Rightarrow> 0)"
proof -
  obtain msg where msg: "ev = BitsoDiffOrders msg" "bm_book msg = book" "bm_sequence msg = Some s"
    using assms(1) by (cases ev) (auto split: if_splits)
  then show "hm_get (bn_last_seq n') book = Some s"
    using assms(2) by (auto simp: bitso_observe_seq_def Let_def hm_simps)
  show "sum_list (map reported_loss out) =
       (case hm_get (bn_last_seq n) book of Some prev \<Rightarrow> unat (saturating_sub s (saturating_add prev 1)) | None \<Rightarrow> 0)"
    using assms(2) msg by (auto simp: bitso_observe_seq_def Let_def word_gt_0 split: option.splits if_splits)
qed

lemma bitso_other_step:
  assumes "sequence_in book ev = None" "bitso_normalize D ev n = (out, n')"
  shows "hm_get (bn_last_seq n') book = hm_get (bn_last_seq n) book"
  using assms by (cases ev) (auto simp: bitso_observe_seq_def Let_def hm_simps split: option.splits if_splits prod.splits)

lemma bitso_losses_from:
  assumes "hm_get (bn_last_seq n) book = Some prev" "sorted_wrt (<) (prev # seqs_in book evs)"
  shows "losses_in book (bitso_run D evs n) + length (seqs_in book evs) + unat prev = unat (last (prev # seqs_in book evs))"
  using assms
proof (induction evs arbitrary: n prev)
  case (Cons ev evs)
  obtain out n' where nrm: "bitso_normalize D ev n = (out, n')" by fastforce
  show ?case
  proof (cases "sequence_in book ev")
    case None
    with Cons.IH [of n' prev] Cons.prems nrm bitso_other_step [OF None nrm] show ?thesis by simp
  next
    case (Some s)
    have s: "prev < s" "sorted_wrt (<) (s # seqs_in book evs)" using Cons.prems(2) Some by auto
    have "sum_list (map reported_loss out) = unat s - unat prev - 1"
      using bitso_message_step(2) [OF Some nrm] Cons.prems(1) unat_jump [OF s(1)] by simp
    moreover have "unat prev < unat s" using s(1) by (simp add: word_less_nat_alt)
    moreover have "losses_in book (bitso_run D evs n') + length (seqs_in book evs) + unat s = unat (last (s # seqs_in book evs))"
      by (rule Cons.IH [OF bitso_message_step(1) [OF Some nrm] s(2)])
    ultimately show ?thesis using Some nrm by simp
  qed
qed simp

lemma bitso_losses:
  assumes "hm_get (bn_last_seq n) book = None" "sorted_wrt (<) (seqs_in book evs)" "seqs_in book evs \<noteq> []"
  shows "losses_in book (bitso_run D evs n) + length (seqs_in book evs) + unat (hd (seqs_in book evs))
    = unat (last (seqs_in book evs)) + 1"
  using assms
proof (induction evs arbitrary: n)
  case (Cons ev evs)
  obtain out n' where nrm: "bitso_normalize D ev n = (out, n')" by fastforce
  show ?case
  proof (cases "sequence_in book ev")
    case None
    with Cons.IH [of n'] Cons.prems nrm bitso_other_step [OF None nrm] show ?thesis by simp
  next
    case (Some s)
    have "sum_list (map reported_loss out) = 0" using bitso_message_step(2) [OF Some nrm] Cons.prems(1) by simp
    moreover have "sorted_wrt (<) (s # seqs_in book evs)" using Cons.prems(2) Some by simp
    ultimately show ?thesis
      using bitso_losses_from [OF bitso_message_step(1) [OF Some nrm], of evs D] Some nrm by (simp del: sum_list_eq_0_iff)
  qed
qed simp

text \<open>
  C19: On a new Bitso connection the losses reported with the messages of a book, together with the
  numbered messages of that book that arrived, are exactly the range of sequence numbers from the
  first to the last that arrived, whatever messages of other books and trades come in between and as
  long as the numbers of the book increase.  So the dense counter attributes every hole to its book
  and counts it once.
\<close>

theorem bitso_counts_every_hole:
  assumes "sorted_wrt (<) (seqs_in book evs)" "seqs_in book evs \<noteq> []"
  shows "losses_in book (bitso_run D evs (bitso_normalizer_new m)) + length (seqs_in book evs)
    = unat (last (seqs_in book evs)) - unat (hd (seqs_in book evs)) + 1"
proof -
  have "hd (seqs_in book evs) \<le> last (seqs_in book evs)"
    using assms by (cases "seqs_in book evs") (auto simp: last_in_set less_imp_le)
  then have "unat (hd (seqs_in book evs)) \<le> unat (last (seqs_in book evs))" by (simp add: word_le_nat_alt)
  with bitso_losses [OF _ assms, of "bitso_normalizer_new m" D] show ?thesis by (simp add: bitso_normalizer_new_def)
qed

abbreviation bitso_diff :: "string \<Rightarrow> u64 \<Rightarrow> bitso_event" where
  "bitso_diff book seq \<equiv> BitsoDiffOrders \<lparr>bm_book = book, bm_payload = [], bm_sequence = Some seq\<rparr>"

theorem bitso_counts_every_hole_witness:
  "losses_in ''btc_mxn'' (bitso_run exact_decimal [bitso_diff ''btc_mxn'' 5, bitso_diff ''eth_mxn'' 90, bitso_diff ''btc_mxn'' 9]
     (bitso_normalizer_new metrics_default)) + 2 = 5"
  using bitso_counts_every_hole [of "''btc_mxn''" "[bitso_diff ''btc_mxn'' 5, bitso_diff ''eth_mxn'' 90, bitso_diff ''btc_mxn'' 9]"
      exact_decimal metrics_default] by simp

end
