(* ===== verification/Venue_Hyperliquid.thy ===== *)
theory Venue_Hyperliquid
  imports Venue_Spot
begin

text \<open>
  The Hyperliquid adapter (\<open>framework/adapters/hyperliquid.rs\<close> and \<open>sources/hyperliquid\<close>): the two
  environments, the protocol hooks, the decoder and the normaliser, which also carries funding rates
  and open interest, and the poller that fetches funding settlements beside the socket.

  The poller's clock readings and HTTP exchanges are given per cycle; \<open>show_status\<close> prints an HTTP
  status.
\<close>

section \<open>Environments and hooks\<close>

fun wss_url :: "venue_environment \<Rightarrow> string" where
  "wss_url Production = ''wss://api.hyperliquid.xyz/ws''"
| "wss_url Testnet = ''wss://api.hyperliquid-testnet.xyz/ws''"

fun info_url :: "venue_environment \<Rightarrow> string" where
  "info_url Production = ''https://api.hyperliquid.xyz/info''"
| "info_url Testnet = ''https://api.hyperliquid-testnet.xyz/info''"

definition declared_channels :: "declared_datatype list \<Rightarrow> string list" where
  "declared_channels declared =
     (if DtOrderbook \<in> set declared then [''l2Book''] else [])
     @ (if DtTrades \<in> set declared then [''trades''] else [])
     @ (if DtFundingRates \<in> set declared \<or> DtOpenInterest \<in> set declared then [''activeAssetCtx''] else [])"

definition method_frame :: "string \<Rightarrow> string \<Rightarrow> string \<Rightarrow> message" where
  "method_frame method channel symbol =
     frame_text (JObj [(''method'', JStr method), (''subscription'', JObj [(''type'', JStr channel), (''coin'', JStr symbol)])])"

definition hyperliquid_subscribe_frames :: "string list \<Rightarrow> declared_datatype list \<Rightarrow> message list" where
  "hyperliquid_subscribe_frames symbols declared =
     concat (map (\<lambda>symbol. map (\<lambda>channel. method_frame ''subscribe'' channel symbol) (declared_channels declared)) symbols)"

definition hyperliquid_unsubscribe_frames :: "string list \<Rightarrow> declared_datatype list \<Rightarrow> message list" where
  "hyperliquid_unsubscribe_frames symbols declared =
     concat (map (\<lambda>symbol. map (\<lambda>channel. method_frame ''unsubscribe'' channel symbol) (declared_channels declared)) symbols)"

definition hyperliquid_classify_ack :: "(string \<Rightarrow> (json, string) result) \<Rightarrow> string \<Rightarrow> ack_outcome" where
  "hyperliquid_classify_ack parse text =
     (if \<not> contains text (quoted ''subscriptionResponse'') \<and> \<not> contains text (quoted ''error'') then NotAck
      else case parse text of
             Err _ \<Rightarrow> NotAck
           | Ok v \<Rightarrow>
               if get_str v ''channel'' = Some ''subscriptionResponse'' then
                 (if Option.bind (json_get v ''data'') (\<lambda>d. get_str d ''method'') = Some ''subscribe'' then AckAccepted else NotAck)
               else if get_str v ''channel'' = Some ''error'' then
                 AckRejected None (unwrap_or (get_str v ''data'') ''subscribe failed'')
               else NotAck)"

definition FUNDING_CADENCE :: duration where
  "FUNDING_CADENCE = secs 3600"

fun hyperliquid_datatype_cadence :: "feed_datatype \<Rightarrow> duration option" where
  "hyperliquid_datatype_cadence FundingRates = Some FUNDING_CADENCE"
| "hyperliquid_datatype_cadence _ = None"

definition hyperliquid_ping :: string where
  "hyperliquid_ping = [CHR 0x7B] @ quoted ''method'' @ '':'' @ quoted ''ping'' @ [CHR 0x7D]"

definition hyperliquid_hooks :: "(string \<Rightarrow> (json, string) result) \<Rightarrow> venue_environment \<Rightarrow> protocol_hooks" where
  "hyperliquid_hooks parse environment =
     (default_hooks (wss_url environment) hyperliquid_subscribe_frames)
       \<lparr>ph_unsubscribe_frames := hyperliquid_unsubscribe_frames, ph_heartbeat := HbText (secs 30) (\<lambda>_. hyperliquid_ping),
        ph_subscribe_ack_deadline := Some (secs 10), ph_stale_after := secs 45, ph_classify_ack := hyperliquid_classify_ack parse\<rparr>"

section \<open>Messages\<close>

record hyperliquid_level =
  hv_px :: string
  hv_sz :: string
  hv_n :: u64

record hyperliquid_book =
  hb_coin :: string
  hb_time :: u64
  hb_levels :: "hyperliquid_level list list"

record hyperliquid_trade =
  hq_coin :: string
  hq_side :: string
  hq_px :: string
  hq_sz :: string
  hq_time :: u64
  hq_tid :: u64

text \<open>The fields of a context that the normaliser reads.\<close>

record hyperliquid_asset_ctx =
  hc_coin :: string
  hc_funding :: "string option"
  hc_open_interest :: "string option"
  hc_mark_px :: "string option"
  hc_premium :: "string option"

datatype hyperliquid_event =
    HyperliquidBook hyperliquid_book
  | HyperliquidTrades "hyperliquid_trade list"
  | HyperliquidAssetCtx hyperliquid_asset_ctx

definition data_of :: "json \<Rightarrow> json" where
  "data_of v = unwrap_or (json_get v ''data'') JNull"

definition hyperliquid_decode ::
  "(hyperliquid_book, hyperliquid_trade list) value_serde \<Rightarrow> (json \<Rightarrow> (hyperliquid_asset_ctx, string) result) \<Rightarrow> string
     \<Rightarrow> (hyperliquid_event option, string) result"
where
  "hyperliquid_decode S ctx text =
     result_bind (vs_value S text) (\<lambda>v.
       if get_str v ''channel'' = Some ''l2Book'' then decoded (vs_book S (data_of v)) HyperliquidBook
       else if get_str v ''channel'' = Some ''trades'' then decoded (vs_trade S (data_of v)) HyperliquidTrades
       else if get_str v ''channel'' = Some ''activeAssetCtx'' then decoded (ctx (data_of v)) HyperliquidAssetCtx
       else Ok None)"

section \<open>The normaliser\<close>

definition HYPERLIQUID_CODEC :: symbol_codec where
  "HYPERLIQUID_CODEC = BareCoin ''USDC''"

definition parse_dec_opt :: "'d decimal_ops \<Rightarrow> string option \<Rightarrow> 'd option" where
  "parse_dec_opt D s = Option.bind s (\<lambda>p. case dec_from_str D p of Ok d \<Rightarrow> Some d | Err _ \<Rightarrow> None)"

definition hyperliquid_normalize_trade ::
  "'d decimal_ops \<Rightarrow> hyperliquid_trade \<Rightarrow> source_metrics \<Rightarrow> 'd domain_event option \<times> source_metrics"
where
  "hyperliquid_normalize_trade D t m =
     (case codec_decode HYPERLIQUID_CODEC (hq_coin t) of
        None \<Rightarrow> drop_frame m
      | Some pair \<Rightarrow>
          (case (if eq_ignore_case (hq_side t) ''B'' then Some Buy
                 else if eq_ignore_case (hq_side t) ''A'' then Some Sell else None) of
             None \<Rightarrow> drop_frame m
           | Some side \<Rightarrow>
               (case parse_pair D (hq_sz t) (hq_px t) of
                  None \<Rightarrow> drop_frame m
                | Some (amount, price) \<Rightarrow>
                    (Some (TradeEv (ws_trade (epoch_to_us (hq_time t)) pair side amount price ''hyperliquid''
                        (u64_to_string (hq_tid t))) None), m))))"

definition live_funding :: "trading_pair \<Rightarrow> 'd \<Rightarrow> 'd option \<Rightarrow> 'd funding_rate" where
  "live_funding pair rate premium =
     \<lparr>funding_rate_ts_us = 0, local_funding_ts_us = 0, fr_recv_seq = 0, fr_conn_epoch_us = 0, fr_pair = pair, fr_rate = rate,
      fr_premium = premium, fr_interval_hours = 1, fr_next_funding_ts_us = 0, fr_exchange = ''hyperliquid''\<rparr>"

definition live_open_interest :: "trading_pair \<Rightarrow> 'd \<Rightarrow> 'd option \<Rightarrow> 'd open_interest" where
  "live_open_interest pair amount mark_px =
     \<lparr>open_interest_ts_us = 0, local_oi_ts_us = 0, oi_recv_seq = 0, oi_conn_epoch_us = 0, oi_pair = pair,
      oi_open_interest = amount, oi_open_interest_value = None, oi_mark_px = mark_px, oi_exchange = ''hyperliquid''\<rparr>"

text \<open>One field of a context: nothing unless declared and present, a drop if it is not a decimal.\<close>

definition ctx_field ::
  "'d decimal_ops \<Rightarrow> bool \<Rightarrow> string option \<Rightarrow> ('d \<Rightarrow> 'd domain_event) \<Rightarrow> source_metrics \<Rightarrow> 'd domain_event list \<times> source_metrics"
where
  "ctx_field D wanted field mk m =
     (case (if wanted then field else None) of
        None \<Rightarrow> ([], m)
      | Some raw \<Rightarrow> (case dec_from_str D raw of Ok x \<Rightarrow> ([mk x], m) | Err _ \<Rightarrow> ([], add_dropped_frames 1 m)))"

definition normalize_asset_ctx ::
  "'d decimal_ops \<Rightarrow> declared_datatype list \<Rightarrow> hyperliquid_asset_ctx \<Rightarrow> source_metrics \<Rightarrow> 'd domain_event list \<times> source_metrics"
where
  "normalize_asset_ctx D declared msg m =
     (case codec_decode HYPERLIQUID_CODEC (hc_coin msg) of
        None \<Rightarrow> ([], add_dropped_frames 1 m)
      | Some pair \<Rightarrow>
          (let premium = parse_dec_opt D (hc_premium msg); mark_px = parse_dec_opt D (hc_mark_px msg) in
           case ctx_field D (DtFundingRates \<in> set declared) (hc_funding msg) (\<lambda>r. FundingRateEv (live_funding pair r premium)) m of
             (funding, m) \<Rightarrow>
               (case ctx_field D (DtOpenInterest \<in> set declared) (hc_open_interest msg)
                       (\<lambda>x. OpenInterestEv (live_open_interest pair x mark_px)) m of
                  (interest, m) \<Rightarrow> (funding @ interest, m))))"

definition level_rows :: "hyperliquid_level list \<Rightarrow> (string \<times> string) list" where
  "level_rows = map (\<lambda>l. (hv_px l, hv_sz l))"

fun hyperliquid_normalize ::
  "'d decimal_ops \<Rightarrow> declared_datatype list \<Rightarrow> hyperliquid_event \<Rightarrow> source_metrics \<Rightarrow> 'd domain_event list \<times> source_metrics"
where
  "hyperliquid_normalize D declared (HyperliquidBook book) m =
     (case hb_levels book of
        [bids, asks] \<Rightarrow>
          ([Book (book_delta (hb_coin book) (level_rows bids) (level_rows asks) (hb_time book) 0 (epoch_to_us (hb_time book)) True)], m)
      | _ \<Rightarrow> ([], add_dropped_frames 1 m))"
| "hyperliquid_normalize D declared (HyperliquidTrades trades) m = normalize_batch (hyperliquid_normalize_trade D) trades m"
| "hyperliquid_normalize D declared (HyperliquidAssetCtx msg) m = normalize_asset_ctx D declared msg m"

section \<open>The adapter\<close>

definition hyperliquid_profile :: exchange_profile where
  "hyperliquid_profile =
     plain_profile ''hyperliquid'' HYPERLIQUID_CODEC
       (budget_default\<lparr>bg_max_connections := Some 10, bg_max_streams_per_socket := Some 1000,
          bg_subscribe_rate := [\<lparr>rw_max = 2000, rw_per = secs 60\<rparr>], bg_connect_attempt_rate := Some \<lparr>rw_max = 30, rw_per = secs 60\<rparr>\<rparr>)
       ''hyperliquid-v1''"

definition hyperliquid_adapter ::
  "'d decimal_ops \<Rightarrow> (hyperliquid_book, hyperliquid_trade list) value_serde \<Rightarrow> (json \<Rightarrow> (hyperliquid_asset_ctx, string) result)
     \<Rightarrow> venue_environment \<Rightarrow> declared_datatype list \<Rightarrow> (hyperliquid_event, 'd) venue_adapter"
where
  "hyperliquid_adapter D S ctx environment declared =
     (default_adapter hyperliquid_profile FullRefresh (hyperliquid_hooks (vs_value S) environment) (hyperliquid_decode S ctx)
        (hyperliquid_normalize D declared))
       \<lparr>va_resubscribe_replays_trades := True, va_max_declared_depth := Some 20, va_supports_environment := (\<lambda>_. True),
        va_supported_datatypes := [DtOrderbook, DtTrades, DtFundingRates, DtOpenInterest]\<rparr>"

section \<open>The settlement poller\<close>

record settlement_row =
  sr_coin :: string
  sr_funding_rate :: string
  sr_premium :: "string option"
  sr_time :: u64

text \<open>One HTTP exchange: the answer (status and rows) or a transport error, and the clock after it.\<close>

record settlement_exchange =
  sx_answer :: "(nat \<times> (settlement_row list, string) result, string) result"
  sx_rtt_us :: u64
  sx_now_us :: u64

definition settlement_request :: "string \<Rightarrow> u64 \<Rightarrow> json" where
  "settlement_request symbol start_ms =
     JObj [(''type'', JStr ''fundingHistory''), (''coin'', JStr symbol), (''startTime'', JInt (uint start_ms))]"

definition settlement_of :: "'d decimal_ops \<Rightarrow> u64 \<Rightarrow> u64 \<Rightarrow> settlement_row \<Rightarrow> 'd funding_settlement option" where
  "settlement_of D local_us rtt_us row =
     (case codec_decode HYPERLIQUID_CODEC (sr_coin row) of
        None \<Rightarrow> None
      | Some pair \<Rightarrow>
          (case dec_from_str D (sr_funding_rate row) of
             Err _ \<Rightarrow> None
           | Ok rate \<Rightarrow>
               Some \<lparr>fs_funding_time_us = epoch_to_us (sr_time row), fs_local_ts_us = local_us, fs_rtt_us = rtt_us, fs_pair = pair,
                     fs_rate = rate, fs_premium = parse_dec_opt D (sr_premium row), fs_exchange = ''hyperliquid''\<rparr>))"

fun send_settlements :: "'d funding_settlement list \<Rightarrow> nat \<Rightarrow> 'd domain_event sender \<Rightarrow> nat \<times> 'd domain_event sender" where
  "send_settlements [] n tx = (n, tx)"
| "send_settlements (fs # rest) n tx =
     (case send (FundingSettlementEv fs) tx of
        None \<Rightarrow> (n, tx)
      | Some tx \<Rightarrow> send_settlements rest (Suc n) tx)"

definition fetch_settlements ::
  "'d decimal_ops \<Rightarrow> (nat \<Rightarrow> string) \<Rightarrow> settlement_exchange \<Rightarrow> 'd domain_event sender
     \<Rightarrow> (nat, string) result \<times> 'd domain_event sender"
where
  "fetch_settlements D show_status x tx =
     (case sx_answer x of
        Err e \<Rightarrow> (Err e, tx)
      | Ok (status, rows) \<Rightarrow>
          if \<not> (200 \<le> status \<and> status < 300) then (Err (''fundingHistory status '' @ show_status status), tx)
          else case rows of
                 Err e \<Rightarrow> (Err e, tx)
               | Ok rows \<Rightarrow>
                   (case send_settlements (List.map_filter (settlement_of D (sx_now_us x) (sx_rtt_us x)) rows) 0 tx of
                      (n, tx) \<Rightarrow> (Ok n, tx)))"

text \<open>
  A symbol of a cycle: two attempts.  \<open>ask\<close> performs the exchange for a request, given the number of
  the attempt.
\<close>

fun settlement_attempts ::
  "'d decimal_ops \<Rightarrow> (nat \<Rightarrow> string) \<Rightarrow> (nat \<Rightarrow> settlement_exchange) \<Rightarrow> nat \<Rightarrow> nat \<Rightarrow> 'd domain_event sender
     \<Rightarrow> nat option \<times> 'd domain_event sender"
where
  "settlement_attempts D show_status ask attempts 0 tx = (None, tx)"
| "settlement_attempts D show_status ask attempts (Suc left) tx =
     (case fetch_settlements D show_status (ask attempts) tx of
        (Ok n, tx) \<Rightarrow> (Some n, tx)
      | (Err _, tx) \<Rightarrow> settlement_attempts D show_status ask (Suc attempts) left tx)"

fun settlement_symbols ::
  "'d decimal_ops \<Rightarrow> (nat \<Rightarrow> string) \<Rightarrow> (string \<Rightarrow> json \<Rightarrow> nat \<Rightarrow> settlement_exchange) \<Rightarrow> venue_environment \<Rightarrow> u64 \<Rightarrow> string list
     \<Rightarrow> 'd domain_event sender \<Rightarrow> nat option list \<times> 'd domain_event sender"
where
  "settlement_symbols D show_status ask environment start_ms [] tx = ([], tx)"
| "settlement_symbols D show_status ask environment start_ms (symbol # symbols) tx =
     (case settlement_attempts D show_status (ask (info_url environment) (settlement_request symbol start_ms)) 0 2 tx of
        (collected, tx) \<Rightarrow>
          (case settlement_symbols D show_status ask environment start_ms symbols tx of
             (rest, tx) \<Rightarrow> (collected # rest, tx)))"

definition SETTLEMENT_FETCH_DELAY_SECS :: u64 where
  "SETTLEMENT_FETCH_DELAY_SECS = 5"

definition SETTLEMENT_BACKFILL_MS :: u64 where
  "SETTLEMENT_BACKFILL_MS = 3600 * 1000"

definition SETTLEMENT_OVERLAP_MS :: u64 where
  "SETTLEMENT_OVERLAP_MS = 3600 * 1000"

definition first_start_ms :: "u64 \<Rightarrow> u64" where
  "first_start_ms now_us = saturating_sub (now_us div 1000) SETTLEMENT_BACKFILL_MS"

definition next_start_ms :: "u64 \<Rightarrow> u64" where
  "next_start_ms now_us = saturating_sub (now_us div 1000) SETTLEMENT_OVERLAP_MS"

definition next_hour_ms :: "u64 \<Rightarrow> u64" where
  "next_hour_ms now_ms = (now_ms div 3600000 + 1) * 3600000"

definition wait_ms :: "u64 \<Rightarrow> u64" where
  "wait_ms now_ms = saturating_sub (next_hour_ms now_ms) now_ms + SETTLEMENT_FETCH_DELAY_SECS * 1000"

datatype settlement_wake = Slept | ShutdownClosed | ShutdownChanged bool

text \<open>What a cycle meets: its exchanges, the clock at its end and what ends the wait.\<close>

record settlement_cycle =
  sc_ask :: "string \<Rightarrow> json \<Rightarrow> nat \<Rightarrow> settlement_exchange"
  sc_end_us :: u64
  sc_wake :: settlement_wake

definition poller_stops :: "settlement_wake \<Rightarrow> bool" where
  "poller_stops w \<longleftrightarrow> w = ShutdownClosed \<or> w = ShutdownChanged True"

text \<open>The log of a run: the start of each cycle's window and what each symbol collected.\<close>

fun settlement_cycles ::
  "'d decimal_ops \<Rightarrow> (nat \<Rightarrow> string) \<Rightarrow> venue_environment \<Rightarrow> string list \<Rightarrow> u64 \<Rightarrow> settlement_cycle list \<Rightarrow> 'd domain_event sender
     \<Rightarrow> (u64 \<times> nat option list) list \<times> 'd domain_event sender"
where
  "settlement_cycles D show_status environment symbols start_ms [] tx = ([], tx)"
| "settlement_cycles D show_status environment symbols start_ms (c # cs) tx =
     (case settlement_symbols D show_status (sc_ask c) environment start_ms symbols tx of
        (collected, tx) \<Rightarrow>
          if poller_stops (sc_wake c) then ([(start_ms, collected)], tx)
          else case settlement_cycles D show_status environment symbols (next_start_ms (sc_end_us c)) cs tx of
                 (entries, tx) \<Rightarrow> ((start_ms, collected) # entries, tx))"

definition settlement_poller ::
  "'d decimal_ops \<Rightarrow> (nat \<Rightarrow> string) \<Rightarrow> venue_environment \<Rightarrow> string list \<Rightarrow> u64 \<Rightarrow> settlement_cycle list \<Rightarrow> 'd domain_event sender
     \<Rightarrow> (u64 \<times> nat option list) list \<times> 'd domain_event sender"
where
  "settlement_poller D show_status environment symbols now_us cs tx =
     settlement_cycles D show_status environment symbols (first_start_ms now_us) cs tx"

text \<open>Whether the adapter starts the poller beside the socket.\<close>

definition polls_settlements :: "declared_datatype list \<Rightarrow> bool" where
  "polls_settlements declared \<longleftrightarrow> DtFundingRates \<in> set declared"

interpretation hyperliquid: trade_normaliser "hyperliquid_normalize_trade D" "''hyperliquid''" for D
  by unfold_locales (auto simp: hyperliquid_normalize_trade_def split: option.splits prod.splits if_splits)

section \<open>The windows leave no hole\<close>

lemma next_hour_bounds:
  assumes "unat now_ms < 2 ^ 63"
  shows "unat (next_hour_ms now_ms) = (unat now_ms div 3600000 + 1) * 3600000"
proof -
  have "unat now_ms div 3600000 * 3600000 \<le> unat now_ms" by simp
  then have "(unat now_ms div 3600000 + 1) * 3600000 < 2 ^ 64" using assms by simp
  then show ?thesis
    by (simp add: next_hour_ms_def unat_div unat_word_ariths)
qed

text \<open>A wait ends five seconds after the coming full hour.\<close>

lemma wait_reaches_next_hour:
  assumes "unat now_ms < 2 ^ 63"
  shows "unat now_ms + unat (wait_ms now_ms) = (unat now_ms div 3600000 + 1) * 3600000 + 5000"
    "unat (wait_ms now_ms) \<le> 3605000"
proof -
  define q where "q = unat now_ms div 3600000"
  have q: "q * 3600000 \<le> unat now_ms" "unat now_ms < q * 3600000 + 3600000"
    using div_mult_mod_eq [of "unat now_ms" 3600000] mod_less_divisor [of 3600000 "unat now_ms"] unfolding q_def by linarith+
  have "unat (saturating_sub (next_hour_ms now_ms) now_ms) = (q + 1) * 3600000 - unat now_ms"
    by (simp add: unat_saturating_sub next_hour_bounds [OF assms] q_def)
  then have "unat (wait_ms now_ms) = (q + 1) * 3600000 - unat now_ms + 5000"
    using q by (simp add: wait_ms_def SETTLEMENT_FETCH_DELAY_SECS_def unat_word_ariths)
  then show "unat now_ms + unat (wait_ms now_ms) = (unat now_ms div 3600000 + 1) * 3600000 + 5000"
    "unat (wait_ms now_ms) \<le> 3605000"
    using q unfolding q_def [symmetric] by simp_all
qed

lemma settlement_starts:
  assumes "settlement_cycles D show_status environment symbols start cs tx = (entries, tx')" "i < length entries"
  shows "fst (entries ! i) = (case i of 0 \<Rightarrow> start | Suc j \<Rightarrow> next_start_ms (sc_end_us (cs ! j)))"
  using assms
proof (induction cs arbitrary: start tx tx' entries i)
  case (Cons c cs)
  obtain collected tx1 where sy: "settlement_symbols D show_status (sc_ask c) environment start symbols tx = (collected, tx1)"
    by fastforce
  obtain rest tx2 where r: "settlement_cycles D show_status environment symbols (next_start_ms (sc_end_us c)) cs tx1 = (rest, tx2)"
    by fastforce
  show ?case
    using Cons.prems Cons.IH [OF r, of "i - 1"] sy r by (cases i) (auto split: if_splits nat.splits simp: nth_Cons)
qed simp

lemma next_start_le:
  assumes "unat end_us div 1000 \<le> served + 3600000"
  shows "unat (next_start_ms end_us) \<le> served"
  using assms by (simp add: next_start_ms_def SETTLEMENT_OVERLAP_MS_def unat_saturating_sub unat_div)

text \<open>A cycle that ends within the hour it served asks for that hour's settlement again the next time.\<close>

lemma missed_hour_is_asked_again:
  assumes "unat end_us div 1000 \<le> hour_ms + 3600000"
  shows "unat (next_start_ms end_us) \<le> hour_ms"
  using assms by (rule next_start_le)


text \<open>Two cycles an hour apart; the second answers for the instant right after the first.\<close>

definition sample_exchange :: settlement_exchange where
  "sample_exchange = \<lparr>sx_answer = Ok (200, Ok []), sx_rtt_us = 0, sx_now_us = 0\<rparr>"

definition sample_cycle :: "u64 \<Rightarrow> settlement_cycle" where
  "sample_cycle end_us = \<lparr>sc_ask = (\<lambda>_ _ _. sample_exchange), sc_end_us = end_us, sc_wake = Slept\<rparr>"

abbreviation sample_poll :: "(u64 \<times> nat option list) list" where
  "sample_poll \<equiv> fst (settlement_poller exact_decimal (\<lambda>_. []) Production [''BTC''] 7205000000
     [sample_cycle 7206000000, sample_cycle 10806000000] \<lparr>sent = [], closes_after = None\<rparr>)"

lemma settlement_first_answer:
  "fetch_settlements D show_status (ask a) tx = (Ok n, tx') \<Longrightarrow> settlement_attempts D show_status ask a 2 tx = (Some n, tx')"
  by (simp add: numeral_2_eq_2)

lemma sample_poll_eq: "sample_poll = [(3605000, [Some 0]), (3606000, [Some 0])]"
proof -
  have "fetch_settlements exact_decimal (\<lambda>_. []) sample_exchange tx = (Ok 0, tx)" for tx
    by (simp add: fetch_settlements_def sample_exchange_def map_filter_def)
  then have "settlement_attempts exact_decimal (\<lambda>_. []) (\<lambda>_. sample_exchange) a 2 tx = (Some 0, tx)" for a tx
    by (simp add: settlement_first_answer)
  moreover have "first_start_ms 7205000000 = 3605000" "next_start_ms 7206000000 = 3606000" by code_simp+
  ultimately show ?thesis by (simp add: settlement_poller_def sample_cycle_def poller_stops_def)
qed


end
