(* ===== verification/Spec2Isabelle.thy ===== *)
theory Spec2Isabelle
  imports Runtime_Loop Event_Sync Worker Replay Venue_Spot Venue_Coinbase Venue_Seeded Venue_Hyperliquid
begin

text \<open>
  \<^bold>\<open>A verification library for the aetelier market-data SDK.\<close>

  The SDK connects to crypto venues or replays an archive of their messages, decodes them into a
  normalised event stream, reconstructs order books and trade streams from it and aligns them into
  market snapshots.  This library models the logic between the wire and the persistence layer.  A
  function that can fail returns \<open>result\<close> or \<open>option\<close>; state is passed explicitly; the clock, the
  random draw, the CRC, the digests, the JSON and XML parsers, the HTTP exchange and the third-party
  types (\<open>rust_decimal::Decimal\<close>, \<open>tungstenite::Error\<close>) are arguments.

  \<^bold>\<open>Theories and sources\<close> (paths under \<open>src/\<close>).

  \<^item> \<open>Prelude\<close>: machine types, results, saturating arithmetic, hash maps, channels, strings, the
    decimal interface; the locales \<open>fallible_machine\<close> (an operation that may refuse and keeps an
    invariant either way) and \<open>flagged_machine\<close> (a refusal is visible in the state).
  \<^item> \<open>Exact_Decimal\<close>: an implementation of the decimal interface by integers with a scale.  It
    shows that the laws assumed of \<open>Decimal\<close> can hold and it runs the concrete examples.
  \<^item> \<open>Ordered_Map\<close>: \<open>BTreeMap\<close> as a sorted association list, with the locale \<open>ordered_map\<close> that the
    book proofs use and its interpretation.
  \<^item> \<open>Trading_Pair\<close>: \<open>aetelier-types/src/{exchanges,trading_pair}.rs\<close>,
    \<open>aetelier-connect/src/framework/symbol.rs\<close>.  Every codec round trip, the quote split.
  \<^item> \<open>Orders\<close>: \<open>aetelier-types/src/{orders,levels,errors}.rs\<close>.  Order identifiers on 64-bit words.
  \<^item> \<open>Events\<close>: \<open>aetelier-types/src/{trades,liquidations,funding,open_interest,time}.rs\<close>.
    De-duplication and aggregation of trades.
  \<^item> \<open>Orderbook_Delta\<close>: \<open>aetelier-types/src/orderbooks/delta.rs\<close> and the persisted snapshot.  The
    incremental book refines a finite map from prices to sizes cut to the best levels.
  \<^item> \<open>Orderbook_Core\<close>: \<open>aetelier-types/src/orderbooks/{core,target}.rs\<close>,
    \<open>aetelier-types/src/snapshots/market.rs\<close>.  Level and order operations, capture of a delta book.
  \<^item> \<open>Feed_Model\<close>, \<open>Sourced_Book\<close>, \<open>Sourced_Trades\<close>: \<open>aetelier-connect/src/framework/{model,checksum}.rs\<close>.
    Events, reconstruction models, checksums; the sourced order book with its four models and the
    gap contract; trade continuity.
  \<^item> \<open>Feed\<close>: \<open>framework/feed.rs\<close>, the lifecycle of a feed as a step relation.
  \<^item> \<open>Metrics\<close>: \<open>framework/budget.rs\<close>, counters and the minting of connection epochs under
    interleaved compare-and-swap.
  \<^item> \<open>Runtime\<close>, \<open>Runtime_Loop\<close>: \<open>framework/runtime.rs\<close>.  Handlers as functions on the runtime state
    and the channels, the \<open>select!\<close> loop of \<open>run\<close> as the relation \<open>run_step\<close>: each rule is one arm,
    so a theorem over the closure of \<open>run_step\<close> covers every interleaving of events, seed results,
    timers and shutdown (the code's \<open>biased\<close> order is one of them).
  \<^item> \<open>Reconnect\<close>: \<open>clients/{disconnect,reconnect,connection_state,connection_manager}.rs\<close>.
  \<^item> \<open>Transport\<close>, \<open>Driver\<close>: \<open>framework/{protocol,transport,driver}.rs\<close>.  The socket pump with its
    deadlines and heartbeats and the drive loop behind it, as step relations; the socket, the venue's
    hooks and the inflater are parameters.
  \<^item> \<open>Ob_Sync\<close>, \<open>Event_Sync\<close>, \<open>Market_Sync\<close>: \<open>synchronizers/*.rs\<close>, the three samplers.
  \<^item> \<open>Output\<close>: \<open>workers/topic_publisher.rs\<close>, \<open>workers/output/mod.rs\<close>, declared datatypes.  Topics and
    sinks; the flusher's answer is a parameter.
  \<^item> \<open>Gaps\<close>, \<open>Reconcile\<close>: \<open>workers/gap_*.rs\<close>, \<open>framework/reconcile.rs\<close>.  Silence detection, the gap
    ledger, the REST fetchers over a paged history (locale \<open>id_pager\<close>).
  \<^item> \<open>Worker\<close>: \<open>workers/market_worker.rs\<close>, \<open>run_framework\<close>.  The reconnect loop and its select arms as
    the relation \<open>worker_step\<close>; it composes the synchronizer, the sinks, the reconnect policy, the
    feed set, the gap ledger and the reconciler.

  \<^item> \<open>Venue\<close>: \<open>framework/registry.rs\<close>, the profiles of \<open>framework/budget.rs\<close>; JSON values and their
    printed form; the boot checks; the locale \<open>trade_normaliser\<close> (a print becomes a trade of the venue
    or a counted drop), which every venue interprets.
  \<^item> \<open>Venue_Spot\<close>, \<open>Venue_Coinbase\<close>, \<open>Venue_Seeded\<close>, \<open>Venue_Hyperliquid\<close>: \<open>framework/adapters/*.rs\<close>,
    \<open>sources/*\<close> and \<open>framework/rest.rs\<close>.  For each of the thirteen venues its message types, decoder,
    subscription frames, acknowledgements, keep-alive and normaliser; the loss accounting of the
    Coinbase and Bitso counters; the REST seeds; the settlement poller of Hyperliquid.
  \<^item> \<open>Entrepot\<close>, \<open>S3_Client\<close>: \<open>aetelier-entrepot/src/*.rs\<close>.  The local and the S3 object source, request
    signing, retry policy and pacing, the request loop, the paged listing, integrity checks.
  \<^item> \<open>Replay\<close>: \<open>framework/entrepot.rs\<close>.  The plan of an archive window, the cursor file and the task
    that replays the objects into the event channel.

  \<^bold>\<open>How the parts interact.\<close>  The transport hands a frame to the adapter's decoder and the driver its
  message to the adapter's normaliser, which turns it into \<open>domain_event\<close>s; an archive replay sends the
  same events from stored objects.  The runtime decodes its symbol
  with a \<open>symbol_codec\<close>, applies a book delta to the pair's \<open>sourced_orderbook\<close>, which wraps an
  \<open>orderbook_delta\<close>, and hands the captured \<open>orderbook\<close> to the output channel; a refused delta moves
  the pair to buffering and a snapshot is fetched, until the reseed budget is spent and the caller
  is asked to reconnect, which the \<open>reconnect_policy\<close> then paces.  The worker feeds the output to the market synchronizer,
  hands the rows to the sinks, and records every interruption in the gap ledger.

  \<^bold>\<open>What the properties show.\<close>  For the runtime: every emitted book is sorted and uncrossed, no pair
  is stranded without an outstanding fetch, buffers and fetches stay within their bounds, failing
  fetches end the run, and a buffered start equals an in-order start.  For the books: each update
  implements the abstract book, acceptance is characterised exactly, a per-order book is the sum of
  its orders, a sequence-checked stream has no hole.  For the samplers: no event is lost or
  repeated and no row looks ahead.  For the worker: every accepted print ends in a written or
  buffered snapshot, waits for its row or is counted late, and the gap ledger has no hole.  For the
  venues: no print disappears uncounted, an accepted update continues its predecessor in the venue's
  own numbering, the loss reports of Coinbase and Bitso count exactly the frames lost, the settlement
  windows cover every instant.  For the archive: a request ends within its budget, a listing is
  complete, an interrupted replay resumes where it stopped.  For the rest: round trips of codecs and persisted snapshots,
  lifecycle and log invariants, backoff bounds and the circuit breaker.  Some properties record
  behaviour that differs from the documentation; they are marked so in their text.

  \<^bold>\<open>Bounds and fuel.\<close>  Loops are structural recursion or \<open>function\<close> with a termination proof; the endless
  select loops are relations; the settlement poller recurses over the list of its cycles.  Only the
  paged listing \<open>s3_list\<close> has fuel, because a store could name tokens for ever; as many iterations as
  the store has pages are proved enough.  Machine integers are words and wrap as in a release build;
  lengths and durations are natural numbers.

  \<^bold>\<open>Not modelled.\<close>  The third-party parsers themselves, the legacy ingestion path of the workers and
  its venue clients, configuration parsing, parquet access, telemetry: they are glue around libraries
  that are not part of the repository.  Random test data generators, \<open>Display\<close> output used only for
  logs, and statistics computed in floating point (\<open>describe\<close>, \<open>market_aggregate\<close>, the worker's rate and
  latency averages) are left out as well.
\<close>

end
